theory Spec2Isabelle
  imports Complex_Main "HOL-Library.Sublist"
begin

section \<open>bun-plugin-html: the asset graph, naming and write policy of \<open>src/index.ts\<close>\<close>

text \<open>
  A shallow embedding of the parts of \<open>src/index.ts\<close> that own the asset graph, the
  identity folding (\<open>NamedAs\<close>), the naming templates and the write-once policy.
  JavaScript strings are modelled as \<open>string\<close> (paths are taken to be ASCII), an
  optional field \<open>f?: T\<close> as \<open>T option\<close>, a thrown \<open>Error\<close> as the left summand of a sum.
\<close>

subsection \<open>Plugin options\<close>

datatype inline_option = InlineBool bool | InlineKinds "bool option" "bool option"
  \<comment> \<open>\<open>inline?: boolean | { css?: boolean; js?: boolean }\<close>\<close>

datatype keep_option = KeepBool bool | KeepPaths "string list"
  \<comment> \<open>\<open>keepOriginalPaths?: boolean | string[]\<close>\<close>

record HtmlMinifyOptions =
  minifyHTML :: "bool option"
  \<comment> \<open>the one field of \<open>HtmlMinifyOptions\<close> that this part of the plugin reads itself\<close>

definition defaultMinifyOptions :: HtmlMinifyOptions where
  "defaultMinifyOptions = \<lparr> minifyHTML = Some True \<rparr>"

record BunPluginHTMLOptions =
  inline :: "inline_option option"
  naming_css :: "string option"  \<comment> \<open>\<open>naming?: { css?: string }\<close>\<close>
  minifyOptions :: "HtmlMinifyOptions option"
  includeExtensions :: "string list option"
  excludeExtensions :: "string list option"
  excludeSelectors :: "string list option"
  keepOriginalPaths :: "keep_option option"
  suppressErrors :: "bool option"

definition noOptions :: BunPluginHTMLOptions where
  "noOptions = \<lparr> inline = None, naming_css = None, minifyOptions = None,
     includeExtensions = None,
     excludeExtensions = None, excludeSelectors = None, keepOriginalPaths = None,
     suppressErrors = None \<rparr>"

definition attributesToSearch :: "string list" where
  "attributesToSearch = [''src'', ''href'', ''data'', ''action'', ''data-src'', ''lowsrc'']"

definition extensionsToBuild :: "string list" where
  "extensionsToBuild = [''.js'', ''.jsx'', ''.ts'', ''.tsx'']"

definition selectorsToExclude :: "string list" where
  "selectorsToExclude = [''a'']"

subsection \<open>\<open>setup\<close>: the effective exclusion and build lists\<close>

text \<open>
  \<open>options?.excludeSelectors ? options.excludeSelectors.concat(selectorsToExclude)
  : selectorsToExclude\<close>; an array, also the empty one, is truthy.
\<close>

definition excluded :: "BunPluginHTMLOptions option \<Rightarrow> string list" where
  "excluded options =
     (case options of
        None \<Rightarrow> selectorsToExclude
      | Some opts \<Rightarrow>
          (case excludeSelectors opts of
             None \<Rightarrow> selectorsToExclude
           | Some sels \<Rightarrow> sels @ selectorsToExclude))"

definition buildExtensions :: "BunPluginHTMLOptions option \<Rightarrow> string list" where
  "buildExtensions options =
     (case options of
        None \<Rightarrow> extensionsToBuild
      | Some opts \<Rightarrow>
          (case includeExtensions opts of
             None \<Rightarrow> extensionsToBuild
           | Some exts \<Rightarrow> exts @ extensionsToBuild))"

text \<open>
  \<open>getAllFiles\<close> builds the rewriter's selector by appending \<open>:not(exclude)\<close> for every
  excluded selector, in order.
\<close>

definition excludedSelector :: "string list \<Rightarrow> string" where
  "excludedSelector excl = foldl (\<lambda>acc exclude. acc @ '':not('' @ exclude @ '')'') [] excl"

text \<open>
  An element is handed to the element handler when it matches the selector, that is when
  it matches none of the negated selectors. What it means for an element to match one
  selector is the HTML rewriter's business and is the parameter \<open>matches\<close>.
\<close>

definition scanned :: "(string \<Rightarrow> 'el \<Rightarrow> bool) \<Rightarrow> string list \<Rightarrow> 'el \<Rightarrow> bool" where
  "scanned matches excl el = list_all (\<lambda>exclude. \<not> matches exclude el) excl"

text \<open>\<open>extensions.includes(extension)\<close> of \<open>getExtensionFiles\<close> and of \<open>setup\<close>.\<close>

definition arrayIncludes :: "string list \<Rightarrow> string \<Rightarrow> bool" where
  "arrayIncludes xs x = (x \<in> set xs)"

subsection \<open>\<open>setup\<close>: the \<open>onLoad\<close> hook\<close>

datatype error = Error string

text \<open>The hook's filter \<open>/\.(html|htm)$/\<close>: the path ends with \<open>.html\<close> or \<open>.htm\<close>.\<close>

definition onLoadFilter :: "string \<Rightarrow> bool" where
  "onLoadFilter p = (suffix ''.html'' p \<or> suffix ''.htm'' p)"

text \<open>The callback registered by \<open>build.onLoad\<close>: it throws, whatever the options are.\<close>

definition onLoadCallback :: "BunPluginHTMLOptions option \<Rightarrow> string \<Rightarrow> error + unit" where
  "onLoadCallback options p =
     Inl (Error ''bun-plugin-html does not support output information at this time.'')"

text \<open>The bundler runs the callback on the paths the filter accepts; \<open>None\<close>: not handled.\<close>

definition onLoad :: "BunPluginHTMLOptions option \<Rightarrow> string \<Rightarrow> (error + unit) option" where
  "onLoad options p = (if onLoadFilter p then Some (onLoadCallback options p) else None)"

subsection \<open>JavaScript string functions\<close>

text \<open>\<open>s.split(sep)\<close> for a one-character separator.\<close>

fun splitOn :: "char \<Rightarrow> string \<Rightarrow> string list" where
  "splitOn sep [] = [[]]"
| "splitOn sep (c # cs) =
     (if c = sep then [] # splitOn sep cs
      else (case splitOn sep cs of [] \<Rightarrow> [[c]] | w # ws \<Rightarrow> (c # w) # ws))"

text \<open>\<open>parts.join(sep)\<close>.\<close>

fun joinWith :: "string \<Rightarrow> string list \<Rightarrow> string" where
  "joinWith sep [] = []"
| "joinWith sep [x] = x"
| "joinWith sep (x # y # ys) = x @ sep @ joinWith sep (y # ys)"

text \<open>
  The replacement patterns of \<open>String.prototype.replace\<close> and \<open>replaceAll\<close> when the
  pattern is a string (no capture groups): \<open>$$\<close> is a dollar sign, \<open>$&\<close> the matched text,
  dollar-backquote the text left of the match (\<open>passed\<close>) and dollar-quote the text right
  of it (\<open>rest\<close>).
\<close>

fun getSubstitution :: "string \<Rightarrow> string \<Rightarrow> string \<Rightarrow> string \<Rightarrow> string" where
  "getSubstitution matched passed rest [] = []"
| "getSubstitution matched passed rest [c] = [c]"
| "getSubstitution matched passed rest (c # d # r) =
     (if c = CHR ''$'' \<and> d = CHR ''$'' then CHR ''$'' # getSubstitution matched passed rest r
      else if c = CHR ''$'' \<and> d = CHR ''&'' then matched @ getSubstitution matched passed rest r
      else if c = CHR ''$'' \<and> d = CHR 0x60 then passed @ getSubstitution matched passed rest r
      else if c = CHR ''$'' \<and> d = CHR 0x27 then rest @ getSubstitution matched passed rest r
      else c # getSubstitution matched passed rest (d # r))"

text \<open>
  \<open>s.replace(pattern, replacement)\<close> with a string pattern: the first occurrence is
  replaced. \<open>passed\<close> is the part of \<open>s\<close> left of the position, in reverse.
\<close>

fun replaceFrom :: "string \<Rightarrow> string \<Rightarrow> string \<Rightarrow> string \<Rightarrow> string" where
  "replaceFrom passed pattern replacement [] =
     (if pattern = [] then getSubstitution [] (rev passed) [] replacement else [])"
| "replaceFrom passed pattern replacement (c # cs) =
     (if prefix pattern (c # cs)
      then getSubstitution pattern (rev passed) (drop (length pattern) (c # cs)) replacement
             @ drop (length pattern) (c # cs)
      else c # replaceFrom (c # passed) pattern replacement cs)"

definition replace :: "string \<Rightarrow> string \<Rightarrow> string \<Rightarrow> string" where
  "replace s pattern replacement = replaceFrom [] pattern replacement s"

text \<open>
  \<open>s.replaceAll(pattern, replacement)\<close> with a non-empty string pattern: every occurrence,
  left to right, without overlaps. The first argument counts the characters of a replaced
  occurrence that are still to be skipped.
\<close>

fun replaceAllFrom :: "nat \<Rightarrow> string \<Rightarrow> string \<Rightarrow> string \<Rightarrow> string \<Rightarrow> string" where
  "replaceAllFrom k passed pattern replacement [] = []"
| "replaceAllFrom (Suc k) passed pattern replacement (c # cs) =
     replaceAllFrom k (c # passed) pattern replacement cs"
| "replaceAllFrom 0 passed pattern replacement (c # cs) =
     (if pattern \<noteq> [] \<and> prefix pattern (c # cs)
      then getSubstitution pattern (rev passed) (drop (length pattern) (c # cs)) replacement
             @ replaceAllFrom (length pattern - 1) (c # passed) pattern replacement cs
      else c # replaceAllFrom 0 (c # passed) pattern replacement cs)"

definition replaceAll :: "string \<Rightarrow> string \<Rightarrow> string \<Rightarrow> string" where
  "replaceAll s pattern replacement = replaceAllFrom 0 [] pattern replacement s"

text \<open>ASCII lower case, for the regular expressions with the \<open>i\<close> flag.\<close>

definition toLowerChar :: "char \<Rightarrow> char" where
  "toLowerChar c =
     (if of_char c \<ge> (65::nat) \<and> of_char c \<le> (90::nat) then char_of (of_char c + (32::nat)) else c)"

definition toLower :: "string \<Rightarrow> string" where
  "toLower s = map toLowerChar s"

subsection \<open>\<open>node:path\<close>, POSIX flavour\<close>

text \<open>
  \<open>normalizeString\<close>: the segments between slashes are read left to right; empty
  segments and \<open>.\<close> are dropped, \<open>..\<close> removes the segment before it unless there is none
  or it is \<open>..\<close> itself, in which case it is kept if \<open>allowAboveRoot\<close>.
  The accumulator holds the kept segments in reverse.
\<close>

fun normalizeSegments :: "bool \<Rightarrow> string list \<Rightarrow> string list \<Rightarrow> string list" where
  "normalizeSegments allowAboveRoot acc [] = rev acc"
| "normalizeSegments allowAboveRoot acc (seg # segs) =
     (if seg = [] \<or> seg = ''.'' then normalizeSegments allowAboveRoot acc segs
      else if seg = ''..'' then
        (case acc of
           [] \<Rightarrow> normalizeSegments allowAboveRoot (if allowAboveRoot then [''..''] else []) segs
         | lastSeg # below \<Rightarrow>
             if lastSeg = ''..''
             then normalizeSegments allowAboveRoot
                    (if allowAboveRoot then ''..'' # acc else acc) segs
             else normalizeSegments allowAboveRoot below segs)
      else normalizeSegments allowAboveRoot (seg # acc) segs)"

definition normalizeString :: "string \<Rightarrow> bool \<Rightarrow> string" where
  "normalizeString p allowAboveRoot =
     joinWith ''/'' (normalizeSegments allowAboveRoot [] (splitOn CHR ''/'' p))"

definition isAbsolute :: "string \<Rightarrow> bool" where
  "isAbsolute p = (p \<noteq> [] \<and> hd p = CHR ''/'')"

definition path_normalize :: "string \<Rightarrow> string" where
  "path_normalize p =
     (if p = [] then ''.''
      else
        let trailingSeparator = (last p = CHR ''/'');
            q = normalizeString p (\<not> isAbsolute p)
        in if q = [] then (if isAbsolute p then ''/'' else if trailingSeparator then ''./'' else ''.'')
           else (if isAbsolute p then ''/'' else []) @ q @ (if trailingSeparator then ''/'' else []))"

definition path_join :: "string list \<Rightarrow> string" where
  "path_join args =
     (case filter (\<lambda>a. a \<noteq> []) args of
        [] \<Rightarrow> ''.''
      | parts \<Rightarrow> path_normalize (joinWith ''/'' parts))"

text \<open>
  \<open>path.resolve(...args)\<close>: the arguments are prepended right to left until the path is
  absolute, the working directory last. \<open>resolveFrom\<close> takes the arguments reversed.
\<close>

fun resolveFrom :: "string \<Rightarrow> string \<Rightarrow> string list \<Rightarrow> string" where
  "resolveFrom cwd resolvedPath [] =
     (if cwd = [] then resolvedPath else cwd @ ''/'' @ resolvedPath)"
| "resolveFrom cwd resolvedPath (p # ps) =
     (if p = [] then resolveFrom cwd resolvedPath ps
      else if hd p = CHR ''/'' then p @ ''/'' @ resolvedPath
      else resolveFrom cwd (p @ ''/'' @ resolvedPath) ps)"

definition path_resolve :: "string \<Rightarrow> string list \<Rightarrow> string" where
  "path_resolve cwd args =
     (let resolvedPath = resolveFrom cwd [] (rev args);
          resolvedAbsolute = isAbsolute resolvedPath;
          q = normalizeString resolvedPath (\<not> resolvedAbsolute)
      in if resolvedAbsolute then ''/'' @ q else if q \<noteq> [] then q else ''.'')"

text \<open>
  \<open>path.relative(from, to)\<close>: both are resolved; the common leading segments are
  dropped, every segment left of \<open>from\<close> becomes \<open>..\<close>.
\<close>

fun dropCommon :: "string list \<Rightarrow> string list \<Rightarrow> string list \<times> string list" where
  "dropCommon (x # xs) (y # ys) = (if x = y then dropCommon xs ys else (x # xs, y # ys))"
| "dropCommon xs ys = (xs, ys)"

definition path_relative :: "string \<Rightarrow> string \<Rightarrow> string \<Rightarrow> string" where
  "path_relative cwd from to =
     (if from = to then []
      else
        let f = path_resolve cwd [from]; t = path_resolve cwd [to]
        in if f = t then []
           else
             (case dropCommon (filter (\<lambda>s. s \<noteq> []) (splitOn CHR ''/'' f))
                              (filter (\<lambda>s. s \<noteq> []) (splitOn CHR ''/'' t)) of
                (fs, ts) \<Rightarrow> joinWith ''/'' (map (\<lambda>_. ''..'') fs @ ts)))"

record ParsedPath =
  root :: string
  dir :: string
  base :: string
  ext :: string
  name :: string

text \<open>
  The extension of a base name, as \<open>path.parse\<close> finds it: from the last dot on, unless
  there is no dot, the last dot is the first character, or the base is \<open>..\<close>
  (\<open>atStart\<close>: the base starts at index 0 of the path or right behind a scanned slash; an
  absolute path with no further slash misses the \<open>..\<close> exception, as Node's code does).
\<close>

definition lastDot :: "string \<Rightarrow> nat option" where
  "lastDot b =
     (case dropWhile (\<lambda>c. c \<noteq> CHR ''.'') (rev b) of
        [] \<Rightarrow> None
      | _ # passed \<Rightarrow> Some (length passed))"

definition extOf :: "bool \<Rightarrow> string \<Rightarrow> string" where
  "extOf atStart b =
     (case lastDot b of
        None \<Rightarrow> []
      | Some d \<Rightarrow> if d = 0 \<or> (b = ''..'' \<and> atStart) then [] else drop d b)"

definition path_parse :: "string \<Rightarrow> ParsedPath" where
  "path_parse p =
     (if p = [] then \<lparr> root = [], dir = [], base = [], ext = [], name = [] \<rparr>
      else
        let absolute = isAbsolute p;
            rt = (if absolute then ''/'' else []);
            body = (if absolute then tl p else p);
            stripped = rev (dropWhile (\<lambda>c. c = CHR ''/'') (rev body));
            b = rev (takeWhile (\<lambda>c. c \<noteq> CHR ''/'') (rev stripped));
            pre = take (length stripped - length b) stripped;
            e = extOf (\<not> (absolute \<and> pre = [])) b
        in \<lparr> root = rt,
             dir = (if pre \<noteq> [] then rt @ butlast pre else rt),
             base = b,
             ext = e,
             name = take (length b - length e) b \<rparr>)"

text \<open>
  \<open>path.dirname\<close>.
  Trailing slashes are passed over, then the base name; the result is what is left of the
  slash before the base name (a slash at index 0 does not count), \<open>//\<close> when that slash is
  at index 1 of an absolute path, and \<open>/\<close> or \<open>.\<close> when there is no such slash.
\<close>

definition path_dirname :: "string \<Rightarrow> string" where
  "path_dirname p =
     (if p = [] then ''.''
      else
        let beforeBase = dropWhile (\<lambda>c. c \<noteq> CHR ''/'')
                           (dropWhile (\<lambda>c. c = CHR ''/'') (rev (tl p)))
        in if beforeBase = [] then (if isAbsolute p then ''/'' else ''.'')
           else if isAbsolute p \<and> length beforeBase = 1 then ''//''
           else take (length beforeBase) p)"

subsection \<open>The asset graph\<close>

datatype ArtifactKind = EntryPoint | Chunk | Asset | Sourcemap | Bytecode
  \<comment> \<open>\<open>BuildArtifact['kind']\<close>\<close>

text \<open>
  A \<open>BunFile\<close> is used through its \<open>name\<close> only; a handle without a name has the empty
  name here (both are falsy in the source's \<open>!file.name\<close>).
\<close>

datatype BunFile = BunFile (fileName: string)

datatype Attribute = Attribute (attrName: string) (attrValue: string)

text \<open>The content of a file: text kept in memory, or a file handle whose bytes are copied.\<close>

datatype Content = Text string | Blob BunFile

record FileDetails =
  kind :: ArtifactKind
  attribute :: "Attribute option"
  hash :: string
  originalPath :: "string option"  \<comment> \<open>\<open>string | false\<close>\<close>
  htmlImporter :: string
  content :: "Content option"

type_synonym File = "BunFile \<times> FileDetails"

subsection \<open>Objects used as dictionaries\<close>

text \<open>
  \<open>NamedAs\<close> is a plain object with string keys. It is modelled by the list of its own
  properties in the order in which \<open>Object.keys\<close> and \<open>for ... in\<close> enumerate them:
  keys that are array indices first, in ascending numeric order, then the other keys in
  the order of their creation. Base names and directories are taken not to be names of
  members of \<open>Object.prototype\<close>.
\<close>

type_synonym 'v dict = "(string \<times> 'v) list"

definition isDigit :: "char \<Rightarrow> bool" where
  "isDigit c = (of_char c \<ge> (48::nat) \<and> of_char c \<le> (57::nat))"

definition digitsValue :: "string \<Rightarrow> int" where
  "digitsValue s = foldl (\<lambda>n c. 10 * n + (of_char c - 48)) 0 s"

definition isArrayIndex :: "string \<Rightarrow> bool" where
  "isArrayIndex s =
     (s \<noteq> [] \<and> list_all isDigit s \<and> (s = ''0'' \<or> hd s \<noteq> CHR ''0'')
      \<and> length s \<le> 10 \<and> digitsValue s < 4294967295)"

fun dictInsertIndex :: "int \<Rightarrow> string \<Rightarrow> 'v \<Rightarrow> 'v dict \<Rightarrow> 'v dict" where
  "dictInsertIndex n k v [] = [(k, v)]"
| "dictInsertIndex n k v ((k', v') # r) =
     (if isArrayIndex k' \<and> digitsValue k' < n then (k', v') # dictInsertIndex n k v r
      else (k, v) # (k', v') # r)"

definition dictGet :: "'v dict \<Rightarrow> string \<Rightarrow> 'v option" where
  "dictGet d k = map_of d k"

definition dictSet :: "'v dict \<Rightarrow> string \<Rightarrow> 'v \<Rightarrow> 'v dict" where
  "dictSet d k v =
     (if dictGet d k \<noteq> None then map (\<lambda>(k', v'). if k' = k then (k', v) else (k', v')) d
      else if isArrayIndex k then dictInsertIndex (digitsValue k) k v d
      else d @ [(k, v)])"

record NamedEntry =
  asPath :: string  \<comment> \<open>the field \<open>as\<close>\<close>
  fd :: BunFile

type_synonym NamedAs = "NamedEntry dict dict"

subsection \<open>The state of one plugin instance and of the file system\<close>

text \<open>
  \<open>_namedAs\<close> and \<open>_pathSaved\<close> are the two objects closed over by the plugin.
  \<open>written\<close> is the sequence of the \<open>Bun.write\<close> calls made, \<open>onDisk\<close> the paths at which
  \<open>fs.exists\<close> finds a file.
\<close>

record BuildState =
  namedAs :: NamedAs
  pathSaved :: "string list"
  written :: "(string \<times> Content) list"
  onDisk :: "string set"

text \<open>A new plugin instance, before anything was written, on an empty disk.\<close>

definition freshState :: BuildState where
  "freshState = \<lparr> namedAs = [], pathSaved = [], written = [], onDisk = {} \<rparr>"

datatype Naming = NamingString string | NamingObject "string option" "string option" "string option"
  \<comment> \<open>\<open>naming?: string | { entry?: string; chunk?: string; asset?: string }\<close>\<close>

record BuildConfig =
  naming :: "Naming option"
  outdir :: "string option"
  minify :: bool

subsection \<open>Deferred attribute rewrite rules\<close>

text \<open>
  The closures pushed on \<open>toChangeAttributes\<close> and \<open>attributesToChange\<close>, with what they
  capture: the selector, and the file, its details and extension (inlining rules) or the
  attribute, the output file, its extension and the build extensions (path rules).
\<close>

datatype Rule =
    InlineStyle string BunFile FileDetails string
  | InlineScript string BunFile FileDetails
  | SetAttribute string Attribute BunFile string "string list"

subsection \<open>What the plugin calls and does not define\<close>

text \<open>
  The working directory; the helpers of \<open>./utils\<close> (\<open>isURL\<close>, \<open>contentToString\<close>,
  \<open>attributeToSelector\<close>, \<open>changeFileExtension\<close>, \<open>findLastCommonPath\<close>,
  \<open>removeCommonPath\<close>, and for the diagnostics
  \<open>returnLineNumberOfOccurance\<close>, \<open>getColumnNumber\<close> and \<open>getLines\<close>); the regular expression
  engine on the pattern \<open>clue\<close> that \<open>save\<close> builds from a base name (\<open>matchClue originName
  content\<close> is \<open>content.match(clue)\<close>, the empty list for \<open>null\<close>); the HTML rewriter's
  \<open>transform\<close> under a list of rules for a file location, and the tag names of the
  elements that the rewriter takes for void (elements without content, such as \<open>link\<close>:
  it does not set their inner content); the HTML minifier; the SASS
  compiler; the text of a file (\<open>file.text()\<close>), the hash of its bytes and the hash of a
  text as \<open>Bun.hash\<close> gives them, cut to eight hexadecimal digits; and the conversion of a
  number to a string. JavaScript numbers are modelled by rationals.
\<close>

record Runtime =
  cwd :: string
  isURL :: "string \<Rightarrow> bool"
  contentToString :: "Content option \<Rightarrow> string"
  attributeToSelector :: "Attribute \<Rightarrow> string"
  changeFileExtension :: "string \<Rightarrow> string \<Rightarrow> string"
  findLastCommonPath :: "string list \<Rightarrow> string"
  removeCommonPath :: "string \<Rightarrow> string \<Rightarrow> string"
  returnLineNumberOfOccurance :: "string \<Rightarrow> string \<Rightarrow> rat"
  getColumnNumber :: "string \<Rightarrow> rat \<Rightarrow> rat"
  getLines :: "string \<Rightarrow> rat \<Rightarrow> rat \<Rightarrow> string"
  matchClue :: "string \<Rightarrow> string \<Rightarrow> string list"
  transform :: "Rule list \<Rightarrow> string \<Rightarrow> string \<Rightarrow> string"
  voidElement :: "string \<Rightarrow> bool"
  minifyHtml :: "string \<Rightarrow> string"
  sassCompile :: "string \<Rightarrow> string"
  readText :: "BunFile \<Rightarrow> string"
  hashOfFile :: "BunFile \<Rightarrow> string"
  hashOfText :: "string \<Rightarrow> string"
  numberToString :: "rat \<Rightarrow> string"

subsection \<open>\<open>keepNamedAs\<close>\<close>

text \<open>
  \<open>const names = namedAs[base] || {}\<close>, then the entry for \<open>path.join(root, dir)\<close> is
  returned if there is one. Otherwise a new entry is recorded, but only when the new path
  differs from the original one; when it does not, nothing is recorded and the result is
  \<open>undefined\<close> (\<open>None\<close>).
\<close>

definition keepNamedAs ::
  "ParsedPath \<Rightarrow> ParsedPath \<Rightarrow> string \<Rightarrow> NamedAs \<Rightarrow> NamedEntry option \<times> NamedAs" where
  "keepNamedAs parsedOriginPath parsedNewPath resolved named =
     (let names = (case dictGet named (base parsedOriginPath) of None \<Rightarrow> [] | Some ns \<Rightarrow> ns);
          nameDir = path_join [root parsedOriginPath, dir parsedOriginPath]
      in case dictGet names nameDir of
           Some entry \<Rightarrow> (Some entry, named)
         | None \<Rightarrow>
             let as = path_join [root parsedNewPath, dir parsedNewPath, base parsedNewPath]
             in if as \<noteq> path_join [nameDir, base parsedOriginPath]
                then let entry = \<lparr> asPath = as, fd = BunFile resolved \<rparr>
                     in (Some entry, dictSet named (base parsedOriginPath) (dictSet names nameDir entry))
                else (None, named))"

subsection \<open>Naming templates\<close>

text \<open>The tests \<open>/\.(c|s[ac])ss$/i\<close>, \<open>/\.s[ac]ss$/i\<close> and \<open>/s[ac]ss$/i\<close>.\<close>

definition isStyleExtension :: "string \<Rightarrow> bool" where
  "isStyleExtension e =
     (suffix ''.css'' (toLower e) \<or> suffix ''.scss'' (toLower e) \<or> suffix ''.sass'' (toLower e))"

definition isSassExtension :: "string \<Rightarrow> bool" where
  "isSassExtension e = (suffix ''.scss'' (toLower e) \<or> suffix ''.sass'' (toLower e))"

definition endsWithSass :: "string \<Rightarrow> bool" where
  "endsWithSass e = (suffix ''scss'' (toLower e) \<or> suffix ''sass'' (toLower e))"

text \<open>
  The template \<open>renameFile\<close> chooses: the style override \<open>options.naming.css\<close> for a style
  extension when it is set and not empty, else the build's \<open>naming\<close> when it is a string,
  else the member of the build's \<open>naming\<close> object for \<open>buildNamingType\<close>
  (\<open>entry\<close> for an entry point, \<open>chunk\<close> for a chunk, \<open>asset\<close> otherwise).
\<close>

definition styleOverride :: "BunPluginHTMLOptions option \<Rightarrow> string \<Rightarrow> string option" where
  "styleOverride options extension =
     (if isStyleExtension extension
      then (case options of None \<Rightarrow> None
            | Some opts \<Rightarrow>
                (case naming_css opts of None \<Rightarrow> None
                 | Some css \<Rightarrow> if css \<noteq> [] then Some css else None))
      else None)"

definition selectNaming ::
  "BunPluginHTMLOptions option \<Rightarrow> BuildConfig \<Rightarrow> ArtifactKind \<Rightarrow> string \<Rightarrow> string option" where
  "selectNaming options config k extension =
     (case styleOverride options extension of
        Some css \<Rightarrow> Some css
      | None \<Rightarrow>
          (case naming config of
             None \<Rightarrow> None
           | Some (NamingString s) \<Rightarrow> Some s
           | Some (NamingObject entry chunk asset) \<Rightarrow>
               (case k of EntryPoint \<Rightarrow> entry | Chunk \<Rightarrow> chunk | _ \<Rightarrow> asset)))"

text \<open>
  The \<open>naming\<close> object that \<open>forJsFiles\<close> hands to \<open>Bun.build\<close> for the script entry points:
  from a string, all three members are that string; from an object, \<open>entry\<close> and \<open>chunk\<close>
  are both the build's \<open>chunk\<close> member and \<open>asset\<close> is its \<open>asset\<close> member; without the option,
  \<open>entry\<close> alone is set.
\<close>

record BundlerNaming =
  entry :: "string option"
  chunk :: "string option"
  asset :: "string option"

definition forJsFilesNaming :: "BuildConfig \<Rightarrow> BundlerNaming" where
  "forJsFilesNaming config =
     (case naming config of
        Some (NamingString s) \<Rightarrow> \<lparr> entry = Some s, chunk = Some s, asset = Some s \<rparr>
      | Some (NamingObject e c a) \<Rightarrow> \<lparr> entry = c, chunk = c, asset = a \<rparr>
      | None \<Rightarrow> \<lparr> entry = Some ''./[name]-[hash].[ext]'', chunk = None, asset = None \<rparr>)"

subsection \<open>\<open>renameFile\<close>\<close>

text \<open>
  The tokens \<open>[dir]\<close>, \<open>[hash]\<close>, \<open>[ext]\<close> and \<open>[name]\<close> of a template are replaced, in
  this order, by the directory of the parsed path, the hash, the extension without its
  first dot (\<open>css\<close> for \<open>scss\<close> and \<open>sass\<close>) and the name without extension.
\<close>

definition substituteTokens :: "string \<Rightarrow> ParsedPath \<Rightarrow> string \<Rightarrow> string" where
  "substituteTokens template parsedPath hashStr =
     (let dir = dir parsedPath;
          ext0 = replace (ext parsedPath) ''.'' [];
          name = name parsedPath;
          ext = (if endsWithSass ext0 then ''css'' else ext0)
      in replaceAll (replaceAll (replaceAll (replaceAll template
           ''[dir]'' dir) ''[hash]'' hashStr) ''[ext]'' ext) ''[name]'' name)"

text \<open>
  Source maps and bytecode, files without a name and files for which no template (or the
  empty one) is chosen keep their handle. Otherwise the tokens of the template are
  substituted from the file's path relative to \<open>sharedPath\<close>, the result is resolved
  against \<open>sharedPath\<close>, and \<open>keepNamedAs\<close> decides between the handle recorded earlier and
  a new one.
\<close>

definition renameFile ::
  "Runtime \<Rightarrow> BunPluginHTMLOptions option \<Rightarrow> BuildConfig \<Rightarrow> BunFile \<Rightarrow> string \<Rightarrow> ArtifactKind
     \<Rightarrow> string \<Rightarrow> NamedAs \<Rightarrow> BunFile \<times> NamedAs" where
  "renameFile rt options config file hashStr k sharedPath named =
     (if k = Sourcemap \<or> k = Bytecode then (file, named)
      else if fileName file = [] then (file, named)
      else
        (case selectNaming options config k (ext (path_parse (fileName file))) of
           None \<Rightarrow> (file, named)
         | Some template \<Rightarrow>
             if template = [] then (file, named)
             else
               let filePath = replace (path_normalize (fileName file)) sharedPath ''.'';
                   parsedPath = path_parse filePath;
                   newPath = substituteTokens template parsedPath hashStr;
                   resolved = path_resolve (cwd rt) [sharedPath, newPath];
                   newPathParsed = path_parse newPath
               in (case keepNamedAs parsedPath newPathParsed resolved named of
                     (Some recorded, named') \<Rightarrow> (fd recorded, named')
                   | (None, named') \<Rightarrow> (BunFile resolved, named'))))"

text \<open>
  The identity under which \<open>renameFile\<close> looks a file up in \<open>NamedAs\<close>: the base name of
  its path relative to \<open>sharedPath\<close>, and the directory of that path as \<open>path.join\<close>
  normalises it (so \<open>./img\<close> and \<open>img\<close> are the same source directory).
\<close>

definition sourceIdentity :: "string \<Rightarrow> BunFile \<Rightarrow> string \<times> string" where
  "sourceIdentity sharedPath file =
     (let parsedPath = path_parse (replace (path_normalize (fileName file)) sharedPath ''.'')
      in (base parsedPath, path_join [root parsedPath, dir parsedPath]))"

text \<open>The entry of \<open>NamedAs\<close> for a base name and a directory.\<close>

definition namedEntry :: "NamedAs \<Rightarrow> string \<times> string \<Rightarrow> NamedEntry option" where
  "namedEntry named ident =
     (case dictGet named (fst ident) of None \<Rightarrow> None | Some names \<Rightarrow> dictGet names (snd ident))"

text \<open>
  \<open>renameFile\<close> gets as far as \<open>keepNamedAs\<close>: the kind is neither source map nor
  bytecode, the file has a name, and a template that is not empty is chosen for it.
\<close>

definition takesTemplate ::
  "BunPluginHTMLOptions option \<Rightarrow> BuildConfig \<Rightarrow> BunFile \<Rightarrow> ArtifactKind \<Rightarrow> bool" where
  "takesTemplate options config file k =
     (k \<noteq> Sourcemap \<and> k \<noteq> Bytecode \<and> fileName file \<noteq> []
      \<and> (case selectNaming options config k (ext (path_parse (fileName file))) of
            None \<Rightarrow> False | Some template \<Rightarrow> template \<noteq> []))"

text \<open>A sequence of calls of \<open>renameFile\<close> in one build: file, hash and kind of each.\<close>

definition renameCalls ::
  "Runtime \<Rightarrow> BunPluginHTMLOptions option \<Rightarrow> BuildConfig \<Rightarrow> string
     \<Rightarrow> (BunFile \<times> string \<times> ArtifactKind) list \<Rightarrow> NamedAs \<Rightarrow> NamedAs" where
  "renameCalls rt options config sharedPath calls named =
     foldl (\<lambda>n c. snd (renameFile rt options config (fst c) (fst (snd c)) (snd (snd c)) sharedPath n))
       named calls"

subsection \<open>\<open>save\<close>\<close>

text \<open>
  \<open>_pathSaved\<close> is created as \<open>{}\<close>, so reading \<open>_pathSaved[name]\<close> also finds the members
  inherited from \<open>Object.prototype\<close>, all of them truthy.
\<close>

definition objectPrototypeKeys :: "string list" where
  "objectPrototypeKeys =
     [''constructor'', ''__defineGetter__'', ''__defineSetter__'', ''hasOwnProperty'',
      ''__lookupGetter__'', ''__lookupSetter__'', ''isPrototypeOf'', ''propertyIsEnumerable'',
      ''toString'', ''valueOf'', ''__proto__'', ''toLocaleString'']"

definition isSaved :: "string list \<Rightarrow> string \<Rightarrow> bool" where
  "isSaved saved p = (p \<in> set saved \<or> p \<in> set objectPrototypeKeys)"

text \<open>\<open>s.substring(a, b)\<close>: the bounds are clamped to the length and swapped if needed.\<close>

definition substring :: "string \<Rightarrow> nat \<Rightarrow> nat \<Rightarrow> string" where
  "substring s a b =
     (let a' = min a (length s); b' = min b (length s)
      in take (max a' b' - min a' b') (drop (min a' b') s))"

text \<open>\<open>s.replace(/^\.\//, '')\<close>.\<close>

definition stripDotSlash :: "string \<Rightarrow> string" where
  "stripDotSlash s = (if prefix ''./'' s then drop 2 s else s)"

text \<open>The index of the first \<open>?\<close> or \<open>#\<close> (\<open>pathString.match(/[?#]/)\<close>), if there is one.\<close>

definition extraTailIndex :: "string \<Rightarrow> nat option" where
  "extraTailIndex s =
     (let i = length (takeWhile (\<lambda>c. c \<noteq> CHR ''?'' \<and> c \<noteq> CHR ''#'') s)
      in if i < length s then Some i else None)"

text \<open>
  The test on \<open>_keepOriginalPaths\<close> that exempts a path literal: the option is a
  non-empty array and the literal ends with one of its members.
\<close>

definition keepOriginalPathsOf :: "BunPluginHTMLOptions option \<Rightarrow> keep_option option" where
  "keepOriginalPathsOf options =
     (case options of None \<Rightarrow> None | Some opts \<Rightarrow> keepOriginalPaths opts)"

definition keptOriginal :: "keep_option option \<Rightarrow> string \<Rightarrow> bool" where
  "keptOriginal keep pathString =
     (case keep of
        Some (KeepPaths paths) \<Rightarrow>
          paths \<noteq> [] \<and> list_ex (\<lambda>s. length pathString \<ge> length s \<and> suffix s pathString) paths
      | _ \<Rightarrow> False)"

text \<open>
  The loop \<open>for (const originDir in asNewNames)\<close> for one literal \<open>pathStrCtx\<close>, split into
  \<open>pfx\<close>, \<open>pathString\<close> and \<open>sfx\<close>: an absolute literal is replaced by the new path with a
  leading slash, a literal that spells the original path (up to a leading \<open>./\<close>) by the
  new path, any other literal only if its directory, seen from \<open>hostDir\<close>, is the origin
  directory, and then by the new path relative to \<open>hostDir\<close>. The first occurrence of
  \<open>pathStrCtx\<close> in the content is what gets replaced.
\<close>

fun rewriteForDirs ::
  "Runtime \<Rightarrow> string \<Rightarrow> string \<Rightarrow> string \<Rightarrow> string \<Rightarrow> string \<Rightarrow> string
     \<Rightarrow> NamedEntry dict \<Rightarrow> string \<Rightarrow> string" where
  "rewriteForDirs rt hostDir originName pathStrCtx pfx pathString sfx [] text = text"
| "rewriteForDirs rt hostDir originName pathStrCtx pfx pathString sfx ((originDir, e) # others) text =
     (let originPath = path_join [originDir, originName];
          newPath = asPath e
      in if prefix ''/'' pathString
         then rewriteForDirs rt hostDir originName pathStrCtx pfx pathString sfx others
                (replace text pathStrCtx (pfx @ (''/'' @ newPath) @ sfx))
         else if stripDotSlash pathString \<noteq> stripDotSlash originPath
         then (if dir (path_parse (path_join [hostDir, pathString])) \<noteq> originDir
               then rewriteForDirs rt hostDir originName pathStrCtx pfx pathString sfx others text
               else rewriteForDirs rt hostDir originName pathStrCtx pfx pathString sfx others
                      (replace text pathStrCtx
                         (pfx @ path_relative (cwd rt) hostDir newPath @ sfx)))
         else rewriteForDirs rt hostDir originName pathStrCtx pfx pathString sfx others
                (replace text pathStrCtx (pfx @ newPath @ sfx)))"

text \<open>
  A matched literal \<open>pathStrCtx\<close> is split into its first character, what is between the
  first and the last character, and its last character; a query or fragment that does not
  start the middle part is moved from the path to the suffix.
\<close>

definition literalInner :: "string \<Rightarrow> string" where
  "literalInner pathStrCtx = substring pathStrCtx 1 (length pathStrCtx - 1)"

definition literalParts :: "string \<Rightarrow> string \<times> string \<times> string" where
  "literalParts pathStrCtx =
     (let pfx = substring pathStrCtx 0 1;
          pathString = literalInner pathStrCtx;
          sfx = drop (length pathStrCtx - 1) pathStrCtx
      in case extraTailIndex pathString of
           Some i \<Rightarrow> if i > 0 then (pfx, take i pathString, drop i pathString @ sfx)
                     else (pfx, pathString, sfx)
         | None \<Rightarrow> (pfx, pathString, sfx))"

text \<open>One matched literal: URLs and exempted paths are skipped.\<close>

definition rewriteLiteral ::
  "Runtime \<Rightarrow> keep_option option \<Rightarrow> string \<Rightarrow> string \<Rightarrow> NamedEntry dict \<Rightarrow> string \<Rightarrow> string
     \<Rightarrow> string" where
  "rewriteLiteral rt keep hostDir originName asNewNames text pathStrCtx =
     (if isURL rt (literalInner pathStrCtx) then text
      else
        (case literalParts pathStrCtx of
           (pfx, pathString, sfx) \<Rightarrow>
             if keptOriginal keep pathString then text
             else rewriteForDirs rt hostDir originName pathStrCtx pfx pathString sfx
                    asNewNames text))"

text \<open>One base name: the literals are matched once, then handled one after the other.\<close>

definition rewriteForName ::
  "Runtime \<Rightarrow> keep_option option \<Rightarrow> string \<Rightarrow> string \<Rightarrow> (string \<times> NamedEntry dict) \<Rightarrow> string" where
  "rewriteForName rt keep hostDir text named =
     foldl (rewriteLiteral rt keep hostDir (fst named) (snd named)) text
       (matchClue rt (fst named) text)"

definition rewriteBody ::
  "Runtime \<Rightarrow> keep_option option \<Rightarrow> NamedAs \<Rightarrow> string \<Rightarrow> string option \<Rightarrow> string \<Rightarrow> string" where
  "rewriteBody rt keep named p out body =
     (let hostDir = path_relative (cwd rt)
                      (case out of None \<Rightarrow> ''.'' | Some d \<Rightarrow> if d = [] then ''.'' else d)
                      (dir (path_parse p))
      in foldl (rewriteForName rt keep hostDir) body named)"

text \<open>\<open>Bun.write(name, body, { createPath: true })\<close>.\<close>

definition bunWrite :: "string \<Rightarrow> Content \<Rightarrow> BuildState \<Rightarrow> BuildState" where
  "bunWrite p body st = st\<lparr> written := written st @ [(p, body)], onDisk := insert p (onDisk st) \<rparr>"

text \<open>
  What \<open>save\<close> hands to \<open>Bun.write\<close>: the body as it is when \<open>keepOriginalPaths\<close> is
  \<open>true\<close> or the body is not a string, the body with its path literals rewritten
  otherwise.
\<close>

definition bodyToWrite ::
  "Runtime \<Rightarrow> BunPluginHTMLOptions option \<Rightarrow> NamedAs \<Rightarrow> string \<Rightarrow> string option \<Rightarrow> Content
     \<Rightarrow> Content" where
  "bodyToWrite rt options named p out body =
     (case body of
        Blob f \<Rightarrow> body
      | Text t \<Rightarrow>
          if keepOriginalPathsOf options = Some (KeepBool True) then body
          else Text (rewriteBody rt (keepOriginalPathsOf options) named p out t))"

text \<open>
  \<open>save\<close>: nothing happens for a path that is already in \<open>_pathSaved\<close>; otherwise the path
  is entered there and the body is written.
\<close>

definition save ::
  "Runtime \<Rightarrow> BunPluginHTMLOptions option \<Rightarrow> string \<Rightarrow> Content \<Rightarrow> string option \<Rightarrow> BuildState
     \<Rightarrow> BuildState" where
  "save rt options p body out st =
     (if isSaved (pathSaved st) p then st
      else bunWrite p (bodyToWrite rt options (namedAs st) p out body)
             (st\<lparr> pathSaved := p # pathSaved st \<rparr>))"

text \<open>A sequence of calls of \<open>save\<close>, each with its path, body and output directory.\<close>

definition saveCalls ::
  "Runtime \<Rightarrow> BunPluginHTMLOptions option \<Rightarrow> (string \<times> Content \<times> string option) list
     \<Rightarrow> BuildState \<Rightarrow> BuildState" where
  "saveCalls rt options calls st =
     foldl (\<lambda>s c. save rt options (fst c) (fst (snd c)) (snd (snd c)) s) st calls"

subsection \<open>The pattern \<open>clue\<close> on base names without metacharacters\<close>

text \<open>
  \<open>save\<close> builds the pattern
  \<^verbatim>\<open>(['"])([^'"\n]*\/)?NAME([?#][^'"]*)?\1|\(([^\)\n'"]+\/)?NAME([?#][^'"\)]*)?\)\<close>
  from a base name, escaping its dots only. For a base name in which no other character
  means anything to the regular expression engine (and which has no quote and no closing
  parenthesis), a match at a position is a quote, a run without quotes and the same quote
  again, or an opening parenthesis, a run without quotes and closing parentheses and a
  closing parenthesis, where the run is an optional directory part ending in a slash, the
  base name, and an optional part starting with \<open>?\<close> or \<open>#\<close>. \<open>clueMatch\<close> computes the
  list of matches of the global search for such names.
\<close>

definition isQuote :: "char \<Rightarrow> bool" where
  "isQuote c = (c = CHR 0x27 \<or> c = CHR 0x22)"

definition quotedDir :: "string \<Rightarrow> bool" where
  "quotedDir d = (d = [] \<or> (last d = CHR ''/'' \<and> CHR 0x0A \<notin> set d))"

definition parenDir :: "string \<Rightarrow> bool" where
  "parenDir d = (d = [] \<or> (length d \<ge> 2 \<and> last d = CHR ''/'' \<and> CHR 0x0A \<notin> set d))"

definition extraTail :: "string \<Rightarrow> bool" where
  "extraTail t = (t = [] \<or> hd t = CHR ''?'' \<or> hd t = CHR ''#'')"

text \<open>Is the run a directory part, the name and a tail? \<open>passed\<close>: the run so far, reversed.\<close>

fun nameInRun :: "(string \<Rightarrow> bool) \<Rightarrow> string \<Rightarrow> string \<Rightarrow> string \<Rightarrow> bool" where
  "nameInRun dirOk nm passed [] = (nm = [] \<and> dirOk (rev passed))"
| "nameInRun dirOk nm passed (c # cs) =
     ((prefix nm (c # cs) \<and> dirOk (rev passed) \<and> extraTail (drop (length nm) (c # cs)))
      \<or> nameInRun dirOk nm (c # passed) cs)"

text \<open>The length of the match that starts at the head of the text, if there is one.\<close>

definition clueMatchAt :: "string \<Rightarrow> string \<Rightarrow> nat option" where
  "clueMatchAt nm s =
     (case s of
        [] \<Rightarrow> None
      | c # cs \<Rightarrow>
          if isQuote c then
            (let run = takeWhile (\<lambda>x. \<not> isQuote x) cs
             in if prefix [c] (drop (length run) cs) \<and> nameInRun quotedDir nm [] run
                then Some (length run + 2) else None)
          else if c = CHR ''('' then
            (let run = takeWhile (\<lambda>x. x \<noteq> CHR '')'') cs
             in if prefix '')'' (drop (length run) cs) \<and> list_all (\<lambda>x. \<not> isQuote x) run
                   \<and> nameInRun parenDir nm [] run
                then Some (length run + 2) else None)
          else None)"

text \<open>The global search; the first argument counts the characters of a match still to skip.\<close>

fun clueMatchFrom :: "nat \<Rightarrow> string \<Rightarrow> string \<Rightarrow> string list" where
  "clueMatchFrom k nm [] = []"
| "clueMatchFrom (Suc k) nm (c # cs) = clueMatchFrom k nm cs"
| "clueMatchFrom 0 nm (c # cs) =
     (case clueMatchAt nm (c # cs) of
        Some n \<Rightarrow> take n (c # cs) # clueMatchFrom (n - 1) nm cs
      | None \<Rightarrow> clueMatchFrom 0 nm cs)"

definition clueMatch :: "string \<Rightarrow> string \<Rightarrow> string list" where
  "clueMatch originName text = clueMatchFrom 0 originName text"

subsection \<open>A runtime to run the model on\<close>

text \<open>
  Modelled from the spec: \<open>isURL\<close> of \<open>./utils\<close> is not among the sources. The
  specification says that absolute URLs, those qualified by a scheme, are skipped: a
  letter, then letters, digits, \<open>+\<close>, \<open>-\<close> or \<open>.\<close>, then a colon.
\<close>

definition isLetter :: "char \<Rightarrow> bool" where
  "isLetter c = ((of_char c \<ge> (65::nat) \<and> of_char c \<le> (90::nat))
                 \<or> (of_char c \<ge> (97::nat) \<and> of_char c \<le> (122::nat)))"

definition isSchemeChar :: "char \<Rightarrow> bool" where
  "isSchemeChar c = (isLetter c \<or> isDigit c \<or> c = CHR ''+'' \<or> c = CHR ''-'' \<or> c = CHR ''.'')"

definition isURLSpec :: "string \<Rightarrow> bool" where
  "isURLSpec s =
     (case s of
        [] \<Rightarrow> False
      | c # cs \<Rightarrow> isLetter c \<and> prefix '':'' (dropWhile isSchemeChar cs))"

text \<open>
  Modelled from the spec: \<open>contentToString\<close>, \<open>attributeToSelector\<close>,
  \<open>changeFileExtension\<close>, \<open>findLastCommonPath\<close> and \<open>removeCommonPath\<close> of \<open>./utils\<close> are
  not among the sources. In-memory text is itself, the text of a file handle is the text
  of the file (\<open>exampleText\<close>: the one document of the examples; the other files are
  taken to be empty); the selector of an attribute is the attribute selector for its name
  and value; changing the extension of a path replaces
  the extension that \<open>path.parse\<close> finds; the common path of a list of paths is the
  directory made of the leading segments that all their directories share; removing the
  common path from a path that starts with it leaves the rest behind \<open>.\<close>.
\<close>

definition exampleText :: "BunFile \<Rightarrow> string" where
  "exampleText f =
     (if fileName f = ''/work/src/index.html''
      then ''<script type=module src=./app.js></script><img src=./logo.png>''
      else [])"

definition contentToStringSpec :: "Content option \<Rightarrow> string" where
  "contentToStringSpec c =
     (case c of Some (Text t) \<Rightarrow> t | Some (Blob f) \<Rightarrow> exampleText f | None \<Rightarrow> [])"

definition attributeToSelectorSpec :: "Attribute \<Rightarrow> string" where
  "attributeToSelectorSpec a =
     ''['' @ attrName a @ ''='' @ [CHR 0x22] @ attrValue a @ [CHR 0x22] @ '']''"

definition changeFileExtensionSpec :: "string \<Rightarrow> string \<Rightarrow> string" where
  "changeFileExtensionSpec p e = take (length p - length (ext (path_parse p))) p @ e"

fun commonSegments :: "string list \<Rightarrow> string list \<Rightarrow> string list" where
  "commonSegments (x # xs) (y # ys) = (if x = y then x # commonSegments xs ys else [])"
| "commonSegments xs ys = []"

definition findLastCommonPathSpec :: "string list \<Rightarrow> string" where
  "findLastCommonPathSpec paths =
     (case map (\<lambda>p. splitOn CHR ''/'' (path_dirname p)) paths of
        [] \<Rightarrow> []
      | d # ds \<Rightarrow> joinWith ''/'' (foldl commonSegments d ds))"

definition removeCommonPathSpec :: "string \<Rightarrow> string \<Rightarrow> string" where
  "removeCommonPathSpec p common = (if prefix common p then ''.'' @ drop (length common) p else p)"

text \<open>
  \<open>plainRuntime\<close> runs in \<open>/work\<close>; its HTML rewriter, minifier and SASS compiler leave
  the text as it is, its void elements are those of the HTML standard, the text of a file is its \<open>exampleText\<close>, every hash is \<open>00000000\<close>,
  the diagnostics put every occurrence on line 1, column 0, and a number is shown as
  \<open>1\<close>. The theorems hold for every runtime; this one serves to run them on inputs.
\<close>

definition voidElements :: "string list" where
  "voidElements = [''area'', ''base'', ''br'', ''col'', ''embed'', ''hr'', ''img'', ''input'',
     ''link'', ''meta'', ''source'', ''track'', ''wbr'']"

definition plainRuntime :: Runtime where
  "plainRuntime = \<lparr> cwd = ''/work'', isURL = isURLSpec, contentToString = contentToStringSpec,
     attributeToSelector = attributeToSelectorSpec, changeFileExtension = changeFileExtensionSpec,
     findLastCommonPath = findLastCommonPathSpec, removeCommonPath = removeCommonPathSpec,
     returnLineNumberOfOccurance = (\<lambda>fileText search. 1), getColumnNumber = (\<lambda>fileText i. 0),
     getLines = (\<lambda>fileText amount e. fileText),
     matchClue = clueMatch,
     transform = (\<lambda>rules fileLocation html. html),
     voidElement = (\<lambda>tag. arrayIncludes voidElements tag), minifyHtml = (\<lambda>html. html),
     sassCompile = (\<lambda>source. source), readText = exampleText,
     hashOfFile = (\<lambda>f. ''00000000''), hashOfText = (\<lambda>t. ''00000000''),
     numberToString = (\<lambda>n. ''1'') \<rparr>"

subsection \<open>\<open>setup\<close>: writing the files\<close>

text \<open>\<open>!details.content\<close>: no content, or the empty text.\<close>

definition falsyContent :: "Content option \<Rightarrow> bool" where
  "falsyContent c = (case c of None \<Rightarrow> True | Some (Text t) \<Rightarrow> t = [] | Some (Blob f) \<Rightarrow> False)"

text \<open>\<open>name.indexOf(details.hash) > -1 && (await fs.exists(name))\<close>.\<close>

definition alreadyThere :: "string \<Rightarrow> string \<Rightarrow> BuildState \<Rightarrow> bool" where
  "alreadyThere p hashStr st = (sublist hashStr p \<and> p \<in> onDisk st)"

text \<open>
  The body of the first loop, over the files that are not entry points: a file without a
  name or content and a file already there is passed over; any other is saved, and if it
  has an attribute a rule is registered that sets the attribute to the path of the output.
\<close>

definition pathRule :: "Runtime \<Rightarrow> BunPluginHTMLOptions option \<Rightarrow> File \<Rightarrow> Attribute \<Rightarrow> Rule" where
  "pathRule rt options f a =
     SetAttribute (attributeToSelector rt a) a (fst f) (ext (path_parse (fileName (fst f))))
       (buildExtensions options)"

definition writeOther ::
  "Runtime \<Rightarrow> BunPluginHTMLOptions option \<Rightarrow> BuildConfig \<Rightarrow> File
     \<Rightarrow> BuildState \<times> Rule list \<Rightarrow> BuildState \<times> Rule list" where
  "writeOther rt options config f acc =
     (if fileName (fst f) = [] \<or> falsyContent (content (snd f)) then acc
      else if alreadyThere (fileName (fst f)) (hash (snd f)) (fst acc) then acc
      else
        let st' = (case content (snd f) of
                     Some body \<Rightarrow> save rt options (fileName (fst f)) body (outdir config) (fst acc)
                   | None \<Rightarrow> fst acc)
        in case attribute (snd f) of
             None \<Rightarrow> (st', snd acc)
           | Some a \<Rightarrow> (st', snd acc @ [pathRule rt options f a]))"

fun writeOthers ::
  "Runtime \<Rightarrow> BunPluginHTMLOptions option \<Rightarrow> BuildConfig \<Rightarrow> File list
     \<Rightarrow> BuildState \<times> Rule list \<Rightarrow> BuildState \<times> Rule list" where
  "writeOthers rt options config [] acc = acc"
| "writeOthers rt options config (f # files) acc =
     writeOthers rt options config files (writeOther rt options config f acc)"

text \<open>
  The body of the second loop, over the entry points: the markup pass with all the rules
  and the minifier if asked for (\<open>entryContents\<close>), then the tests on the name and on
  the file being there already, and \<open>save\<close>.
\<close>

definition htmlOptions :: "BunPluginHTMLOptions option \<Rightarrow> HtmlMinifyOptions" where
  "htmlOptions options =
     (case options of
        None \<Rightarrow> defaultMinifyOptions
      | Some opts \<Rightarrow> (case minifyOptions opts of None \<Rightarrow> defaultMinifyOptions | Some m \<Rightarrow> m))"

definition entryContents ::
  "Runtime \<Rightarrow> BunPluginHTMLOptions option \<Rightarrow> BuildConfig \<Rightarrow> Rule list \<Rightarrow> File \<Rightarrow> string" where
  "entryContents rt options config rules f =
     (let fileContents = transform rt rules (fileName (fst f))
                           (contentToString rt (content (snd f)))
      in if minify config \<and> minifyHTML (htmlOptions options) = Some True
         then minifyHtml rt fileContents else fileContents)"

definition writeEntry ::
  "Runtime \<Rightarrow> BunPluginHTMLOptions option \<Rightarrow> BuildConfig \<Rightarrow> Rule list \<Rightarrow> File
     \<Rightarrow> BuildState \<Rightarrow> BuildState" where
  "writeEntry rt options config rules f st =
     (if fileName (fst f) = [] then st
      else if alreadyThere (fileName (fst f)) (hash (snd f)) st then st
      else save rt options (fileName (fst f)) (Text (entryContents rt options config rules f))
             (outdir config) st)"

fun writeEntries ::
  "Runtime \<Rightarrow> BunPluginHTMLOptions option \<Rightarrow> BuildConfig \<Rightarrow> Rule list \<Rightarrow> File list
     \<Rightarrow> BuildState \<Rightarrow> BuildState" where
  "writeEntries rt options config rules [] st = st"
| "writeEntries rt options config rules (f # files) st =
     writeEntries rt options config rules files (writeEntry rt options config rules f st)"

text \<open>Both loops, as \<open>setup\<close> runs them on \<open>newFiles\<close> and the rules of \<open>processHtmlFiles\<close>.\<close>

definition writeFiles ::
  "Runtime \<Rightarrow> BunPluginHTMLOptions option \<Rightarrow> BuildConfig \<Rightarrow> Rule list \<Rightarrow> File list
     \<Rightarrow> BuildState \<Rightarrow> BuildState" where
  "writeFiles rt options config attributesToChange newFiles st =
     (let r = writeOthers rt options config
                (filter (\<lambda>f. kind (snd f) \<noteq> EntryPoint) newFiles) (st, attributesToChange)
      in writeEntries rt options config (snd r)
           (filter (\<lambda>f. kind (snd f) = EntryPoint) newFiles) (fst r))"

subsection \<open>Elements of the HTML rewriter\<close>

record Element =
  tagName :: string
  attributes :: "(string \<times> string) list"
  innerContent :: string

definition getAttribute :: "Element \<Rightarrow> string \<Rightarrow> string option" where
  "getAttribute el a = map_of (attributes el) a"

definition removeAttribute :: "string \<Rightarrow> Element \<Rightarrow> Element" where
  "removeAttribute a el = el\<lparr> attributes := filter (\<lambda>kv. fst kv \<noteq> a) (attributes el) \<rparr>"

definition setAttribute :: "string \<Rightarrow> string \<Rightarrow> Element \<Rightarrow> Element" where
  "setAttribute a v el =
     el\<lparr> attributes :=
          (if getAttribute el a = None then attributes el @ [(a, v)]
           else map (\<lambda>kv. if fst kv = a then (a, v) else kv) (attributes el)) \<rparr>"

text \<open>\<open>el.setInnerContent(content)\<close>: a void element has no content, and is left as it is.\<close>

definition setInnerContent :: "Runtime \<Rightarrow> string \<Rightarrow> Element \<Rightarrow> Element" where
  "setInnerContent rt c el = (if voidElement rt (tagName el) then el else el\<lparr> innerContent := c \<rparr>)"

text \<open>What a handler leaves of an element: the element, or the markup put in its place.\<close>

datatype Rewritten = Kept Element | Replaced string

subsection \<open>\<open>getAllFiles\<close>: the element handler\<close>

datatype LogEvent = ConsoleLog string | ConsoleError string

text \<open>The first of \<open>attributesToSearch\<close> that the element has, with its value.\<close>

fun findAttribute :: "Element \<Rightarrow> string list \<Rightarrow> (string \<times> string) option" where
  "findAttribute el [] = None"
| "findAttribute el (a # others) =
     (case getAttribute el a of Some v \<Rightarrow> Some (a, v) | None \<Rightarrow> findAttribute el others)"

text \<open>\<open>options?.excludeExtensions?.includes(extension)\<close>.\<close>

definition extensionExcluded :: "BunPluginHTMLOptions option \<Rightarrow> string \<Rightarrow> bool" where
  "extensionExcluded options extension =
     (case options of
        None \<Rightarrow> False
      | Some opts \<Rightarrow>
          (case excludeExtensions opts of None \<Rightarrow> False | Some exts \<Rightarrow> arrayIncludes exts extension))"

definition errorsSuppressed :: "BunPluginHTMLOptions option \<Rightarrow> bool" where
  "errorsSuppressed options =
     (case options of None \<Rightarrow> False | Some opts \<Rightarrow> suppressErrors opts = Some True)"

text \<open>\<open>'^'.padStart(columnNumber)\<close>: the caret, padded with spaces to the length given.\<close>

definition caretLine :: "rat \<Rightarrow> string" where
  "caretLine columnNumber = replicate (nat \<lfloor>columnNumber\<rfloor> - 1) CHR '' '' @ ''^''"

text \<open>
  The four lines of the diagnostic for a reference that does not exist: the excerpt, the
  caret, the message with tag, attribute name and value, and the position.
  (\<open>fileText.replace(/\t/g, '\t')\<close>, which comes first, leaves the text as it is.)
\<close>

definition missingDiagnostic ::
  "Runtime \<Rightarrow> string \<Rightarrow> string \<Rightarrow> Element \<Rightarrow> string \<Rightarrow> string \<Rightarrow> LogEvent list" where
  "missingDiagnostic rt fileText filePath el attributeName attributeValue =
     (let search = attributeName @ ''='' @ [CHR 0x22] @ attributeValue @ [CHR 0x22];
          line = returnLineNumberOfOccurance rt fileText search;
          indexOfSearch = (case find (\<lambda>i. prefix search (drop i fileText)) [0..<Suc (length fileText)] of
                             Some i \<Rightarrow> rat_of_nat i | None \<Rightarrow> - 1);
          columnNumber = getColumnNumber rt fileText (indexOfSearch + rat_of_nat (length search) / 2)
                           + rat_of_nat (length (numberToString rt line)) + 1
      in [ConsoleLog (getLines rt fileText 4 (line + 1)),
          ConsoleLog (caretLine columnNumber),
          ConsoleError (''bun-plugin-html - HTMLParseError: Specified <'' @ tagName el @ ''> ''
                          @ attributeName @ '' '' @ [CHR 0x27] @ attributeValue @ [CHR 0x27]
                          @ '' does not exist!''),
          ConsoleLog ([CHR 0x09] @ ''  at '' @ filePath @ '':'' @ numberToString rt line @ '':''
                        @ numberToString rt columnNumber)])"

text \<open>
  What \<open>getAllFiles\<close> has collected: the files, and what was written to the console.
\<close>

record Extraction =
  files :: "File list"
  console :: "LogEvent list"

text \<open>
  The handler: an element without one of the attributes, with an empty value or with a URL
  is passed over, and so is a reference with an excluded extension; a reference to a file
  that does not exist is reported unless errors are suppressed, and dropped; any other
  reference is added to the files as a chunk.
\<close>

definition elementHandler ::
  "Runtime \<Rightarrow> BunPluginHTMLOptions option \<Rightarrow> string \<Rightarrow> string \<Rightarrow> string set \<Rightarrow> Element
     \<Rightarrow> Extraction \<Rightarrow> Extraction" where
  "elementHandler rt options filePath fileText disk el ex =
     (case findAttribute el attributesToSearch of
        None \<Rightarrow> ex
      | Some (attributeName, attributeValue) \<Rightarrow>
          if attributeName = [] \<or> attributeValue = [] \<or> isURL rt attributeValue then ex
          else
            let resolvedPath = path_resolve (cwd rt) [path_dirname filePath, attributeValue];
                extension = ext (path_parse resolvedPath)
            in if extensionExcluded options extension then ex
               else if resolvedPath \<notin> disk
               then (if errorsSuppressed options then ex
                     else ex\<lparr> console := console ex
                            @ missingDiagnostic rt fileText filePath el attributeName attributeValue \<rparr>)
               else ex\<lparr> files := files ex @
                      [(BunFile resolvedPath,
                        \<lparr> kind = Chunk, attribute = Some (Attribute attributeName attributeValue),
                          hash = hashOfText rt fileText, originalPath = Some resolvedPath,
                          htmlImporter = path_resolve (cwd rt) [filePath], content = None \<rparr>)] \<rparr>)"

text \<open>
  \<open>getAllFiles\<close>: nothing for a path that is not an HTML file; otherwise the entry itself,
  then the handler on every element that the selector built from \<open>excluded\<close> lets through
  (\<open>elements\<close>: the elements of the document in their order, \<open>matches\<close>: what the rewriter
  takes for a match of one selector).
\<close>

definition getAllFiles ::
  "Runtime \<Rightarrow> BunPluginHTMLOptions option \<Rightarrow> string \<Rightarrow> string list \<Rightarrow> (string \<Rightarrow> Element \<Rightarrow> bool)
     \<Rightarrow> string \<Rightarrow> string set \<Rightarrow> Element list \<Rightarrow> Extraction" where
  "getAllFiles rt options filePath excl matches fileText disk elements =
     (if ext (path_parse filePath) \<noteq> ''.htm'' \<and> ext (path_parse filePath) \<noteq> ''.html''
      then \<lparr> files = [], console = [] \<rparr>
      else
        foldl (\<lambda>ex el. elementHandler rt options filePath fileText disk el ex)
          \<lparr> files = [(BunFile (path_resolve (cwd rt) [filePath]),
                       \<lparr> kind = EntryPoint, attribute = None, hash = hashOfText rt fileText,
                         originalPath = Some (path_resolve (cwd rt) [filePath]),
                         htmlImporter = path_resolve (cwd rt) [filePath], content = None \<rparr>)],
             console = [] \<rparr>
          (filter (scanned matches excl) elements))"

subsection \<open>\<open>processHtmlFiles\<close>\<close>

definition getExtensionFiles :: "File list \<Rightarrow> string list \<Rightarrow> File list" where
  "getExtensionFiles graph extensions =
     filter (\<lambda>f. fileName (fst f) \<noteq> [] \<and> arrayIncludes extensions (ext (path_parse (fileName (fst f)))))
       graph"

text \<open>
  \<open>options && (options.inline === true || (typeof options.inline === 'object' &&
  options.inline?.css === true))\<close>, and the same for \<open>js\<close>.
\<close>

definition inlineCss :: "BunPluginHTMLOptions option \<Rightarrow> bool" where
  "inlineCss options =
     (case options of
        None \<Rightarrow> False
      | Some opts \<Rightarrow>
          (case inline opts of
             Some (InlineBool b) \<Rightarrow> b
           | Some (InlineKinds css js) \<Rightarrow> css = Some True
           | None \<Rightarrow> False))"

definition inlineJs :: "BunPluginHTMLOptions option \<Rightarrow> bool" where
  "inlineJs options =
     (case options of
        None \<Rightarrow> False
      | Some opts \<Rightarrow>
          (case inline opts of
             Some (InlineBool b) \<Rightarrow> b
           | Some (InlineKinds css js) \<Rightarrow> js = Some True
           | None \<Rightarrow> False))"

text \<open>
  One entry of the graph in the inner loop: \<open>None\<close> for the entry when it is deleted, the
  entry (updated or not) otherwise, and the rules pushed. Only an entry with an attribute
  and a name is looked at: a style file is deleted and gets an inlining rule when styles
  are inlined, a file with a build extension when scripts are inlined; any other file
  that is neither becomes an asset with the hash of its bytes.
\<close>

definition processEntry ::
  "Runtime \<Rightarrow> BunPluginHTMLOptions option \<Rightarrow> string list \<Rightarrow> File \<Rightarrow> File option \<times> Rule list" where
  "processEntry rt options buildExts f =
     (case attribute (snd f) of
        None \<Rightarrow> (Some f, [])
      | Some a \<Rightarrow>
          if fileName (fst f) = [] then (Some f, [])
          else
            let extension = ext (path_parse (fileName (fst f)))
            in if isStyleExtension extension
               then (if inlineCss options
                     then (None, [InlineStyle (attributeToSelector rt a) (fst f) (snd f) extension])
                     else (Some f, []))
               else if arrayIncludes buildExts extension
               then (if inlineJs options
                     then (None, [InlineScript (attributeToSelector rt a) (fst f) (snd f)])
                     else (Some f, []))
               else (Some (fst f, (snd f)\<lparr> hash := hashOfFile rt (fst f), kind := Asset \<rparr>), []))"

text \<open>One run of the inner loop over the graph, in the order of the map.\<close>

fun processPass ::
  "Runtime \<Rightarrow> BunPluginHTMLOptions option \<Rightarrow> string list \<Rightarrow> File list \<Rightarrow> File list \<times> Rule list" where
  "processPass rt options buildExts [] = ([], [])"
| "processPass rt options buildExts (f # graph) =
     (case processEntry rt options buildExts f of
        (kept, pushed) \<Rightarrow>
          (case processPass rt options buildExts graph of
             (graph', rules) \<Rightarrow>
               ((case kept of None \<Rightarrow> graph' | Some g \<Rightarrow> g # graph'), pushed @ rules)))"

text \<open>The inner loop runs once for every HTML file that the graph holds at the start.\<close>

fun processTimes ::
  "nat \<Rightarrow> Runtime \<Rightarrow> BunPluginHTMLOptions option \<Rightarrow> string list \<Rightarrow> File list \<times> Rule list
     \<Rightarrow> File list \<times> Rule list" where
  "processTimes 0 rt options buildExts acc = acc"
| "processTimes (Suc n) rt options buildExts acc =
     processTimes n rt options buildExts
       (case processPass rt options buildExts (fst acc) of
          (graph', rules) \<Rightarrow> (graph', snd acc @ rules))"

definition processHtmlFiles ::
  "Runtime \<Rightarrow> BunPluginHTMLOptions option \<Rightarrow> string list \<Rightarrow> File list \<Rightarrow> File list \<times> Rule list" where
  "processHtmlFiles rt options buildExts graph =
     processTimes (length (getExtensionFiles graph [''.html'', ''.htm''])) rt options buildExts
       (graph, [])"

subsection \<open>What a rule does to an element\<close>

text \<open>
  \<open>content.replaceAll(/(<)(\/script>)/g, '\\x3C$2')\<close>: every \<open></script>\<close> becomes a
  backslash, \<open>x3C\<close> and \<open>/script>\<close>.
\<close>

definition escapeScript :: "string \<Rightarrow> string" where
  "escapeScript c = replaceAll c ''</script>'' (CHR 0x5C # ''x3C/script>'')"

text \<open>
  The inlining rule for a style replaces the element by a \<open>style\<close> element around the
  text (compiled again when the extension is \<open>scss\<close> or \<open>sass\<close>); the one for a script
  removes the attribute \<open>src\<close> and sets the inner content to the escaped text; a path rule
  sets the attribute, if the element has it, to the path of the output relative to the
  directory of the document, with the extension \<open>.js\<close> for a build extension.
\<close>

definition styleText :: "Runtime \<Rightarrow> BunFile \<Rightarrow> FileDetails \<Rightarrow> string \<Rightarrow> string" where
  "styleText rt file details extension =
     (let viaContent = contentToString rt (content details);
          c = (if viaContent \<noteq> [] then viaContent else readText rt file)
      in if isSassExtension extension then sassCompile rt c else c)"

definition scriptText :: "Runtime \<Rightarrow> BunFile \<Rightarrow> FileDetails \<Rightarrow> string" where
  "scriptText rt file details =
     (case content details of
        None \<Rightarrow> readText rt file
      | Some body \<Rightarrow> contentToString rt (Some body))"

definition applyRule :: "Runtime \<Rightarrow> Rule \<Rightarrow> string \<Rightarrow> Element \<Rightarrow> Rewritten" where
  "applyRule rt rule fileLocation el =
     (case rule of
        InlineStyle selector file details extension \<Rightarrow>
          Replaced (''<style>'' @ styleText rt file details extension @ ''</style>'')
      | InlineScript selector file details \<Rightarrow>
          Kept (setInnerContent rt (escapeScript (scriptText rt file details))
                  (removeAttribute ''src'' el))
      | SetAttribute selector a file extension buildExts \<Rightarrow>
          if getAttribute el (attrName a) = None \<or> fileName file = [] then Kept el
          else
            let filePath = path_relative (cwd rt) (path_dirname fileLocation) (fileName file)
            in Kept (setAttribute (attrName a)
                       (if arrayIncludes buildExts extension
                        then changeFileExtension rt filePath ''.js'' else filePath) el))"

text \<open>
  The entries of the graph that \<open>processHtmlFiles\<close> inlines, and the rule it pushes for one.
\<close>

definition isInlined :: "BunPluginHTMLOptions option \<Rightarrow> string list \<Rightarrow> File \<Rightarrow> bool" where
  "isInlined options buildExts f =
     (attribute (snd f) \<noteq> None \<and> fileName (fst f) \<noteq> []
      \<and> (if isStyleExtension (ext (path_parse (fileName (fst f)))) then inlineCss options
         else arrayIncludes buildExts (ext (path_parse (fileName (fst f)))) \<and> inlineJs options))"

definition inlineRule :: "Runtime \<Rightarrow> File \<Rightarrow> Rule" where
  "inlineRule rt f =
     (let selector = (case attribute (snd f) of None \<Rightarrow> [] | Some a \<Rightarrow> attributeToSelector rt a);
          extension = ext (path_parse (fileName (fst f)))
      in if isStyleExtension extension then InlineStyle selector (fst f) (snd f) extension
         else InlineScript selector (fst f) (snd f))"

subsection \<open>\<open>setup\<close>: from the graph to the new files\<close>

text \<open>\<open>build.config.outdir\<close>, when set and not empty, is what the path is resolved against.\<close>

definition inOutdir :: "Runtime \<Rightarrow> BuildConfig \<Rightarrow> string \<Rightarrow> string" where
  "inOutdir rt config filePath =
     (case outdir config of
        None \<Rightarrow> filePath
      | Some d \<Rightarrow> if d = [] then filePath else path_resolve (cwd rt) [d, filePath])"

text \<open>\<open>details.content ?? file\<close>.\<close>

definition contentOrFile :: "File \<Rightarrow> Content" where
  "contentOrFile f = (case content (snd f) of None \<Rightarrow> Blob (fst f) | Some c \<Rightarrow> c)"

text \<open>
  The body of the loop over the graph: \<open>None\<close> when nothing is pushed on \<open>newFiles\<close>.
  A file with a build extension keeps the path the bundler gave it, relative to the common
  path, and \<open>keepNamedAs\<close> records it under its original path if it has one; any other
  file goes through \<open>renameFile\<close>. The details pushed are those of the graph, with the
  content filled in.
\<close>

definition newFileFor ::
  "Runtime \<Rightarrow> BunPluginHTMLOptions option \<Rightarrow> BuildConfig \<Rightarrow> string \<Rightarrow> File \<Rightarrow> NamedAs
     \<Rightarrow> File option \<times> NamedAs" where
  "newFileFor rt options config commonPath f named =
     (if fileName (fst f) = [] then (None, named)
      else if arrayIncludes (buildExtensions options) (ext (path_parse (fileName (fst f))))
      then
        (let filePath = removeCommonPath rt (fileName (fst f)) commonPath;
             kept = (case originalPath (snd f) of
                       None \<Rightarrow> (None, named)
                     | Some original \<Rightarrow>
                         if original = [] then (None, named)
                         else keepNamedAs (path_parse (removeCommonPath rt original commonPath))
                                (path_parse filePath) (inOutdir rt config filePath) named)
         in (Some ((case fst kept of
                      None \<Rightarrow> BunFile (inOutdir rt config filePath)
                    | Some recorded \<Rightarrow> fd recorded),
                   (snd f)\<lparr> content := Some (contentOrFile f) \<rparr>),
             snd kept))
      else
        (let renamed = renameFile rt options config (fst f) (hash (snd f)) (kind (snd f))
                         commonPath named
         in if fileName (fst renamed) = [] then (None, snd renamed)
            else (Some (BunFile (inOutdir rt config
                                   (removeCommonPath rt (fileName (fst renamed)) commonPath)),
                        (snd f)\<lparr> content := Some (contentOrFile f) \<rparr>),
                  snd renamed)))"

fun buildNewFiles ::
  "Runtime \<Rightarrow> BunPluginHTMLOptions option \<Rightarrow> BuildConfig \<Rightarrow> string \<Rightarrow> File list \<Rightarrow> NamedAs
     \<Rightarrow> File list \<times> NamedAs" where
  "buildNewFiles rt options config commonPath [] named = ([], named)"
| "buildNewFiles rt options config commonPath (f # graph) named =
     (let r = newFileFor rt options config commonPath f named;
          rest = buildNewFiles rt options config commonPath graph (snd r)
      in ((case fst r of None \<Rightarrow> fst rest | Some n \<Rightarrow> n # fst rest), snd rest))"

text \<open>The new files of \<open>setup\<close> for a graph, as \<open>processHtmlFiles\<close> leaves it.\<close>

definition newFilesOf ::
  "Runtime \<Rightarrow> BunPluginHTMLOptions option \<Rightarrow> BuildConfig \<Rightarrow> File list \<Rightarrow> NamedAs \<Rightarrow> File list" where
  "newFilesOf rt options config graph named =
     (let processed = processHtmlFiles rt options (buildExtensions options) graph;
          commonPath = findLastCommonPath rt (map (\<lambda>f. fileName (fst f)) (fst processed))
      in fst (buildNewFiles rt options config commonPath (fst processed) named))"

text \<open>
  \<open>setup\<close> from \<open>processHtmlFiles\<close> on, for the graph as the compilation of scripts and
  styles has left it: the rules and the graph of \<open>processHtmlFiles\<close>, the common path of
  the names in the graph, the new files, and the two write loops.
\<close>

definition finishSetup ::
  "Runtime \<Rightarrow> BunPluginHTMLOptions option \<Rightarrow> BuildConfig \<Rightarrow> File list \<Rightarrow> BuildState
     \<Rightarrow> BuildState" where
  "finishSetup rt options config graph st =
     (let processed = processHtmlFiles rt options (buildExtensions options) graph;
          commonPath = findLastCommonPath rt (map (\<lambda>f. fileName (fst f)) (fst processed));
          built = buildNewFiles rt options config commonPath (fst processed) (namedAs st)
      in writeFiles rt options config (snd processed) (fst built) (st\<lparr> namedAs := snd built \<rparr>))"

text \<open>
  A build by a new plugin instance (\<open>_namedAs\<close> and \<open>_pathSaved\<close> are empty) on a disk, and
  a rebuild: the same graph (the sources have not changed) built again by a new plugin
  instance on the disk as the build before has left it.
\<close>

definition buildOn ::
  "Runtime \<Rightarrow> BunPluginHTMLOptions option \<Rightarrow> BuildConfig \<Rightarrow> File list \<Rightarrow> string set
     \<Rightarrow> BuildState" where
  "buildOn rt options config graph disk =
     finishSetup rt options config graph (freshState\<lparr> onDisk := disk \<rparr>)"

definition rebuild ::
  "Runtime \<Rightarrow> BunPluginHTMLOptions option \<Rightarrow> BuildConfig \<Rightarrow> File list \<Rightarrow> string set
     \<Rightarrow> BuildState" where
  "rebuild rt options config graph disk =
     buildOn rt options config graph (onDisk (buildOn rt options config graph disk))"

subsection \<open>Relations between states of a build\<close>

text \<open>
  The ledger \<open>_pathSaved\<close> covers the writes: no path was written twice, and every path
  written is in the ledger.
\<close>

definition ledgerCovers :: "BuildState \<Rightarrow> bool" where
  "ledgerCovers st = (distinct (map fst (written st))
      \<and> list_all (\<lambda>w. isSaved (pathSaved st) (fst w)) (written st))"

text \<open>
  Two entries of the graph are the same source file: \<open>processHtmlFiles\<close> replaces the
  details of an entry (its kind), never its key, attribute, original path or content.
\<close>

definition sameSource :: "File \<Rightarrow> File \<Rightarrow> bool" where
  "sameSource g' g = (fst g' = fst g \<and> attribute (snd g') = attribute (snd g)
     \<and> originalPath (snd g') = originalPath (snd g) \<and> content (snd g') = content (snd g))"

text \<open>Every path in the ledger was written in this build and is on disk.\<close>

definition ledgerWritten :: "BuildState \<Rightarrow> bool" where
  "ledgerWritten st = (set (pathSaved st) \<subseteq> onDisk st \<inter> fst ` set (written st))"


subsection \<open>Example inputs\<close>

text \<open>
  A build with the output directory \<open>dist\<close>: an entry document and an image it refers
  to, and the same image as a second document refers to it.
\<close>

definition demoConfig :: BuildConfig where
  "demoConfig = \<lparr> naming = Some (NamingString ''[dir]/[name].[ext]''), outdir = Some ''dist'', minify = False \<rparr>"

definition demoEntry :: File where
  "demoEntry = (BunFile ''dist/index.html'',
     \<lparr> kind = EntryPoint, attribute = None, hash = ''0a1b2c3d'', originalPath = Some ''/work/src/index.html'',
       htmlImporter = ''/work/src/index.html'', content = Some (Text ''<img src=logo.png>'') \<rparr>)"

definition demoAsset :: File where
  "demoAsset = (BunFile ''dist/logo.png'',
     \<lparr> kind = Asset, attribute = Some (Attribute ''src'' ''logo.png''), hash = ''99887766'',
       originalPath = Some ''/work/src/logo.png'', htmlImporter = ''/work/src/index.html'',
       content = Some (Blob (BunFile ''/work/src/logo.png'')) \<rparr>)"

definition demoAssetAgain :: File where
  "demoAssetAgain = (BunFile ''dist/logo.png'',
     \<lparr> kind = Asset, attribute = Some (Attribute ''src'' ''./logo.png''), hash = ''99887766'',
       originalPath = Some ''/work/src/logo.png'', htmlImporter = ''/work/src/about.html'',
       content = Some (Blob (BunFile ''/work/src/logo.png'')) \<rparr>)"

text \<open>A build that names entry points and chunks as they are and adds the hash to assets.\<close>

definition kindConfig :: BuildConfig where
  "kindConfig = \<lparr> naming = Some (NamingObject (Some ''[dir]/[name].[ext]'')
       (Some ''[dir]/[name].[ext]'') (Some ''[dir]/[name]-[hash].[ext]'')),
     outdir = Some ''dist'', minify = False \<rparr>"

text \<open>A build that adds the hash to every name.\<close>

definition hashConfig :: BuildConfig where
  "hashConfig = \<lparr> naming = Some (NamingString ''[dir]/[name]-[hash].[ext]''),
     outdir = Some ''dist'', minify = False \<rparr>"

text \<open>A build with a different template for each kind, and a style override.\<close>

definition perKindConfig :: BuildConfig where
  "perKindConfig = \<lparr> naming = Some (NamingObject (Some ''pages/[name].[ext]'')
       (Some ''chunks/[name]-[hash].[ext]'') (Some ''assets/[name]-[hash].[ext]'')),
     outdir = Some ''dist'', minify = False \<rparr>"

definition cssOptions :: BunPluginHTMLOptions where
  "cssOptions = noOptions\<lparr> naming_css := Some ''css/[name].[ext]'' \<rparr>"

text \<open>Two images of the directory \<open>img\<close> that were renamed, and options that keep all paths.\<close>

definition logoEntry :: NamedEntry where
  "logoEntry = \<lparr> asPath = ''img/logo-99887766.png'',
                  fd = BunFile ''/work/dist/img/logo-99887766.png'' \<rparr>"

definition logoNamed :: NamedAs where
  "logoNamed = [(''logo.png'', [(''img'', logoEntry)]),
                (''biglogo.png'', [(''img'', \<lparr> asPath = ''img/biglogo-11223344.png'',
                                      fd = BunFile ''/work/dist/img/biglogo-11223344.png'' \<rparr>)])]"


text \<open>A document with a reference to an image that does not exist.\<close>

definition brokenImage :: Element where
  "brokenImage = \<lparr> tagName = ''img'', attributes = [(''alt'', ''logo''), (''src'', ''missing.png'')],
                    innerContent = [] \<rparr>"

definition brokenPage :: string where
  "brokenPage = ''<img alt='' @ [CHR 0x22] @ ''logo'' @ [CHR 0x22] @ '' src='' @ [CHR 0x22]
                  @ ''missing.png'' @ [CHR 0x22] @ ''>''"

definition noExtraction :: Extraction where
  "noExtraction = \<lparr> files = [], console = [] \<rparr>"

definition pngExcluded :: BunPluginHTMLOptions where
  "pngExcluded = noOptions\<lparr> excludeExtensions := Some [''.png''] \<rparr>"

text \<open>
  A graph after compilation with code splitting: the entry document, the compiled script
  it refers to, a chunk that the bundler split off (no attribute refers to it), and an
  image. And an element that refers to a script through \<open>href\<close>.
\<close>

definition inlineAll :: BunPluginHTMLOptions where
  "inlineAll = noOptions\<lparr> inline := Some (InlineBool True) \<rparr>"

definition pageEntry :: File where
  "pageEntry = (BunFile ''/work/src/index.html'',
     \<lparr> kind = EntryPoint, attribute = None, hash = ''0a1b2c3d'',
       originalPath = Some ''/work/src/index.html'', htmlImporter = ''/work/src/index.html'',
       content = None \<rparr>)"

definition mainScript :: File where
  "mainScript = (BunFile ''/work/src/main.js'',
     \<lparr> kind = Chunk, attribute = Some (Attribute ''href'' ''./main.js''), hash = ''55667788'',
       originalPath = Some ''/work/src/main.ts'', htmlImporter = ''/work/src/index.html'',
       content = Some (Text ''import(`./chunk-1a2b3c4d.js`);document.write(`</script>`)'') \<rparr>)"

definition splitChunk :: File where
  "splitChunk = (BunFile ''/work/src/chunk-1a2b3c4d.js'',
     \<lparr> kind = Chunk, attribute = None, hash = ''1a2b3c4d'', originalPath = None,
       htmlImporter = ''/work/src/index.html'', content = Some (Text ''export const a=1;'') \<rparr>)"

definition logoImage :: File where
  "logoImage = (BunFile ''/work/src/logo.png'',
     \<lparr> kind = Chunk, attribute = Some (Attribute ''src'' ''./logo.png''), hash = ''0a1b2c3d'',
       originalPath = Some ''/work/src/logo.png'', htmlImporter = ''/work/src/index.html'',
       content = None \<rparr>)"

text \<open>The entry document once more, as an \<open>iframe\<close> of the document refers to it.\<close>

definition selfFrame :: File where
  "selfFrame = (BunFile ''/work/src/index.html'',
     \<lparr> kind = Chunk, attribute = Some (Attribute ''src'' ''./index.html''), hash = ''0a1b2c3d'',
       originalPath = Some ''/work/src/index.html'', htmlImporter = ''/work/src/index.html'',
       content = None \<rparr>)"

definition preloadLink :: Element where
  "preloadLink = \<lparr> tagName = ''link'',
     attributes = [(''rel'', ''modulepreload''), (''href'', ''./main.js'')], innerContent = [] \<rparr>"

text \<open>A graph with a script and a style sheet that the document refers to.\<close>

definition appScript :: File where
  "appScript = (BunFile ''/work/src/app.js'',
     \<lparr> kind = Chunk, attribute = Some (Attribute ''src'' ''./app.js''), hash = ''55667788'',
       originalPath = Some ''/work/src/app.ts'', htmlImporter = ''/work/src/index.html'',
       content = Some (Text ''document.write(`<script>go()</script>`)'') \<rparr>)"

definition styleSheet :: File where
  "styleSheet = (BunFile ''/work/src/main.css'',
     \<lparr> kind = Chunk, attribute = Some (Attribute ''href'' ''./main.css''), hash = ''44556677'',
       originalPath = Some ''/work/src/main.css'', htmlImporter = ''/work/src/index.html'',
       content = Some (Text ''a{color:red}'') \<rparr>)"

definition scriptElement :: Element where
  "scriptElement = \<lparr> tagName = ''script'',
     attributes = [(''type'', ''module''), (''src'', ''./app.js'')], innerContent = [] \<rparr>"

text \<open>A void element with a reference to the script.\<close>

definition embedElement :: Element where
  "embedElement = \<lparr> tagName = ''embed'',
     attributes = [(''type'', ''text/javascript''), (''src'', ''./app.js'')], innerContent = [] \<rparr>"

text \<open>
  A rewriter for which a selector that is a tag name matches the elements with that tag;
  an anchor that refers to a file that does not exist; and an image with two of the
  searched attributes, the second of which refers to a file that does not exist.
\<close>

definition tagSelector :: "string \<Rightarrow> Element \<Rightarrow> bool" where
  "tagSelector selector el = (selector = tagName el)"

definition missingAnchor :: Element where
  "missingAnchor = \<lparr> tagName = ''a'', attributes = [(''href'', ''nope.html'')], innerContent = [] \<rparr>"

definition twoSources :: Element where
  "twoSources = \<lparr> tagName = ''img'',
     attributes = [(''data-src'', ''missing.png''), (''src'', ''logo.png'')], innerContent = [] \<rparr>"

text \<open>
  A script as the bundler has compiled it under a template with the hash token, and its
  source map: the bundler names both, and the hash of the source map is not in its name.
\<close>

definition appBundle :: File where
  "appBundle = (BunFile ''/work/src/app-55667788.js'',
     \<lparr> kind = Chunk, attribute = Some (Attribute ''src'' ''./app.js''), hash = ''55667788'',
       originalPath = Some ''/work/src/app.ts'', htmlImporter = ''/work/src/index.html'',
       content = Some (Text ''go()'') \<rparr>)"

definition appSourceMap :: File where
  "appSourceMap = (BunFile ''/work/src/app-55667788.js.map'',
     \<lparr> kind = Sourcemap, attribute = None, hash = ''0f0f0f0f'', originalPath = None,
       htmlImporter = ''/work/src/index.html'', content = Some (Text ''{}'') \<rparr>)"
section \<open>Properties\<close>

subsection \<open>Exclusion and inclusion lists extend the defaults\<close>

lemma excludedSelector_concat:
  "foldl (\<lambda>acc exclude. acc @ '':not('' @ exclude @ '')'') a excl
     = a @ concat (map (\<lambda>exclude. '':not('' @ exclude @ '')'') excl)"
  by (induction excl arbitrary: a) simp_all

lemma excludedSelector_append:
  "excludedSelector (xs @ ys) = excludedSelector xs @ excludedSelector ys"
  by (simp only: excludedSelector_def excludedSelector_concat append_Nil map_append concat_append)

text \<open>
  C10. Whatever the user passes, the effective excluded-selector list is the user's
  \<open>excludeSelectors\<close> followed by the default \<open>a\<close>, and the effective buildable-extension
  list is the user's \<open>includeExtensions\<close> followed by \<open>.js\<close>, \<open>.jsx\<close>, \<open>.ts\<close>, \<open>.tsx\<close>
  (without the option, the defaults alone). So \<open>a\<close> is always negated last in the
  selector, an anchor element is never scanned, and the four default extensions are always
  buildable.
\<close>

theorem lists_extend_defaults:
  "excluded (Some (opts\<lparr>excludeSelectors := Some sels\<rparr>)) = sels @ [''a'']
   \<and> excluded (Some (opts\<lparr>excludeSelectors := None\<rparr>)) = [''a'']
   \<and> excluded None = [''a'']
   \<and> buildExtensions (Some (opts\<lparr>includeExtensions := Some exts\<rparr>))
       = exts @ [''.js'', ''.jsx'', ''.ts'', ''.tsx'']
   \<and> buildExtensions (Some (opts\<lparr>includeExtensions := None\<rparr>))
       = [''.js'', ''.jsx'', ''.ts'', ''.tsx'']
   \<and> buildExtensions None = [''.js'', ''.jsx'', ''.ts'', ''.tsx'']
   \<and> arrayIncludes (excluded options) ''a''
   \<and> suffix '':not(a)'' (excludedSelector (excluded options))
   \<and> scanned matches (excluded options) el
       = (scanned matches (case options of None \<Rightarrow> []
                            | Some o' \<Rightarrow> (case excludeSelectors o' of None \<Rightarrow> [] | Some s \<Rightarrow> s)) el
          \<and> \<not> matches ''a'' el)
   \<and> arrayIncludes (buildExtensions options) ''.js''
   \<and> arrayIncludes (buildExtensions options) ''.jsx''
   \<and> arrayIncludes (buildExtensions options) ''.ts''
   \<and> arrayIncludes (buildExtensions options) ''.tsx''"
proof -
  have sel: "suffix '':not(a)'' (excludedSelector (xs @ [''a'']))" for xs
    by (simp add: excludedSelector_append suffix_def) (simp add: excludedSelector_def)
  have ex: "excluded options =
      (case options of None \<Rightarrow> [] | Some o' \<Rightarrow>
         (case excludeSelectors o' of None \<Rightarrow> [] | Some s \<Rightarrow> s)) @ [''a'']"
    by (simp add: excluded_def selectorsToExclude_def split: option.splits)
  have bx: "\<exists>us. buildExtensions options = us @ [''.js'', ''.jsx'', ''.ts'', ''.tsx'']"
    by (simp add: buildExtensions_def extensionsToBuild_def split: option.splits)
  have "suffix '':not(a)'' (excludedSelector (excluded options))"
    unfolding ex by (rule sel)
  moreover have "arrayIncludes (excluded options) ''a''"
    unfolding ex by (simp add: arrayIncludes_def)
  moreover have "scanned matches (excluded options) el
       = (scanned matches (case options of None \<Rightarrow> []
                            | Some o' \<Rightarrow> (case excludeSelectors o' of None \<Rightarrow> [] | Some s \<Rightarrow> s)) el
          \<and> \<not> matches ''a'' el)"
    unfolding ex by (simp add: scanned_def)
  moreover from bx have "arrayIncludes (buildExtensions options) ''.js''"
    "arrayIncludes (buildExtensions options) ''.jsx''"
    "arrayIncludes (buildExtensions options) ''.ts''"
    "arrayIncludes (buildExtensions options) ''.tsx''"
    by (auto simp: arrayIncludes_def)
  ultimately show ?thesis
    by (simp add: excluded_def buildExtensions_def selectorsToExclude_def extensionsToBuild_def)
qed

subsection \<open>Loading an HTML file as a module\<close>

text \<open>
  C9. For every path ending in \<open>.html\<close> or \<open>.htm\<close> the \<open>onLoad\<close> hook handles the path
  and throws, whatever the options (and so whatever \<open>suppressErrors\<close>) are.
\<close>

theorem onLoad_html_always_throws:
  "onLoadFilter p \<Longrightarrow>
     onLoad options p =
       Some (Inl (Error ''bun-plugin-html does not support output information at this time.''))"
  by (simp add: onLoad_def onLoadCallback_def)

theorem onLoad_html_always_throws_witness:
  "onLoadFilter ''index.html''
   \<and> onLoad (Some (noOptions\<lparr>suppressErrors := Some True\<rparr>)) ''index.html'' =
       Some (Inl (Error ''bun-plugin-html does not support output information at this time.''))"
proof -
  have f: "onLoadFilter ''index.html''"
    by (simp add: onLoadFilter_def suffix_def)
  show ?thesis
    using f onLoad_html_always_throws [OF f, of "Some (noOptions\<lparr>suppressErrors := Some True\<rparr>)"]
    by simp
qed

subsection \<open>\<open>save\<close> writes a path at most once\<close>

lemma save_saved: "isSaved (pathSaved st) p \<Longrightarrow> save rt options p body out st = st"
  by (simp add: save_def)

lemma pathSaved_save:
  "pathSaved (save rt options p body out st) =
     (if isSaved (pathSaved st) p then pathSaved st else p # pathSaved st)"
  by (simp add: save_def bunWrite_def)

lemma written_save:
  "written (save rt options p body out st) =
     (if isSaved (pathSaved st) p then written st
      else written st @ [(p, bodyToWrite rt options (namedAs st) p out body)])"
  by (simp add: save_def bunWrite_def)

lemma namedAs_save: "namedAs (save rt options p body out st) = namedAs st"
  by (simp add: save_def bunWrite_def)

lemma isSaved_save_same: "isSaved (pathSaved (save rt options p body out st)) p"
  by (simp add: pathSaved_save isSaved_def)

lemma isSaved_save_mono:
  "isSaved (pathSaved st) q \<Longrightarrow> isSaved (pathSaved (save rt options p body out st)) q"
  by (simp add: pathSaved_save isSaved_def)

lemma saveCalls_snoc:
  "saveCalls rt options (calls @ [c]) st =
     save rt options (fst c) (fst (snd c)) (snd (snd c)) (saveCalls rt options calls st)"
  by (simp add: saveCalls_def)

lemma saveCalls_Nil: "saveCalls rt options [] st = st"
  by (simp add: saveCalls_def)

lemma namedAs_saveCalls: "namedAs (saveCalls rt options calls st) = namedAs st"
  by (induction calls rule: rev_induct) (simp_all add: saveCalls_snoc saveCalls_Nil namedAs_save)

lemma isSaved_saveCalls_mono:
  "isSaved (pathSaved st) q \<Longrightarrow> isSaved (pathSaved (saveCalls rt options calls st)) q"
  by (induction calls rule: rev_induct) (simp_all add: saveCalls_snoc saveCalls_Nil isSaved_save_mono)

lemma isSaved_saveCalls_called:
  "c \<in> set calls \<Longrightarrow> isSaved (pathSaved (saveCalls rt options calls st)) (fst c)"
proof (induction calls rule: rev_induct)
  case Nil
  then show ?case by simp
next
  case (snoc x xs)
  show ?case
  proof (cases "c = x")
    case True
    then show ?thesis by (simp add: saveCalls_snoc isSaved_save_same)
  next
    case False
    with snoc have "isSaved (pathSaved (saveCalls rt options xs st)) (fst c)" by simp
    then show ?thesis by (simp add: saveCalls_snoc isSaved_save_mono)
  qed
qed

lemma ledgerCovers_save:
  "ledgerCovers st \<Longrightarrow> ledgerCovers (save rt options p body out st)"
  by (auto simp: ledgerCovers_def written_save pathSaved_save isSaved_def list_all_iff)

lemma ledgerCovers_saveCalls:
  "ledgerCovers st \<Longrightarrow> ledgerCovers (saveCalls rt options calls st)"
  by (induction calls rule: rev_induct) (simp_all add: saveCalls_snoc saveCalls_Nil ledgerCovers_save)

lemma written_saveCalls_first:
  "\<not> isSaved (pathSaved st) p \<Longrightarrow> fst c = p \<Longrightarrow> (\<forall>d\<in>set pre. fst d \<noteq> p) \<Longrightarrow>
   (p, bodyToWrite rt options (namedAs st) p (snd (snd c)) (fst (snd c)))
     \<in> set (written (saveCalls rt options (pre @ c # post) st))"
proof (induction post rule: rev_induct)
  case Nil
  have ns: "\<not> isSaved (pathSaved (saveCalls rt options pre st)) p"
    using Nil(1,3)
  proof (induction pre rule: rev_induct)
    case Nil
    then show ?case by (simp add: saveCalls_Nil)
  next
    case (snoc x xs)
    then show ?case by (auto simp: saveCalls_snoc pathSaved_save isSaved_def)
  qed
  show ?case
    using ns Nil(2)
    by (simp add: saveCalls_snoc [of _ _ pre c, simplified] written_save namedAs_saveCalls)
next
  case (snoc x xs)
  have "saveCalls rt options (pre @ c # xs @ [x]) st
        = save rt options (fst x) (fst (snd x)) (snd (snd x)) (saveCalls rt options (pre @ c # xs) st)"
    using saveCalls_snoc [of rt options "pre @ c # xs" x st] by simp
  with snoc show ?case by (auto simp: written_save)
qed

lemma filter_key_distinct:
  "distinct (map fst ws) \<Longrightarrow> (p, v) \<in> set ws \<Longrightarrow> [w \<leftarrow> ws. fst w = p] = [(p, v)]"
proof (induction ws)
  case Nil
  then show ?case by simp
next
  case (Cons a ws)
  show ?case
  proof (cases "a = (p, v)")
    case True
    with Cons.prems have "\<forall>w\<in>set ws. fst w \<noteq> p" by auto
    then have "[w \<leftarrow> ws. fst w = p] = []" by (simp add: filter_empty_conv)
    with True show ?thesis by simp
  next
    case False
    with Cons.prems have m: "(p, v) \<in> set ws" by simp
    with Cons.prems have "fst a \<noteq> p" by (auto simp: image_iff)
    with Cons m show ?thesis by simp
  qed
qed

text \<open>
  C2. In a sequence of calls of \<open>save\<close> that starts with nothing written, every path
  is written at most once; a call whose path is the path of an earlier call changes
  nothing (no write, and what is stored stays); and for a path not saved before, the one
  write that exists for it is the write of the first call with that path.
\<close>

theorem save_writes_each_path_once:
  "written st = [] \<Longrightarrow>
     distinct (map fst (written (saveCalls rt options calls st)))
     \<and> (\<forall>j < length calls. \<forall>i < j. fst (calls ! i) = fst (calls ! j) \<longrightarrow>
           saveCalls rt options (take (Suc j) calls) st = saveCalls rt options (take j calls) st)
     \<and> (\<forall>j < length calls. (\<forall>i < j. fst (calls ! i) \<noteq> fst (calls ! j))
           \<and> \<not> isSaved (pathSaved st) (fst (calls ! j)) \<longrightarrow>
           [w \<leftarrow> written (saveCalls rt options calls st). fst w = fst (calls ! j)]
             = [(fst (calls ! j),
                 bodyToWrite rt options (namedAs st) (fst (calls ! j)) (snd (snd (calls ! j)))
                   (fst (snd (calls ! j))))])"
proof (intro conjI allI impI)
  assume w: "written st = []"
  then have "ledgerCovers st" by (simp add: ledgerCovers_def)
  then have lc: "ledgerCovers (saveCalls rt options calls st)" by (rule ledgerCovers_saveCalls)
  then show "distinct (map fst (written (saveCalls rt options calls st)))"
    by (simp add: ledgerCovers_def)
  {
    fix j i assume j: "j < length calls" and i: "i < j" and e: "fst (calls ! i) = fst (calls ! j)"
    have "calls ! i \<in> set (take j calls)"
      using i j by (metis in_set_conv_nth length_take min.absorb2 nat_less_le nth_take)
    then have "isSaved (pathSaved (saveCalls rt options (take j calls) st)) (fst (calls ! j))"
      using isSaved_saveCalls_called e by metis
    moreover have "take (Suc j) calls = take j calls @ [calls ! j]"
      using j by (simp add: take_Suc_conv_app_nth)
    ultimately show "saveCalls rt options (take (Suc j) calls) st = saveCalls rt options (take j calls) st"
      by (simp add: saveCalls_snoc save_saved)
  }
  {
    fix j assume j: "j < length calls"
      and f: "(\<forall>i < j. fst (calls ! i) \<noteq> fst (calls ! j)) \<and> \<not> isSaved (pathSaved st) (fst (calls ! j))"
    let ?p = "fst (calls ! j)"
    let ?w = "(?p, bodyToWrite rt options (namedAs st) ?p (snd (snd (calls ! j))) (fst (snd (calls ! j))))"
    have split: "calls = take j calls @ calls ! j # drop (Suc j) calls"
      using j by (simp add: id_take_nth_drop)
    have pre: "\<forall>d\<in>set (take j calls). fst d \<noteq> ?p"
    proof
      fix d assume "d \<in> set (take j calls)"
      then obtain i where "i < j" "d = calls ! i"
        using j by (auto simp: in_set_conv_nth)
      with f show "fst d \<noteq> ?p" by simp
    qed
    have "?w \<in> set (written (saveCalls rt options (take j calls @ calls ! j # drop (Suc j) calls) st))"
      using f pre by (intro written_saveCalls_first) auto
    then have mem: "?w \<in> set (written (saveCalls rt options calls st))"
      using split by simp
    from lc have d: "distinct (map fst (written (saveCalls rt options calls st)))"
      by (simp add: ledgerCovers_def)
    show "[w \<leftarrow> written (saveCalls rt options calls st). fst w = ?p] = [?w]"
      using d mem by (rule filter_key_distinct)
  }
qed


theorem save_writes_each_path_once_witness:
  "written freshState = []
   \<and> distinct (map fst (written (saveCalls plainRuntime None
         [(''dist/a.css'', Text ''a{}'', Some ''dist''), (''dist/b.png'', Blob (BunFile ''/work/src/b.png''), Some ''dist''),
          (''dist/a.css'', Text ''b{}'', Some ''dist'')] freshState)))
   \<and> saveCalls plainRuntime None
         [(''dist/a.css'', Text ''a{}'', Some ''dist''), (''dist/b.png'', Blob (BunFile ''/work/src/b.png''), Some ''dist''),
          (''dist/a.css'', Text ''b{}'', Some ''dist'')] freshState
       = saveCalls plainRuntime None
         [(''dist/a.css'', Text ''a{}'', Some ''dist''), (''dist/b.png'', Blob (BunFile ''/work/src/b.png''), Some ''dist'')] freshState
   \<and> [w \<leftarrow> written (saveCalls plainRuntime None
         [(''dist/a.css'', Text ''a{}'', Some ''dist''), (''dist/b.png'', Blob (BunFile ''/work/src/b.png''), Some ''dist''),
          (''dist/a.css'', Text ''b{}'', Some ''dist'')] freshState). fst w = ''dist/a.css'']
       = [(''dist/a.css'', Text ''a{}'')]"
proof -
  let ?calls = "[(''dist/a.css'', Text ''a{}'', Some ''dist''),
                 (''dist/b.png'', Blob (BunFile ''/work/src/b.png''), Some ''dist''),
                 (''dist/a.css'', Text ''b{}'', Some ''dist'')]"
  have w: "written freshState = []"
    by (simp add: freshState_def)
  note t = save_writes_each_path_once [OF w, of plainRuntime None ?calls]
  have ns: "\<not> isSaved (pathSaved freshState) ''dist/a.css''"
    by (simp add: freshState_def isSaved_def objectPrototypeKeys_def)
  have b: "bodyToWrite plainRuntime None (namedAs freshState) ''dist/a.css'' (Some ''dist'') (Text ''a{}'')
           = Text ''a{}''"
    by (simp add: bodyToWrite_def keepOriginalPathsOf_def rewriteBody_def freshState_def)
  have t1: "distinct (map fst (written (saveCalls plainRuntime None ?calls freshState)))"
    using t by (rule conjunct1)
  have t2: "saveCalls plainRuntime None (take (Suc 2) ?calls) freshState
        = saveCalls plainRuntime None (take 2 ?calls) freshState"
    using t [THEN conjunct2, THEN conjunct1, rule_format, of 2 0] by simp
  have t3: "[w \<leftarrow> written (saveCalls plainRuntime None ?calls freshState). fst w = fst (?calls ! 0)]
             = [(fst (?calls ! 0),
                 bodyToWrite plainRuntime None (namedAs freshState) (fst (?calls ! 0))
                   (snd (snd (?calls ! 0))) (fst (snd (?calls ! 0))))]"
    using ns t [THEN conjunct2, THEN conjunct2, rule_format, of 0] by simp
  have tk: "take (Suc 2) ?calls = ?calls" "take 2 ?calls = [(''dist/a.css'', Text ''a{}'', Some ''dist''),
                 (''dist/b.png'', Blob (BunFile ''/work/src/b.png''), Some ''dist'')]"
    by (simp_all add: numeral_2_eq_2)
  show ?thesis
    using w t1 t2 t3 b unfolding tk by simp
qed

subsection \<open>The two write loops\<close>

lemma writeOther_namedAs: "namedAs (fst (writeOther rt options config f acc)) = namedAs (fst acc)"
  by (simp add: writeOther_def namedAs_save Let_def split: option.splits)

lemma writeOther_written:
  "written (fst (writeOther rt options config f acc)) = written (fst acc)
   \<or> (\<exists>b. written (fst (writeOther rt options config f acc)) = written (fst acc) @ [(fileName (fst f), b)])"
  by (simp add: writeOther_def written_save Let_def split: option.splits)

lemma writeOther_rules:
  "snd (writeOther rt options config f acc) = snd acc
   \<or> (\<exists>a. attribute (snd f) = Some a
          \<and> snd (writeOther rt options config f acc) = snd acc @ [pathRule rt options f a])"
  by (simp add: writeOther_def Let_def split: option.splits)

lemma writeEntry_namedAs: "namedAs (writeEntry rt options config rules f st) = namedAs st"
  by (simp add: writeEntry_def namedAs_save)

lemma writeEntry_written:
  "written (writeEntry rt options config rules f st) = written st
   \<or> written (writeEntry rt options config rules f st)
       = written st @ [(fileName (fst f),
            bodyToWrite rt options (namedAs st) (fileName (fst f)) (outdir config)
              (Text (entryContents rt options config rules f)))]"
  by (simp add: writeEntry_def written_save)

lemma writeOthers_namedAs:
  "namedAs (fst (writeOthers rt options config fs acc)) = namedAs (fst acc)"
  by (induction fs arbitrary: acc) (simp_all add: writeOther_namedAs)

lemma writeOthers_written:
  "\<exists>ws. written (fst (writeOthers rt options config fs acc)) = written (fst acc) @ ws
        \<and> (\<forall>w\<in>set ws. \<exists>f\<in>set fs. fst w = fileName (fst f))"
proof (induction fs arbitrary: acc)
  case Nil
  then show ?case by simp
next
  case (Cons f fs)
  let ?acc = "writeOther rt options config f acc"
  from Cons.IH [of ?acc] obtain ws where
    ws: "written (fst (writeOthers rt options config fs ?acc)) = written (fst ?acc) @ ws"
        "\<forall>w\<in>set ws. \<exists>f\<in>set fs. fst w = fileName (fst f)"
    by blast
  from writeOther_written [of rt options config f acc] show ?case
  proof
    assume "written (fst ?acc) = written (fst acc)"
    with ws show ?thesis by auto
  next
    assume "\<exists>b. written (fst ?acc) = written (fst acc) @ [(fileName (fst f), b)]"
    then obtain b where b: "written (fst ?acc) = written (fst acc) @ [(fileName (fst f), b)]" ..
    have "written (fst (writeOthers rt options config (f # fs) acc))
            = written (fst acc) @ ((fileName (fst f), b) # ws)"
      using ws(1) b by simp
    moreover have "\<forall>w\<in>set ((fileName (fst f), b) # ws). \<exists>g\<in>set (f # fs). fst w = fileName (fst g)"
      using ws(2) by auto
    ultimately show ?thesis by blast
  qed
qed

lemma writeOthers_rules:
  "\<exists>regs. snd (writeOthers rt options config fs acc) = snd acc @ regs
        \<and> (\<forall>r\<in>set regs. \<exists>f\<in>set fs. \<exists>a. attribute (snd f) = Some a \<and> r = pathRule rt options f a)"
proof (induction fs arbitrary: acc)
  case Nil
  then show ?case by simp
next
  case (Cons f fs)
  let ?acc = "writeOther rt options config f acc"
  from Cons.IH [of ?acc] obtain regs where
    regs: "snd (writeOthers rt options config fs ?acc) = snd ?acc @ regs"
        "\<forall>r\<in>set regs. \<exists>f\<in>set fs. \<exists>a. attribute (snd f) = Some a \<and> r = pathRule rt options f a"
    by blast
  from writeOther_rules [of rt options config f acc] show ?case
  proof
    assume "snd ?acc = snd acc"
    with regs show ?thesis by auto
  next
    assume "\<exists>a. attribute (snd f) = Some a \<and> snd ?acc = snd acc @ [pathRule rt options f a]"
    then obtain a where a: "attribute (snd f) = Some a" "snd ?acc = snd acc @ [pathRule rt options f a]"
      by blast
    have "snd (writeOthers rt options config (f # fs) acc) = snd acc @ (pathRule rt options f a # regs)"
      using regs(1) a by simp
    moreover have "\<forall>r\<in>set (pathRule rt options f a # regs). \<exists>g\<in>set (f # fs). \<exists>a.
        attribute (snd g) = Some a \<and> r = pathRule rt options g a"
      using regs(2) a by auto
    ultimately show ?thesis by blast
  qed
qed

lemma writeEntries_written:
  "\<exists>ws. written (writeEntries rt options config rules fs st) = written st @ ws
        \<and> (\<forall>w\<in>set ws. \<exists>f\<in>set fs.
              w = (fileName (fst f),
                   bodyToWrite rt options (namedAs st) (fileName (fst f)) (outdir config)
                     (Text (entryContents rt options config rules f))))"
proof (induction fs arbitrary: st)
  case Nil
  then show ?case by simp
next
  case (Cons f fs)
  let ?st = "writeEntry rt options config rules f st"
  let ?w = "(fileName (fst f), bodyToWrite rt options (namedAs st) (fileName (fst f)) (outdir config)
                     (Text (entryContents rt options config rules f)))"
  have n: "namedAs ?st = namedAs st" by (rule writeEntry_namedAs)
  from Cons.IH [of ?st] obtain ws where
    ws: "written (writeEntries rt options config rules fs ?st) = written ?st @ ws"
        "\<forall>w\<in>set ws. \<exists>f\<in>set fs.
              w = (fileName (fst f),
                   bodyToWrite rt options (namedAs st) (fileName (fst f)) (outdir config)
                     (Text (entryContents rt options config rules f)))"
    unfolding n by blast
  from writeEntry_written [of rt options config rules f st] show ?case
  proof
    assume "written ?st = written st"
    with ws show ?thesis by auto
  next
    assume b: "written ?st = written st @ [?w]"
    have "written (writeEntries rt options config rules (f # fs) st) = written st @ (?w # ws)"
      using ws(1) b by simp
    moreover have "\<forall>w\<in>set (?w # ws). \<exists>g\<in>set (f # fs).
              w = (fileName (fst g),
                   bodyToWrite rt options (namedAs st) (fileName (fst g)) (outdir config)
                     (Text (entryContents rt options config rules g)))"
      using ws(2) by auto
    ultimately show ?thesis by blast
  qed
qed

lemma writeOther_step:
  "(fst (writeOther rt options config f acc) = fst acc \<and> snd (writeOther rt options config f acc) = snd acc
      \<and> (fileName (fst f) = [] \<or> falsyContent (content (snd f))
           \<or> alreadyThere (fileName (fst f)) (hash (snd f)) (fst acc)))
   \<or> (fileName (fst f) \<noteq> [] \<and> \<not> falsyContent (content (snd f))
        \<and> \<not> alreadyThere (fileName (fst f)) (hash (snd f)) (fst acc)
        \<and> (\<exists>body. content (snd f) = Some body
              \<and> fst (writeOther rt options config f acc)
                   = save rt options (fileName (fst f)) body (outdir config) (fst acc))
        \<and> snd (writeOther rt options config f acc)
             = snd acc @ (case attribute (snd f) of None \<Rightarrow> [] | Some a \<Rightarrow> [pathRule rt options f a]))"
  by (cases "content (snd f)"; cases "attribute (snd f)")
     (auto simp: writeOther_def Let_def falsyContent_def)

lemma writeOther_rule_kept:
  "set (snd acc) \<subseteq> set (snd (writeOther rt options config f acc))"
  using writeOther_step [of rt options config f acc] by auto

lemma writeOthers_rule_kept:
  "set (snd acc) \<subseteq> set (snd (writeOthers rt options config fs acc))"
proof (induction fs arbitrary: acc)
  case Nil
  then show ?case by simp
next
  case (Cons f fs)
  from writeOther_rule_kept [of acc rt options config f] Cons [of "writeOther rt options config f acc"]
  show ?case by auto
qed

text \<open>Every write of the first loop is for a file whose rule, if it has an attribute, is registered.\<close>

lemma writeOthers_written_registered:
  "\<exists>ws. written (fst (writeOthers rt options config fs acc)) = written (fst acc) @ ws
        \<and> (\<forall>w\<in>set ws. \<exists>f\<in>set fs. fst w = fileName (fst f)
              \<and> (\<forall>a. attribute (snd f) = Some a
                    \<longrightarrow> pathRule rt options f a \<in> set (snd (writeOthers rt options config fs acc))))"
proof (induction fs arbitrary: acc)
  case Nil
  then show ?case by simp
next
  case (Cons f fs)
  let ?acc = "writeOther rt options config f acc"
  let ?res = "writeOthers rt options config (f # fs) acc"
  have res: "?res = writeOthers rt options config fs ?acc" by simp
  from Cons.IH [of ?acc] obtain ws where
    ws: "written (fst (writeOthers rt options config fs ?acc)) = written (fst ?acc) @ ws"
        "\<forall>w\<in>set ws. \<exists>g\<in>set fs. fst w = fileName (fst g)
              \<and> (\<forall>a. attribute (snd g) = Some a
                    \<longrightarrow> pathRule rt options g a \<in> set (snd (writeOthers rt options config fs ?acc)))"
    by blast
  from writeOther_step [of rt options config f acc] show ?case
  proof
    assume "fst ?acc = fst acc \<and> snd ?acc = snd acc
      \<and> (fileName (fst f) = [] \<or> falsyContent (content (snd f))
           \<or> alreadyThere (fileName (fst f)) (hash (snd f)) (fst acc))"
    then have "written (fst ?res) = written (fst acc) @ ws" using ws(1) by simp
    moreover from ws(2) have "\<forall>w\<in>set ws. \<exists>g\<in>set (f # fs). fst w = fileName (fst g)
              \<and> (\<forall>a. attribute (snd g) = Some a \<longrightarrow> pathRule rt options g a \<in> set (snd ?res))"
      unfolding res by auto
    ultimately show ?thesis by blast
  next
    assume s: "fileName (fst f) \<noteq> [] \<and> \<not> falsyContent (content (snd f))
        \<and> \<not> alreadyThere (fileName (fst f)) (hash (snd f)) (fst acc)
        \<and> (\<exists>body. content (snd f) = Some body
              \<and> fst ?acc = save rt options (fileName (fst f)) body (outdir config) (fst acc))
        \<and> snd ?acc = snd acc @ (case attribute (snd f) of None \<Rightarrow> [] | Some a \<Rightarrow> [pathRule rt options f a])"
    then obtain body where body:
        "fst ?acc = save rt options (fileName (fst f)) body (outdir config) (fst acc)" by blast
    have mine: "\<forall>a. attribute (snd f) = Some a \<longrightarrow> pathRule rt options f a \<in> set (snd ?res)"
    proof (intro allI impI)
      fix a assume "attribute (snd f) = Some a"
      with s have "pathRule rt options f a \<in> set (snd ?acc)" by simp
      with writeOthers_rule_kept [of ?acc rt options config fs]
      show "pathRule rt options f a \<in> set (snd ?res)" unfolding res by blast
    qed
    from written_save [of rt options "fileName (fst f)" body "outdir config" "fst acc"] body
    consider "written (fst ?acc) = written (fst acc)"
      | b where "written (fst ?acc) = written (fst acc) @ [(fileName (fst f), b)]"
      by (auto split: if_splits)
    then show ?thesis
    proof cases
      case 1
      then have "written (fst ?res) = written (fst acc) @ ws" using ws(1) by simp
      moreover from ws(2) have "\<forall>w\<in>set ws. \<exists>g\<in>set (f # fs). fst w = fileName (fst g)
              \<and> (\<forall>a. attribute (snd g) = Some a \<longrightarrow> pathRule rt options g a \<in> set (snd ?res))"
        unfolding res by auto
      ultimately show ?thesis by blast
    next
      case 2
      then have "written (fst ?res) = written (fst acc) @ ((fileName (fst f), b) # ws)"
        using ws(1) by simp
      moreover from ws(2) mine have "\<forall>w\<in>set ((fileName (fst f), b) # ws). \<exists>g\<in>set (f # fs).
             fst w = fileName (fst g)
              \<and> (\<forall>a. attribute (snd g) = Some a \<longrightarrow> pathRule rt options g a \<in> set (snd ?res))"
        unfolding res by auto
      ultimately show ?thesis by blast
    qed
  qed
qed

text \<open>
  C5. Entry points are written last: what \<open>setup\<close> writes is what the loop over the
  files that are not entry points writes (\<open>ws1\<close>, each write for a file of another kind),
  followed by the writes for the entry points (\<open>ws2\<close>). The rules that the first loop
  leaves (\<open>firstLoop\<close>) start with the rules of \<open>processHtmlFiles\<close>; what follows are path
  rules, each for an attribute of a file that is not an entry point; and every file
  written in the first loop that has an attribute has its path rule among them (a step of
  the loop registers the rule of a file with an attribute exactly when it does not pass
  over the file). The markup
  pass of every entry point written runs with all these rules: what is written for it is
  the document as the rewriter transforms it under the rules that the first loop leaves,
  minified if asked for.
\<close>

theorem entry_points_written_last:
  fixes rt options config newFiles st attributesToChange x s rs
  defines "firstLoop \<equiv> writeOthers rt options config
                 (filter (\<lambda>f. kind (snd f) \<noteq> EntryPoint) newFiles) (st, attributesToChange)"
  shows "\<exists>ws1 ws2.
      written (fst firstLoop) = written st @ ws1
    \<and> written (writeFiles rt options config attributesToChange newFiles st) = written st @ ws1 @ ws2
    \<and> (\<forall>w\<in>set ws1. \<exists>f\<in>set newFiles. kind (snd f) \<noteq> EntryPoint \<and> fst w = fileName (fst f)
          \<and> (\<forall>a. attribute (snd f) = Some a \<longrightarrow>
                SetAttribute (attributeToSelector rt a) a (fst f)
                    (ext (path_parse (fileName (fst f)))) (buildExtensions options)
                  \<in> set (snd firstLoop)))
    \<and> prefix attributesToChange (snd firstLoop)
    \<and> (\<forall>r\<in>set (drop (length attributesToChange) (snd firstLoop)).
          \<exists>f\<in>set newFiles. kind (snd f) \<noteq> EntryPoint
            \<and> (\<exists>a. attribute (snd f) = Some a
                  \<and> r = SetAttribute (attributeToSelector rt a) a (fst f)
                          (ext (path_parse (fileName (fst f)))) (buildExtensions options)))
    \<and> (\<forall>w\<in>set ws2. \<exists>f\<in>set newFiles. kind (snd f) = EntryPoint
          \<and> w = (fileName (fst f),
                 bodyToWrite rt options (namedAs st) (fileName (fst f)) (outdir config)
                   (Text (if minify config \<and> minifyHTML (htmlOptions options) = Some True
                          then minifyHtml rt (transform rt (snd firstLoop) (fileName (fst f))
                                 (contentToString rt (content (snd f))))
                          else transform rt (snd firstLoop) (fileName (fst f))
                                 (contentToString rt (content (snd f)))))))
    \<and> snd (writeOther rt options config x (s, rs))
        = (if fileName (fst x) = [] \<or> falsyContent (content (snd x))
              \<or> alreadyThere (fileName (fst x)) (hash (snd x)) s
           then rs
           else rs @ (case attribute (snd x) of
                        None \<Rightarrow> []
                      | Some a \<Rightarrow> [SetAttribute (attributeToSelector rt a) a (fst x)
                                    (ext (path_parse (fileName (fst x)))) (buildExtensions options)]))"
proof -
  let ?others = "filter (\<lambda>f. kind (snd f) \<noteq> EntryPoint) newFiles"
  let ?entries = "filter (\<lambda>f. kind (snd f) = EntryPoint) newFiles"
  have r: "firstLoop = writeOthers rt options config ?others (st, attributesToChange)"
    by (simp add: firstLoop_def)
  obtain ws1 where ws1: "written (fst firstLoop) = written st @ ws1"
      "\<forall>w\<in>set ws1. \<exists>f\<in>set ?others. fst w = fileName (fst f)
          \<and> (\<forall>a. attribute (snd f) = Some a \<longrightarrow> pathRule rt options f a \<in> set (snd firstLoop))"
    unfolding r
    using writeOthers_written_registered [of rt options config ?others "(st, attributesToChange)"]
    by auto
  obtain regs where regs: "snd firstLoop = attributesToChange @ regs"
      "\<forall>r\<in>set regs. \<exists>f\<in>set ?others. \<exists>a. attribute (snd f) = Some a \<and> r = pathRule rt options f a"
    unfolding r
    using writeOthers_rules [of rt options config ?others "(st, attributesToChange)"] by auto
  have n: "namedAs (fst firstLoop) = namedAs st"
    unfolding r by (simp add: writeOthers_namedAs)
  obtain ws2 where ws2: "written (writeEntries rt options config (snd firstLoop) ?entries (fst firstLoop))
        = written (fst firstLoop) @ ws2"
      "\<forall>w\<in>set ws2. \<exists>f\<in>set ?entries.
              w = (fileName (fst f),
                   bodyToWrite rt options (namedAs (fst firstLoop)) (fileName (fst f)) (outdir config)
                     (Text (entryContents rt options config (snd firstLoop) f)))"
    using writeEntries_written by blast
  have a: "written (writeFiles rt options config attributesToChange newFiles st) = written st @ ws1 @ ws2"
    using ws1(1) ws2(1) by (simp add: writeFiles_def Let_def r)
  have b: "\<forall>w\<in>set ws1. \<exists>f\<in>set newFiles. kind (snd f) \<noteq> EntryPoint \<and> fst w = fileName (fst f)
          \<and> (\<forall>a. attribute (snd f) = Some a \<longrightarrow>
                SetAttribute (attributeToSelector rt a) a (fst f)
                    (ext (path_parse (fileName (fst f)))) (buildExtensions options)
                  \<in> set (snd firstLoop))"
  proof
    fix w assume "w \<in> set ws1"
    with ws1(2) obtain f where f: "f \<in> set ?others" "fst w = fileName (fst f)"
      "\<forall>a. attribute (snd f) = Some a \<longrightarrow> pathRule rt options f a \<in> set (snd firstLoop)" by blast
    then show "\<exists>f\<in>set newFiles. kind (snd f) \<noteq> EntryPoint \<and> fst w = fileName (fst f)
          \<and> (\<forall>a. attribute (snd f) = Some a \<longrightarrow>
                SetAttribute (attributeToSelector rt a) a (fst f)
                    (ext (path_parse (fileName (fst f)))) (buildExtensions options)
                  \<in> set (snd firstLoop))"
      by (intro bexI [of _ f]) (simp_all add: pathRule_def)
  qed
  have c: "prefix attributesToChange (snd firstLoop)"
    using regs(1) by simp
  have d: "\<forall>r\<in>set (drop (length attributesToChange) (snd firstLoop)).
          \<exists>f\<in>set newFiles. kind (snd f) \<noteq> EntryPoint
            \<and> (\<exists>a. attribute (snd f) = Some a
                  \<and> r = SetAttribute (attributeToSelector rt a) a (fst f)
                          (ext (path_parse (fileName (fst f)))) (buildExtensions options))"
  proof
    fix r assume "r \<in> set (drop (length attributesToChange) (snd firstLoop))"
    then have "r \<in> set regs" by (simp add: regs(1))
    with regs(2) obtain f a where "f \<in> set ?others" "attribute (snd f) = Some a"
        "r = pathRule rt options f a" by blast
    then show "\<exists>f\<in>set newFiles. kind (snd f) \<noteq> EntryPoint
            \<and> (\<exists>a. attribute (snd f) = Some a
                  \<and> r = SetAttribute (attributeToSelector rt a) a (fst f)
                          (ext (path_parse (fileName (fst f)))) (buildExtensions options))"
      by (intro bexI [of _ f]) (auto simp: pathRule_def)
  qed
  have e: "\<forall>w\<in>set ws2. \<exists>f\<in>set newFiles. kind (snd f) = EntryPoint
          \<and> w = (fileName (fst f),
                 bodyToWrite rt options (namedAs st) (fileName (fst f)) (outdir config)
                   (Text (if minify config \<and> minifyHTML (htmlOptions options) = Some True
                          then minifyHtml rt (transform rt (snd firstLoop) (fileName (fst f))
                                 (contentToString rt (content (snd f))))
                          else transform rt (snd firstLoop) (fileName (fst f))
                                 (contentToString rt (content (snd f))))))"
  proof
    fix w assume "w \<in> set ws2"
    with ws2(2) obtain f where "f \<in> set ?entries"
        "w = (fileName (fst f),
                   bodyToWrite rt options (namedAs (fst firstLoop)) (fileName (fst f)) (outdir config)
                     (Text (entryContents rt options config (snd firstLoop) f)))" by blast
    then show "\<exists>f\<in>set newFiles. kind (snd f) = EntryPoint
          \<and> w = (fileName (fst f),
                 bodyToWrite rt options (namedAs st) (fileName (fst f)) (outdir config)
                   (Text (if minify config \<and> minifyHTML (htmlOptions options) = Some True
                          then minifyHtml rt (transform rt (snd firstLoop) (fileName (fst f))
                                 (contentToString rt (content (snd f))))
                          else transform rt (snd firstLoop) (fileName (fst f))
                                 (contentToString rt (content (snd f))))))"
      unfolding n by (intro bexI [of _ f]) (simp_all add: entryContents_def Let_def)
  qed
  have g: "snd (writeOther rt options config x (s, rs))
        = (if fileName (fst x) = [] \<or> falsyContent (content (snd x))
              \<or> alreadyThere (fileName (fst x)) (hash (snd x)) s
           then rs
           else rs @ (case attribute (snd x) of
                        None \<Rightarrow> []
                      | Some a \<Rightarrow> [SetAttribute (attributeToSelector rt a) a (fst x)
                                    (ext (path_parse (fileName (fst x)))) (buildExtensions options)]))"
    using writeOther_step [of rt options config x "(s, rs)"]
    by (auto simp: pathRule_def split: option.splits)
  from ws1(1) a b c d e g show ?thesis by blast
qed

lemma demo_run:
  "written (writeFiles plainRuntime None demoConfig [] [demoEntry, demoAsset] freshState)
     = [(''dist/logo.png'', Blob (BunFile ''/work/src/logo.png'')),
        (''dist/index.html'', Text ''<img src=logo.png>'')]"
  by (simp add: writeFiles_def writeOther_def writeEntry_def demoEntry_def demoAsset_def demoConfig_def
      freshState_def falsyContent_def alreadyThere_def save_def isSaved_def objectPrototypeKeys_def
      bunWrite_def bodyToWrite_def keepOriginalPathsOf_def rewriteBody_def entryContents_def
      plainRuntime_def contentToStringSpec_def htmlOptions_def)

lemma demo_rules:
  "snd (writeOthers plainRuntime None demoConfig
          (filter (\<lambda>f. kind (snd f) \<noteq> EntryPoint) [demoEntry, demoAsset]) (freshState, []))
     = [SetAttribute (''[src='' @ [CHR 0x22] @ ''logo.png'' @ [CHR 0x22] @ '']'')
          (Attribute ''src'' ''logo.png'') (BunFile ''dist/logo.png'') ''.png''
          [''.js'', ''.jsx'', ''.ts'', ''.tsx'']]"
  by code_simp

theorem entry_points_written_last_witness:
  "(\<exists>ws1 ws2.
      written (fst (writeOthers plainRuntime None demoConfig
                 (filter (\<lambda>f. kind (snd f) \<noteq> EntryPoint) [demoEntry, demoAsset]) (freshState, [])))
        = written freshState @ ws1
    \<and> written (writeFiles plainRuntime None demoConfig [] [demoEntry, demoAsset] freshState)
        = written freshState @ ws1 @ ws2
    \<and> (\<forall>w\<in>set ws1. \<exists>f\<in>set [demoEntry, demoAsset]. kind (snd f) \<noteq> EntryPoint
          \<and> fst w = fileName (fst f)
          \<and> (\<forall>a. attribute (snd f) = Some a \<longrightarrow>
                SetAttribute (attributeToSelector plainRuntime a) a (fst f)
                    (ext (path_parse (fileName (fst f)))) (buildExtensions None)
                  \<in> set (snd (writeOthers plainRuntime None demoConfig
                       (filter (\<lambda>f. kind (snd f) \<noteq> EntryPoint) [demoEntry, demoAsset])
                       (freshState, [])))))
    \<and> (\<forall>w\<in>set ws2. \<exists>f\<in>set [demoEntry, demoAsset]. kind (snd f) = EntryPoint
          \<and> w = (fileName (fst f),
                 bodyToWrite plainRuntime None (namedAs freshState) (fileName (fst f)) (outdir demoConfig)
                   (Text (if minify demoConfig \<and> minifyHTML (htmlOptions None) = Some True
                          then minifyHtml plainRuntime
                                 (transform plainRuntime
                                    (snd (writeOthers plainRuntime None demoConfig
                                       (filter (\<lambda>f. kind (snd f) \<noteq> EntryPoint) [demoEntry, demoAsset])
                                       (freshState, [])))
                                    (fileName (fst f)) (contentToString plainRuntime (content (snd f))))
                          else transform plainRuntime
                                 (snd (writeOthers plainRuntime None demoConfig
                                    (filter (\<lambda>f. kind (snd f) \<noteq> EntryPoint) [demoEntry, demoAsset])
                                    (freshState, [])))
                                 (fileName (fst f)) (contentToString plainRuntime (content (snd f))))))))
   \<and> written (writeFiles plainRuntime None demoConfig [] [demoEntry, demoAsset] freshState)
     = [(''dist/logo.png'', Blob (BunFile ''/work/src/logo.png'')),
        (''dist/index.html'', Text ''<img src=logo.png>'')]
   \<and> snd (writeOthers plainRuntime None demoConfig
          (filter (\<lambda>f. kind (snd f) \<noteq> EntryPoint) [demoEntry, demoAsset]) (freshState, []))
     = [SetAttribute (''[src='' @ [CHR 0x22] @ ''logo.png'' @ [CHR 0x22] @ '']'')
          (Attribute ''src'' ''logo.png'') (BunFile ''dist/logo.png'') ''.png''
          [''.js'', ''.jsx'', ''.ts'', ''.tsx'']]"
proof -
  note t = entry_points_written_last
      [of plainRuntime None demoConfig "[demoEntry, demoAsset]" freshState "[]"]
  from t obtain ws1 ws2 where
    "written (fst (writeOthers plainRuntime None demoConfig
                 (filter (\<lambda>f. kind (snd f) \<noteq> EntryPoint) [demoEntry, demoAsset]) (freshState, [])))
        = written freshState @ ws1"
    "written (writeFiles plainRuntime None demoConfig [] [demoEntry, demoAsset] freshState)
        = written freshState @ ws1 @ ws2"
    "\<forall>w\<in>set ws1. \<exists>f\<in>set [demoEntry, demoAsset]. kind (snd f) \<noteq> EntryPoint
          \<and> fst w = fileName (fst f)
          \<and> (\<forall>a. attribute (snd f) = Some a \<longrightarrow>
                SetAttribute (attributeToSelector plainRuntime a) a (fst f)
                    (ext (path_parse (fileName (fst f)))) (buildExtensions None)
                  \<in> set (snd (writeOthers plainRuntime None demoConfig
                       (filter (\<lambda>f. kind (snd f) \<noteq> EntryPoint) [demoEntry, demoAsset])
                       (freshState, []))))"
    "\<forall>w\<in>set ws2. \<exists>f\<in>set [demoEntry, demoAsset]. kind (snd f) = EntryPoint
          \<and> w = (fileName (fst f),
                 bodyToWrite plainRuntime None (namedAs freshState) (fileName (fst f)) (outdir demoConfig)
                   (Text (if minify demoConfig \<and> minifyHTML (htmlOptions None) = Some True
                          then minifyHtml plainRuntime
                                 (transform plainRuntime
                                    (snd (writeOthers plainRuntime None demoConfig
                                       (filter (\<lambda>f. kind (snd f) \<noteq> EntryPoint) [demoEntry, demoAsset])
                                       (freshState, [])))
                                    (fileName (fst f)) (contentToString plainRuntime (content (snd f))))
                          else transform plainRuntime
                                 (snd (writeOthers plainRuntime None demoConfig
                                    (filter (\<lambda>f. kind (snd f) \<noteq> EntryPoint) [demoEntry, demoAsset])
                                    (freshState, [])))
                                 (fileName (fst f)) (contentToString plainRuntime (content (snd f))))))"
    by blast
  with demo_run demo_rules show ?thesis by blast
qed
subsection \<open>When a write is skipped\<close>

lemma alreadyThere_mono:
  "onDisk st \<subseteq> onDisk st' \<Longrightarrow> alreadyThere p h st \<Longrightarrow> alreadyThere p h st'"
  by (auto simp: alreadyThere_def)

lemma onDisk_save: "onDisk st \<subseteq> onDisk (save rt options p body out st)"
  by (auto simp: save_def bunWrite_def)

lemma ledgerWritten_save: "ledgerWritten st \<Longrightarrow> ledgerWritten (save rt options p body out st)"
  by (auto simp: ledgerWritten_def save_def bunWrite_def)

lemma save_on_disk:
  "ledgerWritten st \<Longrightarrow> p \<notin> set objectPrototypeKeys
     \<Longrightarrow> p \<in> onDisk (save rt options p body out st) \<and> p \<in> fst ` set (written (save rt options p body out st))"
  by (auto simp: ledgerWritten_def save_def bunWrite_def isSaved_def)

text \<open>One step of a write loop: pass over the file, or save it.\<close>

lemma step_inv:
  assumes "\<And>f st. g f st = (if skip f \<or> alreadyThere (fileName (fst f)) (hash (snd f)) st then st
                              else save rt options (fileName (fst f)) (body f) out st)"
  shows "ledgerWritten st \<Longrightarrow> ledgerWritten (g f st)"
  by (simp add: assms ledgerWritten_save)

lemma step_disk:
  assumes "\<And>f st. g f st = (if skip f \<or> alreadyThere (fileName (fst f)) (hash (snd f)) st then st
                              else save rt options (fileName (fst f)) (body f) out st)"
  shows "onDisk st \<subseteq> onDisk (g f st)"
  using onDisk_save [of st rt options "fileName (fst f)" "body f" out] by (simp add: assms)

lemma step_written:
  assumes "\<And>f st. g f st = (if skip f \<or> alreadyThere (fileName (fst f)) (hash (snd f)) st then st
                              else save rt options (fileName (fst f)) (body f) out st)"
  shows "written (g f st) = written st
     \<or> (\<exists>b. written (g f st) = written st @ [(fileName (fst f), b)] \<and> \<not> skip f
            \<and> fileName (fst f) \<notin> set objectPrototypeKeys
            \<and> \<not> alreadyThere (fileName (fst f)) (hash (snd f)) st)"
  by (auto simp: assms written_save isSaved_def)

lemma step_on_disk:
  assumes "\<And>f st. g f st = (if skip f \<or> alreadyThere (fileName (fst f)) (hash (snd f)) st then st
                              else save rt options (fileName (fst f)) (body f) out st)"
    and "ledgerWritten st" and "\<not> skip f" and "fileName (fst f) \<notin> set objectPrototypeKeys"
  shows "fileName (fst f) \<in> onDisk (g f st)"
proof (cases "alreadyThere (fileName (fst f)) (hash (snd f)) st")
  case True
  then show ?thesis by (simp add: assms(1) alreadyThere_def)
next
  case False
  with save_on_disk [OF assms(2,4), of rt options "body f" out] assms(3) show ?thesis
    by (simp add: assms(1))
qed

lemma step_again:
  assumes "\<And>f st. g f st = (if skip f \<or> alreadyThere (fileName (fst f)) (hash (snd f)) st then st
                              else save rt options (fileName (fst f)) (body f) out st)"
    and "ledgerWritten st" and "\<not> skip f" and "fileName (fst f) \<notin> set objectPrototypeKeys"
    and "\<not> sublist (hash (snd f)) (fileName (fst f))"
  shows "fileName (fst f) \<in> fst ` set (written (g f st))"
proof -
  from assms(5) have "\<not> alreadyThere (fileName (fst f)) (hash (snd f)) st"
    by (simp add: alreadyThere_def)
  with save_on_disk [OF assms(2,4), of rt options "body f" out] assms(3) show ?thesis
    by (simp add: assms(1))
qed

lemma steps_inv:
  assumes "\<And>f st. g f st = (if skip f \<or> alreadyThere (fileName (fst f)) (hash (snd f)) st then st
                              else save rt options (fileName (fst f)) (body f) out st)"
  shows "ledgerWritten st \<Longrightarrow> ledgerWritten (foldl (\<lambda>st f. g f st) st fs)"
proof (induction fs arbitrary: st)
  case Nil
  then show ?case by simp
next
  case (Cons x fs)
  from step_inv [of g skip rt options body out, OF assms Cons.prems]
  have "ledgerWritten (g x st)" .
  from Cons.IH [OF this] show ?case by simp
qed

lemma steps_disk:
  assumes "\<And>f st. g f st = (if skip f \<or> alreadyThere (fileName (fst f)) (hash (snd f)) st then st
                              else save rt options (fileName (fst f)) (body f) out st)"
  shows "onDisk st \<subseteq> onDisk (foldl (\<lambda>st f. g f st) st fs)"
proof (induction fs arbitrary: st)
  case Nil
  then show ?case by simp
next
  case (Cons x fs)
  from step_disk [of g skip rt options body out, OF assms, of st x] Cons.IH [of "g x st"]
  show ?case by auto
qed

lemma steps_written:
  assumes "\<And>f st. g f st = (if skip f \<or> alreadyThere (fileName (fst f)) (hash (snd f)) st then st
                              else save rt options (fileName (fst f)) (body f) out st)"
  shows "\<exists>ws. written (foldl (\<lambda>st f. g f st) st fs) = written st @ ws
      \<and> (\<forall>w\<in>set ws. \<exists>f\<in>set fs. fst w = fileName (fst f) \<and> \<not> skip f
            \<and> fileName (fst f) \<notin> set objectPrototypeKeys
            \<and> \<not> alreadyThere (fileName (fst f)) (hash (snd f)) st)"
proof (induction fs arbitrary: st)
  case Nil
  then show ?case by simp
next
  case (Cons x fs)
  from Cons.IH [of "g x st"] obtain ws where
    ws: "written (foldl (\<lambda>st f. g f st) (g x st) fs) = written (g x st) @ ws"
      "\<forall>w\<in>set ws. \<exists>f\<in>set fs. fst w = fileName (fst f) \<and> \<not> skip f
            \<and> fileName (fst f) \<notin> set objectPrototypeKeys
            \<and> \<not> alreadyThere (fileName (fst f)) (hash (snd f)) (g x st)" by blast
  have d: "onDisk st \<subseteq> onDisk (g x st)"
    by (rule step_disk [of g skip rt options body out, OF assms])
  have ws': "\<forall>w\<in>set ws. \<exists>f\<in>set (x # fs). fst w = fileName (fst f) \<and> \<not> skip f
            \<and> fileName (fst f) \<notin> set objectPrototypeKeys
            \<and> \<not> alreadyThere (fileName (fst f)) (hash (snd f)) st"
  proof
    fix w assume "w \<in> set ws"
    with ws(2) obtain f where f: "f \<in> set fs" "fst w = fileName (fst f)" "\<not> skip f"
        "fileName (fst f) \<notin> set objectPrototypeKeys"
        "\<not> alreadyThere (fileName (fst f)) (hash (snd f)) (g x st)" by blast
    from f(5) alreadyThere_mono [OF d] have "\<not> alreadyThere (fileName (fst f)) (hash (snd f)) st"
      by blast
    with f show "\<exists>f\<in>set (x # fs). fst w = fileName (fst f) \<and> \<not> skip f
            \<and> fileName (fst f) \<notin> set objectPrototypeKeys
            \<and> \<not> alreadyThere (fileName (fst f)) (hash (snd f)) st"
      by (intro bexI [of _ f]) simp_all
  qed
  from step_written [of g skip rt options body out, OF assms, of x st] show ?case
  proof
    assume "written (g x st) = written st"
    with ws(1) ws' show ?thesis by (intro exI [of _ ws]) simp
  next
    assume "\<exists>b. written (g x st) = written st @ [(fileName (fst x), b)] \<and> \<not> skip x
            \<and> fileName (fst x) \<notin> set objectPrototypeKeys
            \<and> \<not> alreadyThere (fileName (fst x)) (hash (snd x)) st"
    then obtain b where b: "written (g x st) = written st @ [(fileName (fst x), b)]" "\<not> skip x"
        "fileName (fst x) \<notin> set objectPrototypeKeys"
        "\<not> alreadyThere (fileName (fst x)) (hash (snd x)) st" by blast
    have "written (foldl (\<lambda>st f. g f st) st (x # fs)) = written st @ ((fileName (fst x), b) # ws)"
      using ws(1) b(1) by simp
    moreover have "\<forall>w\<in>set ((fileName (fst x), b) # ws). \<exists>f\<in>set (x # fs). fst w = fileName (fst f) \<and> \<not> skip f
            \<and> fileName (fst f) \<notin> set objectPrototypeKeys
            \<and> \<not> alreadyThere (fileName (fst f)) (hash (snd f)) st"
      using ws' b by auto
    ultimately show ?thesis by blast
  qed
qed

lemma steps_on_disk:
  assumes "\<And>f st. g f st = (if skip f \<or> alreadyThere (fileName (fst f)) (hash (snd f)) st then st
                              else save rt options (fileName (fst f)) (body f) out st)"
  shows "ledgerWritten st \<Longrightarrow> f \<in> set fs \<Longrightarrow> \<not> skip f
     \<Longrightarrow> fileName (fst f) \<notin> set objectPrototypeKeys
     \<Longrightarrow> fileName (fst f) \<in> onDisk (foldl (\<lambda>st f. g f st) st fs)"
proof (induction fs arbitrary: st)
  case Nil
  then show ?case by simp
next
  case (Cons x fs)
  have inv: "ledgerWritten (g x st)"
    by (rule step_inv [of g skip rt options body out, OF assms Cons.prems(1)])
  show ?case
  proof (cases "f \<in> set fs")
    case True
    from Cons.IH [OF inv True Cons.prems(3,4)] show ?thesis by simp
  next
    case False
    with Cons.prems(2) have fx: "f = x" by simp
    from step_on_disk [of g skip rt options body out, OF assms Cons.prems(1)] Cons.prems(3,4) fx
    have "fileName (fst f) \<in> onDisk (g x st)" by simp
    with steps_disk [of g skip rt options body out, OF assms, of "g x st" fs] show ?thesis
      by auto
  qed
qed

lemma steps_again:
  assumes "\<And>f st. g f st = (if skip f \<or> alreadyThere (fileName (fst f)) (hash (snd f)) st then st
                              else save rt options (fileName (fst f)) (body f) out st)"
  shows "ledgerWritten st \<Longrightarrow> f \<in> set fs \<Longrightarrow> \<not> skip f
     \<Longrightarrow> fileName (fst f) \<notin> set objectPrototypeKeys
     \<Longrightarrow> \<not> sublist (hash (snd f)) (fileName (fst f))
     \<Longrightarrow> fileName (fst f) \<in> fst ` set (written (foldl (\<lambda>st f. g f st) st fs))"
proof (induction fs arbitrary: st)
  case Nil
  then show ?case by simp
next
  case (Cons x fs)
  have inv: "ledgerWritten (g x st)"
    by (rule step_inv [of g skip rt options body out, OF assms Cons.prems(1)])
  show ?case
  proof (cases "f \<in> set fs")
    case True
    from Cons.IH [OF inv True Cons.prems(3,4,5)] show ?thesis by simp
  next
    case False
    with Cons.prems(2) have fx: "f = x" by simp
    from step_again [of g skip rt options body out, OF assms Cons.prems(1)] Cons.prems(3,4,5) fx
    have "fileName (fst f) \<in> fst ` set (written (g x st))" by simp
    moreover from steps_written [of g skip rt options body out, OF assms, of "g x st" fs]
    have "set (written (g x st)) \<subseteq> set (written (foldl (\<lambda>st f. g f st) (g x st) fs))" by auto
    ultimately show ?thesis by auto
  qed
qed


text \<open>Both loops are sequences of such steps.\<close>

lemma writeOther_state:
  "fst (writeOther rt options config f acc)
     = (if (fileName (fst f) = [] \<or> falsyContent (content (snd f)))
            \<or> alreadyThere (fileName (fst f)) (hash (snd f)) (fst acc) then fst acc
        else save rt options (fileName (fst f)) (contentOrFile f) (outdir config) (fst acc))"
  by (cases "content (snd f)"; cases "attribute (snd f)")
     (auto simp: writeOther_def Let_def falsyContent_def contentOrFile_def)

lemma writeOthers_foldl:
  "fst (writeOthers rt options config fs acc)
     = foldl (\<lambda>st f. fst (writeOther rt options config f (st, []))) (fst acc) fs"
proof (induction fs arbitrary: acc)
  case Nil
  then show ?case by simp
next
  case (Cons f fs)
  have "fst (writeOther rt options config f acc) = fst (writeOther rt options config f (fst acc, []))"
    by (simp add: writeOther_state)
  with Cons.IH [of "writeOther rt options config f acc"] show ?case by simp
qed

lemma writeEntries_foldl:
  "writeEntries rt options config rules fs st
     = foldl (\<lambda>st f. writeEntry rt options config rules f st) st fs"
  by (induction fs arbitrary: st) simp_all

lemma writeOther_is_step:
  "fst (writeOther rt options config f (st, []))
     = (if (fileName (fst f) = [] \<or> falsyContent (content (snd f)))
            \<or> alreadyThere (fileName (fst f)) (hash (snd f)) st then st
        else save rt options (fileName (fst f)) (contentOrFile f) (outdir config) st)"
  by (simp add: writeOther_state)

lemma writeEntry_is_step:
  "writeEntry rt options config rules f st
     = (if fileName (fst f) = [] \<or> alreadyThere (fileName (fst f)) (hash (snd f)) st then st
        else save rt options (fileName (fst f)) (Text (entryContents rt options config rules f))
               (outdir config) st)"
  by (simp add: writeEntry_def)

lemma writeFiles_state:
  "writeFiles rt options config rules newFiles st
     = foldl (\<lambda>s f. writeEntry rt options config
                 (snd (writeOthers rt options config
                    (filter (\<lambda>f. kind (snd f) \<noteq> EntryPoint) newFiles) (st, rules))) f s)
         (foldl (\<lambda>s f. fst (writeOther rt options config f (s, []))) st
            (filter (\<lambda>f. kind (snd f) \<noteq> EntryPoint) newFiles))
         (filter (\<lambda>f. kind (snd f) = EntryPoint) newFiles)"
  by (simp add: writeFiles_def Let_def writeEntries_foldl writeOthers_foldl)

lemma entries_inv:
  "ledgerWritten st \<Longrightarrow> ledgerWritten (foldl (\<lambda>s f. writeEntry rt options config rules f s) st fs)"
  by (rule steps_inv [where g = "\<lambda>f s. writeEntry rt options config rules f s"
        and skip = "\<lambda>f. fileName (fst f) = []"
        and body = "\<lambda>f. Text (entryContents rt options config rules f)"
        and out = "outdir config" and rt = rt and options = options])
     (simp_all add: writeEntry_def)

lemma others_inv:
  "ledgerWritten st
     \<Longrightarrow> ledgerWritten (foldl (\<lambda>s f. fst (writeOther rt options config f (s, []))) st fs)"
  by (rule steps_inv [where g = "\<lambda>f s. fst (writeOther rt options config f (s, []))"
        and skip = "\<lambda>f. fileName (fst f) = [] \<or> falsyContent (content (snd f))"
        and body = contentOrFile
        and out = "outdir config" and rt = rt and options = options])
     (simp_all add: writeOther_state)

lemma entries_disk:
  "onDisk st \<subseteq> onDisk (foldl (\<lambda>s f. writeEntry rt options config rules f s) st fs)"
  by (rule steps_disk [where g = "\<lambda>f s. writeEntry rt options config rules f s"
        and skip = "\<lambda>f. fileName (fst f) = []"
        and body = "\<lambda>f. Text (entryContents rt options config rules f)"
        and out = "outdir config" and rt = rt and options = options])
     (simp_all add: writeEntry_def)

lemma others_disk:
  "onDisk st \<subseteq> onDisk (foldl (\<lambda>s f. fst (writeOther rt options config f (s, []))) st fs)"
  by (rule steps_disk [where g = "\<lambda>f s. fst (writeOther rt options config f (s, []))"
        and skip = "\<lambda>f. fileName (fst f) = [] \<or> falsyContent (content (snd f))"
        and body = contentOrFile
        and out = "outdir config" and rt = rt and options = options])
     (simp_all add: writeOther_state)

lemma entries_written:
  "\<exists>ws. written (foldl (\<lambda>s f. writeEntry rt options config rules f s) st fs) = written st @ ws
      \<and> (\<forall>w\<in>set ws. \<exists>f\<in>set fs. fst w = fileName (fst f) \<and> \<not> fileName (fst f) = []
            \<and> fileName (fst f) \<notin> set objectPrototypeKeys
            \<and> \<not> alreadyThere (fileName (fst f)) (hash (snd f)) st)"
  by (rule steps_written [where g = "\<lambda>f s. writeEntry rt options config rules f s"
        and skip = "\<lambda>f. fileName (fst f) = []"
        and body = "\<lambda>f. Text (entryContents rt options config rules f)"
        and out = "outdir config" and rt = rt and options = options])
     (simp_all add: writeEntry_def)

lemma others_written:
  "\<exists>ws. written (foldl (\<lambda>s f. fst (writeOther rt options config f (s, []))) st fs) = written st @ ws
      \<and> (\<forall>w\<in>set ws. \<exists>f\<in>set fs. fst w = fileName (fst f)
            \<and> \<not> (fileName (fst f) = [] \<or> falsyContent (content (snd f)))
            \<and> fileName (fst f) \<notin> set objectPrototypeKeys
            \<and> \<not> alreadyThere (fileName (fst f)) (hash (snd f)) st)"
  by (rule steps_written [where g = "\<lambda>f s. fst (writeOther rt options config f (s, []))"
        and skip = "\<lambda>f. fileName (fst f) = [] \<or> falsyContent (content (snd f))"
        and body = contentOrFile
        and out = "outdir config" and rt = rt and options = options])
     (simp_all add: writeOther_state)

lemma entries_on_disk:
  "ledgerWritten st \<Longrightarrow> f \<in> set fs \<Longrightarrow> \<not> fileName (fst f) = []
     \<Longrightarrow> fileName (fst f) \<notin> set objectPrototypeKeys
     \<Longrightarrow> fileName (fst f) \<in> onDisk (foldl (\<lambda>s f. writeEntry rt options config rules f s) st fs)"
  by (rule steps_on_disk [where g = "\<lambda>f s. writeEntry rt options config rules f s"
        and skip = "\<lambda>f. fileName (fst f) = []"
        and body = "\<lambda>f. Text (entryContents rt options config rules f)"
        and out = "outdir config" and rt = rt and options = options])
     (simp_all add: writeEntry_def)

lemma others_on_disk:
  "ledgerWritten st \<Longrightarrow> f \<in> set fs \<Longrightarrow> \<not> (fileName (fst f) = [] \<or> falsyContent (content (snd f)))
     \<Longrightarrow> fileName (fst f) \<notin> set objectPrototypeKeys
     \<Longrightarrow> fileName (fst f) \<in> onDisk (foldl (\<lambda>s f. fst (writeOther rt options config f (s, []))) st fs)"
  by (rule steps_on_disk [where g = "\<lambda>f s. fst (writeOther rt options config f (s, []))"
        and skip = "\<lambda>f. fileName (fst f) = [] \<or> falsyContent (content (snd f))"
        and body = contentOrFile
        and out = "outdir config" and rt = rt and options = options])
     (simp_all add: writeOther_state)

lemma entries_again:
  "ledgerWritten st \<Longrightarrow> f \<in> set fs \<Longrightarrow> \<not> fileName (fst f) = []
     \<Longrightarrow> fileName (fst f) \<notin> set objectPrototypeKeys
     \<Longrightarrow> \<not> sublist (hash (snd f)) (fileName (fst f))
     \<Longrightarrow> fileName (fst f)
           \<in> fst ` set (written (foldl (\<lambda>s f. writeEntry rt options config rules f s) st fs))"
  by (rule steps_again [where g = "\<lambda>f s. writeEntry rt options config rules f s"
        and skip = "\<lambda>f. fileName (fst f) = []"
        and body = "\<lambda>f. Text (entryContents rt options config rules f)"
        and out = "outdir config" and rt = rt and options = options])
     (simp_all add: writeEntry_def)

lemma others_again:
  "ledgerWritten st \<Longrightarrow> f \<in> set fs \<Longrightarrow> \<not> (fileName (fst f) = [] \<or> falsyContent (content (snd f)))
     \<Longrightarrow> fileName (fst f) \<notin> set objectPrototypeKeys
     \<Longrightarrow> \<not> sublist (hash (snd f)) (fileName (fst f))
     \<Longrightarrow> fileName (fst f)
           \<in> fst ` set (written (foldl (\<lambda>s f. fst (writeOther rt options config f (s, []))) st fs))"
  by (rule steps_again [where g = "\<lambda>f s. fst (writeOther rt options config f (s, []))"
        and skip = "\<lambda>f. fileName (fst f) = [] \<or> falsyContent (content (snd f))"
        and body = contentOrFile
        and out = "outdir config" and rt = rt and options = options])
     (simp_all add: writeOther_state)

lemma writeFiles_on_disk:
  assumes "ledgerWritten st" and "f \<in> set newFiles" and "fileName (fst f) \<noteq> []"
    and "kind (snd f) = EntryPoint \<or> \<not> falsyContent (content (snd f))"
    and "fileName (fst f) \<notin> set objectPrototypeKeys"
  shows "fileName (fst f) \<in> onDisk (writeFiles rt options config rules newFiles st)"
proof -
  let ?others = "filter (\<lambda>f. kind (snd f) \<noteq> EntryPoint) newFiles"
  let ?entries = "filter (\<lambda>f. kind (snd f) = EntryPoint) newFiles"
  let ?mid = "foldl (\<lambda>s f. fst (writeOther rt options config f (s, []))) st ?others"
  let ?rules = "snd (writeOthers rt options config ?others (st, rules))"
  have inv: "ledgerWritten ?mid"
    by (rule others_inv [OF assms(1)])
  show ?thesis
  proof (cases "kind (snd f) = EntryPoint")
    case True
    with assms(2) have "f \<in> set ?entries" by simp
    from entries_on_disk [OF inv this, of rt options config ?rules] assms(3,5)
    show ?thesis unfolding writeFiles_state by simp
  next
    case False
    with assms(2) have "f \<in> set ?others" by simp
    from others_on_disk [OF assms(1) this, of rt options config] assms(3,4,5) False
    have "fileName (fst f) \<in> onDisk ?mid" by simp
    with entries_disk [of ?mid rt options config ?rules ?entries]
    show ?thesis unfolding writeFiles_state by auto
  qed
qed

lemma writeFiles_written:
  "\<exists>ws. written (writeFiles rt options config rules newFiles st) = written st @ ws
      \<and> (\<forall>w\<in>set ws. \<exists>f\<in>set newFiles. fst w = fileName (fst f) \<and> fileName (fst f) \<noteq> []
            \<and> (kind (snd f) = EntryPoint \<or> \<not> falsyContent (content (snd f)))
            \<and> fileName (fst f) \<notin> set objectPrototypeKeys
            \<and> \<not> alreadyThere (fileName (fst f)) (hash (snd f)) st)"
proof -
  let ?others = "filter (\<lambda>f. kind (snd f) \<noteq> EntryPoint) newFiles"
  let ?entries = "filter (\<lambda>f. kind (snd f) = EntryPoint) newFiles"
  let ?mid = "foldl (\<lambda>s f. fst (writeOther rt options config f (s, []))) st ?others"
  let ?rules = "snd (writeOthers rt options config ?others (st, rules))"
  from others_written [of rt options config st ?others]
  obtain ws1 where ws1: "written ?mid = written st @ ws1"
    "\<forall>w\<in>set ws1. \<exists>f\<in>set ?others. fst w = fileName (fst f)
        \<and> \<not> (fileName (fst f) = [] \<or> falsyContent (content (snd f)))
        \<and> fileName (fst f) \<notin> set objectPrototypeKeys
        \<and> \<not> alreadyThere (fileName (fst f)) (hash (snd f)) st" by blast
  from entries_written [of rt options config ?rules ?mid ?entries]
  obtain ws2 where ws2:
    "written (writeFiles rt options config rules newFiles st) = written ?mid @ ws2"
    "\<forall>w\<in>set ws2. \<exists>f\<in>set ?entries. fst w = fileName (fst f) \<and> \<not> fileName (fst f) = []
        \<and> fileName (fst f) \<notin> set objectPrototypeKeys
        \<and> \<not> alreadyThere (fileName (fst f)) (hash (snd f)) ?mid"
    unfolding writeFiles_state by blast
  have d: "onDisk st \<subseteq> onDisk ?mid"
    by (rule others_disk)
  have "\<forall>w\<in>set (ws1 @ ws2). \<exists>f\<in>set newFiles. fst w = fileName (fst f) \<and> fileName (fst f) \<noteq> []
            \<and> (kind (snd f) = EntryPoint \<or> \<not> falsyContent (content (snd f)))
            \<and> fileName (fst f) \<notin> set objectPrototypeKeys
            \<and> \<not> alreadyThere (fileName (fst f)) (hash (snd f)) st"
  proof
    fix w assume "w \<in> set (ws1 @ ws2)"
    then consider "w \<in> set ws1" | "w \<in> set ws2" by auto
    then show "\<exists>f\<in>set newFiles. fst w = fileName (fst f) \<and> fileName (fst f) \<noteq> []
            \<and> (kind (snd f) = EntryPoint \<or> \<not> falsyContent (content (snd f)))
            \<and> fileName (fst f) \<notin> set objectPrototypeKeys
            \<and> \<not> alreadyThere (fileName (fst f)) (hash (snd f)) st"
    proof cases
      case 1
      with ws1(2) obtain f where "f \<in> set ?others" "fst w = fileName (fst f)"
        "\<not> (fileName (fst f) = [] \<or> falsyContent (content (snd f)))"
        "fileName (fst f) \<notin> set objectPrototypeKeys"
        "\<not> alreadyThere (fileName (fst f)) (hash (snd f)) st" by blast
      then show ?thesis by (intro bexI [of _ f]) simp_all
    next
      case 2
      with ws2(2) obtain f where f: "f \<in> set ?entries" "fst w = fileName (fst f)"
        "fileName (fst f) \<noteq> []" "fileName (fst f) \<notin> set objectPrototypeKeys"
        "\<not> alreadyThere (fileName (fst f)) (hash (snd f)) ?mid" by blast
      from f(5) alreadyThere_mono [OF d] have "\<not> alreadyThere (fileName (fst f)) (hash (snd f)) st"
        by blast
      with f show ?thesis by (intro bexI [of _ f]) simp_all
    qed
  qed
  with ws1(1) ws2(1) show ?thesis by (intro exI [of _ "ws1 @ ws2"]) simp
qed

lemma writeFiles_again:
  assumes "ledgerWritten st" and "f \<in> set newFiles" and "fileName (fst f) \<noteq> []"
    and "kind (snd f) = EntryPoint \<or> \<not> falsyContent (content (snd f))"
    and "fileName (fst f) \<notin> set objectPrototypeKeys"
    and "\<not> sublist (hash (snd f)) (fileName (fst f))"
  shows "fileName (fst f) \<in> fst ` set (written (writeFiles rt options config rules newFiles st))"
proof -
  let ?others = "filter (\<lambda>f. kind (snd f) \<noteq> EntryPoint) newFiles"
  let ?entries = "filter (\<lambda>f. kind (snd f) = EntryPoint) newFiles"
  let ?mid = "foldl (\<lambda>s f. fst (writeOther rt options config f (s, []))) st ?others"
  let ?rules = "snd (writeOthers rt options config ?others (st, rules))"
  have inv: "ledgerWritten ?mid"
    by (rule others_inv [OF assms(1)])
  show ?thesis
  proof (cases "kind (snd f) = EntryPoint")
    case True
    with assms(2) have "f \<in> set ?entries" by simp
    from entries_again [OF inv this, of rt options config ?rules] assms(3,5,6)
    show ?thesis unfolding writeFiles_state by simp
  next
    case False
    with assms(2) have "f \<in> set ?others" by simp
    from others_again [OF assms(1) this, of rt options config] assms(3,4,5,6) False
    have "fileName (fst f) \<in> fst ` set (written ?mid)" by simp
    moreover from entries_written [of rt options config ?rules ?mid ?entries]
    have "set (written ?mid) \<subseteq> set (written (writeFiles rt options config rules newFiles st))"
      unfolding writeFiles_state by auto
    ultimately show ?thesis by auto
  qed
qed

text \<open>A build by a new plugin instance writes the new files of the graph.\<close>

lemma buildOn_writeFiles:
  "\<exists>rules named. buildOn rt options config graph disk
     = writeFiles rt options config rules (newFilesOf rt options config graph [])
         \<lparr> namedAs = named, pathSaved = [], written = [], onDisk = disk \<rparr>"
  by (simp add: buildOn_def finishSetup_def newFilesOf_def Let_def freshState_def) blast

lemma ledgerWritten_fresh:
  "ledgerWritten \<lparr> namedAs = named, pathSaved = [], written = [], onDisk = disk \<rparr>"
  by (simp add: ledgerWritten_def)

lemma buildOn_on_disk:
  assumes "n \<in> set (newFilesOf rt options config graph [])" and "fileName (fst n) \<noteq> []"
    and "kind (snd n) = EntryPoint \<or> \<not> falsyContent (content (snd n))"
    and "fileName (fst n) \<notin> set objectPrototypeKeys"
  shows "fileName (fst n) \<in> onDisk (buildOn rt options config graph disk)"
proof -
  from buildOn_writeFiles [of rt options config graph disk] obtain rules named where
    b: "buildOn rt options config graph disk
     = writeFiles rt options config rules (newFilesOf rt options config graph [])
         \<lparr> namedAs = named, pathSaved = [], written = [], onDisk = disk \<rparr>" by blast
  show ?thesis
    unfolding b by (rule writeFiles_on_disk [OF ledgerWritten_fresh assms])
qed

lemma buildOn_written:
  "\<forall>w\<in>set (written (buildOn rt options config graph disk)).
     \<exists>n\<in>set (newFilesOf rt options config graph []). fst w = fileName (fst n)
        \<and> fileName (fst n) \<noteq> []
        \<and> (kind (snd n) = EntryPoint \<or> \<not> falsyContent (content (snd n)))
        \<and> fileName (fst n) \<notin> set objectPrototypeKeys
        \<and> \<not> (sublist (hash (snd n)) (fileName (fst n)) \<and> fileName (fst n) \<in> disk)"
proof -
  from buildOn_writeFiles [of rt options config graph disk] obtain rules named where
    b: "buildOn rt options config graph disk
     = writeFiles rt options config rules (newFilesOf rt options config graph [])
         \<lparr> namedAs = named, pathSaved = [], written = [], onDisk = disk \<rparr>" by blast
  from writeFiles_written [of rt options config rules "newFilesOf rt options config graph []"
      "\<lparr> namedAs = named, pathSaved = [], written = [], onDisk = disk \<rparr>"]
  show ?thesis unfolding b by (simp add: alreadyThere_def)
qed

lemma buildOn_again:
  assumes "n \<in> set (newFilesOf rt options config graph [])" and "fileName (fst n) \<noteq> []"
    and "kind (snd n) = EntryPoint \<or> \<not> falsyContent (content (snd n))"
    and "fileName (fst n) \<notin> set objectPrototypeKeys"
    and "\<not> sublist (hash (snd n)) (fileName (fst n))"
  shows "fileName (fst n) \<in> fst ` set (written (buildOn rt options config graph disk))"
proof -
  from buildOn_writeFiles [of rt options config graph disk] obtain rules named where
    b: "buildOn rt options config graph disk
     = writeFiles rt options config rules (newFilesOf rt options config graph [])
         \<lparr> namedAs = named, pathSaved = [], written = [], onDisk = disk \<rparr>" by blast
  show ?thesis
    unfolding b by (rule writeFiles_again [OF ledgerWritten_fresh assms])
qed

lemma rebuild_written:
  "\<forall>w\<in>set (written (rebuild rt options config graph disk)).
     \<exists>n\<in>set (newFilesOf rt options config graph []). fst w = fileName (fst n)
        \<and> \<not> sublist (hash (snd n)) (fileName (fst n))"
proof
  fix w assume "w \<in> set (written (rebuild rt options config graph disk))"
  with buildOn_written [of rt options config graph "onDisk (buildOn rt options config graph disk)"]
  obtain n where n: "n \<in> set (newFilesOf rt options config graph [])" "fst w = fileName (fst n)"
      "fileName (fst n) \<noteq> []" "kind (snd n) = EntryPoint \<or> \<not> falsyContent (content (snd n))"
      "fileName (fst n) \<notin> set objectPrototypeKeys"
      "\<not> (sublist (hash (snd n)) (fileName (fst n))
          \<and> fileName (fst n) \<in> onDisk (buildOn rt options config graph disk))"
    unfolding rebuild_def by blast
  from buildOn_on_disk [OF n(1,3,4,5)] n(6) have "\<not> sublist (hash (snd n)) (fileName (fst n))"
    by blast
  with n(1,2) show "\<exists>n\<in>set (newFilesOf rt options config graph []). fst w = fileName (fst n)
        \<and> \<not> sublist (hash (snd n)) (fileName (fst n))" by blast
qed

text \<open>
  C3, as amended. For a file that is not an entry point nothing is written exactly when
  it has no name, its content is missing or empty, its path contains its hash and a file
  exists there, or its path was saved before in this build; for an entry point, exactly
  when it has no name, its path contains its hash and a file exists there, or its path was
  saved before. After a build by a new plugin instance, every new file that has a name
  and content (and whose name is no member of \<open>Object.prototype\<close>) exists on disk. So when
  the same graph is built again by a new plugin instance on that disk, every write is for
  a new file whose path does not contain its hash, every such file's path is written
  again, and if the path of every new file contains its hash, nothing is written.
\<close>

theorem write_skipped_exactly_when:
  "((written (fst (writeOther rt options config f (st, rules))) = written st)
      = (fileName (fst f) = [] \<or> falsyContent (content (snd f))
         \<or> alreadyThere (fileName (fst f)) (hash (snd f)) st
         \<or> isSaved (pathSaved st) (fileName (fst f))))
   \<and> ((written (writeEntry rt options config rules f st) = written st)
      = (fileName (fst f) = []
         \<or> alreadyThere (fileName (fst f)) (hash (snd f)) st
         \<or> isSaved (pathSaved st) (fileName (fst f))))
   \<and> (\<forall>n\<in>set (newFilesOf rt options config graph []).
         fileName (fst n) \<noteq> []
         \<and> (kind (snd n) = EntryPoint \<or> \<not> falsyContent (content (snd n)))
         \<and> fileName (fst n) \<notin> set objectPrototypeKeys
         \<longrightarrow> fileName (fst n) \<in> onDisk (buildOn rt options config graph disk))
   \<and> (\<forall>w\<in>set (written (rebuild rt options config graph disk)).
         \<exists>n\<in>set (newFilesOf rt options config graph []). fst w = fileName (fst n)
            \<and> \<not> sublist (hash (snd n)) (fileName (fst n)))
   \<and> (\<forall>n\<in>set (newFilesOf rt options config graph []).
         fileName (fst n) \<noteq> []
         \<and> (kind (snd n) = EntryPoint \<or> \<not> falsyContent (content (snd n)))
         \<and> fileName (fst n) \<notin> set objectPrototypeKeys
         \<and> \<not> sublist (hash (snd n)) (fileName (fst n))
         \<longrightarrow> fileName (fst n) \<in> fst ` set (written (rebuild rt options config graph disk)))
   \<and> ((\<forall>n\<in>set (newFilesOf rt options config graph []).
          sublist (hash (snd n)) (fileName (fst n)))
        \<longrightarrow> written (rebuild rt options config graph disk) = [])"
proof -
  have a: "(written (fst (writeOther rt options config f (st, rules))) = written st)
      = (fileName (fst f) = [] \<or> falsyContent (content (snd f))
         \<or> alreadyThere (fileName (fst f)) (hash (snd f)) st
         \<or> isSaved (pathSaved st) (fileName (fst f)))"
    by (auto simp: writeOther_def written_save falsyContent_def Let_def split: option.splits)
  have b: "(written (writeEntry rt options config rules f st) = written st)
      = (fileName (fst f) = []
         \<or> alreadyThere (fileName (fst f)) (hash (snd f)) st
         \<or> isSaved (pathSaved st) (fileName (fst f)))"
    by (auto simp: writeEntry_def written_save)
  have c: "\<forall>n\<in>set (newFilesOf rt options config graph []).
         fileName (fst n) \<noteq> []
         \<and> (kind (snd n) = EntryPoint \<or> \<not> falsyContent (content (snd n)))
         \<and> fileName (fst n) \<notin> set objectPrototypeKeys
         \<longrightarrow> fileName (fst n) \<in> onDisk (buildOn rt options config graph disk)"
    using buildOn_on_disk [of _ rt options config graph disk] by blast
  note d = rebuild_written [of rt options config graph disk]
  have e: "\<forall>n\<in>set (newFilesOf rt options config graph []).
         fileName (fst n) \<noteq> []
         \<and> (kind (snd n) = EntryPoint \<or> \<not> falsyContent (content (snd n)))
         \<and> fileName (fst n) \<notin> set objectPrototypeKeys
         \<and> \<not> sublist (hash (snd n)) (fileName (fst n))
         \<longrightarrow> fileName (fst n) \<in> fst ` set (written (rebuild rt options config graph disk))"
    unfolding rebuild_def
    using buildOn_again [of _ rt options config graph "onDisk (buildOn rt options config graph disk)"]
    by blast
  have g: "(\<forall>n\<in>set (newFilesOf rt options config graph []).
          sublist (hash (snd n)) (fileName (fst n)))
        \<longrightarrow> written (rebuild rt options config graph disk) = []"
  proof
    assume all: "\<forall>n\<in>set (newFilesOf rt options config graph []).
          sublist (hash (snd n)) (fileName (fst n))"
    show "written (rebuild rt options config graph disk) = []"
    proof (cases "written (rebuild rt options config graph disk)")
      case Nil
      then show ?thesis .
    next
      case (Cons w ws)
      then have "w \<in> set (written (rebuild rt options config graph disk))" by simp
      with d all show ?thesis by blast
    qed
  qed
  from a b c d e g show ?thesis by (intro conjI)
qed

lemma hashed_rebuild_names:
  "map (\<lambda>n. sublist (hash (snd n)) (fileName (fst n)))
       (newFilesOf plainRuntime None hashConfig [pageEntry, styleSheet, logoImage] [])
     = [True, True, True]"
  by code_simp

lemma hashed_first_build:
  "map fst (written (buildOn plainRuntime None hashConfig [pageEntry, styleSheet, logoImage] {}))
     = [''/work/dist/main-44556677.css'', ''/work/dist/logo-00000000.png'',
        ''/work/dist/index-0a1b2c3d.html'']"
  by code_simp

theorem write_skipped_exactly_when_witness:
  "map (\<lambda>n. sublist (hash (snd n)) (fileName (fst n)))
       (newFilesOf plainRuntime None hashConfig [pageEntry, styleSheet, logoImage] [])
     = [True, True, True]
   \<and> map fst (written (buildOn plainRuntime None hashConfig [pageEntry, styleSheet, logoImage] {}))
       = [''/work/dist/main-44556677.css'', ''/work/dist/logo-00000000.png'',
          ''/work/dist/index-0a1b2c3d.html'']
   \<and> written (rebuild plainRuntime None hashConfig [pageEntry, styleSheet, logoImage] {}) = []
   \<and> written (fst (writeOther plainRuntime None demoConfig demoAsset (freshState, []))) \<noteq> written freshState
   \<and> written (writeEntry plainRuntime None demoConfig [] demoEntry freshState) \<noteq> written freshState"
proof -
  note t = write_skipped_exactly_when [of plainRuntime None demoConfig]
  note u = write_skipped_exactly_when [of plainRuntime None hashConfig _ _ _
      "[pageEntry, styleSheet, logoImage]" "{}"]
  have "list_all (\<lambda>b. b) (map (\<lambda>n. sublist (hash (snd n)) (fileName (fst n)))
       (newFilesOf plainRuntime None hashConfig [pageEntry, styleSheet, logoImage] []))"
    unfolding hashed_rebuild_names by simp
  then have all: "\<forall>n\<in>set (newFilesOf plainRuntime None hashConfig [pageEntry, styleSheet, logoImage] []).
      sublist (hash (snd n)) (fileName (fst n))"
    by (simp add: list_all_iff)
  from u all have a: "written (rebuild plainRuntime None hashConfig [pageEntry, styleSheet, logoImage] {}) = []"
    by blast
  have side: "\<not> (fileName (fst demoAsset) = [] \<or> falsyContent (content (snd demoAsset))
         \<or> alreadyThere (fileName (fst demoAsset)) (hash (snd demoAsset)) freshState
         \<or> isSaved (pathSaved freshState) (fileName (fst demoAsset)))"
    by (simp add: demoAsset_def falsyContent_def alreadyThere_def freshState_def isSaved_def
        objectPrototypeKeys_def)
  have b: "written (fst (writeOther plainRuntime None demoConfig demoAsset (freshState, []))) \<noteq> written freshState"
    using side t [of demoAsset freshState "[]" "[]", THEN conjunct1] by blast
  have side2: "\<not> (fileName (fst demoEntry) = []
         \<or> alreadyThere (fileName (fst demoEntry)) (hash (snd demoEntry)) freshState
         \<or> isSaved (pathSaved freshState) (fileName (fst demoEntry)))"
    by (simp add: demoEntry_def alreadyThere_def freshState_def isSaved_def objectPrototypeKeys_def)
  have c: "written (writeEntry plainRuntime None demoConfig [] demoEntry freshState) \<noteq> written freshState"
    using side2 t [of demoEntry freshState "[]" "[]", THEN conjunct2, THEN conjunct1] by blast
  from hashed_rebuild_names hashed_first_build a b c show ?thesis by simp
qed

text \<open>
  C3 as stated fails in both parts. The second reference to \<open>logo.png\<close> resolves to the
  path the first one was saved to; its write is skipped although the path does not
  contain the hash. And a rebuild of unchanged sources under a template with the hash
  token writes the source map of the script again: the bundler has named it, it is never
  renamed, and its hash is not in its path.
\<close>

lemma demo_first_write:
  "fst (writeOther plainRuntime None demoConfig demoAsset (freshState, []))
     = \<lparr> namedAs = [], pathSaved = [''dist/logo.png''],
         written = [(''dist/logo.png'', Blob (BunFile ''/work/src/logo.png''))],
         onDisk = {''dist/logo.png''} \<rparr>"
  by (simp add: writeOther_def demoAsset_def demoConfig_def freshState_def falsyContent_def
      alreadyThere_def save_def isSaved_def objectPrototypeKeys_def bunWrite_def bodyToWrite_def)

lemma demo_no_hash: "\<not> sublist ''99887766'' ''dist/logo.png''"
  by code_simp

lemma demo_ledger_skip:
  "written (fst (writeOther plainRuntime None demoConfig demoAssetAgain
       (fst (writeOther plainRuntime None demoConfig demoAsset (freshState, [])), [])))
     = written (fst (writeOther plainRuntime None demoConfig demoAsset (freshState, [])))
   \<and> fileName (fst demoAssetAgain) \<in> onDisk (fst (writeOther plainRuntime None demoConfig demoAsset (freshState, [])))
   \<and> \<not> sublist (hash (snd demoAssetAgain)) (fileName (fst demoAssetAgain))"
  unfolding demo_first_write
  using demo_no_hash
  by (simp add: writeOther_def demoAssetAgain_def demoConfig_def falsyContent_def
      alreadyThere_def save_def isSaved_def)

lemma sourcemap_rebuild:
  "map fst (written (buildOn plainRuntime None hashConfig
                       [pageEntry, appBundle, appSourceMap, logoImage] {}))
     = [''/work/dist/app-55667788.js'', ''/work/dist/app-55667788.js.map'',
        ''/work/dist/logo-00000000.png'', ''/work/dist/index-0a1b2c3d.html'']
   \<and> written (rebuild plainRuntime None hashConfig
                 [pageEntry, appBundle, appSourceMap, logoImage] {})
     = [(''/work/dist/app-55667788.js.map'', Text ''{}'')]"
  by code_simp

theorem write_skipped_without_hash_counterexample:
  "written (fst (writeOther plainRuntime None demoConfig demoAssetAgain
       (fst (writeOther plainRuntime None demoConfig demoAsset (freshState, [])), [])))
     = written (fst (writeOther plainRuntime None demoConfig demoAsset (freshState, [])))
   \<and> fileName (fst demoAssetAgain) \<in> onDisk (fst (writeOther plainRuntime None demoConfig demoAsset (freshState, [])))
   \<and> \<not> sublist (hash (snd demoAssetAgain)) (fileName (fst demoAssetAgain))
   \<and> naming hashConfig = Some (NamingString ''[dir]/[name]-[hash].[ext]'')
   \<and> map fst (written (buildOn plainRuntime None hashConfig
                         [pageEntry, appBundle, appSourceMap, logoImage] {}))
       = [''/work/dist/app-55667788.js'', ''/work/dist/app-55667788.js.map'',
          ''/work/dist/logo-00000000.png'', ''/work/dist/index-0a1b2c3d.html'']
   \<and> written (rebuild plainRuntime None hashConfig
                 [pageEntry, appBundle, appSourceMap, logoImage] {})
       = [(''/work/dist/app-55667788.js.map'', Text ''{}'')]"
  using demo_ledger_skip sourcemap_rebuild by (simp add: hashConfig_def)

subsection \<open>Identity folding\<close>

lemma map_of_dictInsertIndex:
  "map_of d k = None \<Longrightarrow> map_of (dictInsertIndex n k v d) = (map_of d)(k \<mapsto> v)"
proof (induction d)
  case Nil
  then show ?case by simp
next
  case (Cons a d)
  obtain k' v' where a: "a = (k', v')" by (cases a)
  from Cons.prems a have ne: "k' \<noteq> k" and r: "map_of d k = None"
    by (auto split: if_splits)
  show ?case
    unfolding a using Cons.IH [OF r] ne by (auto simp: fun_eq_iff)
qed

lemma map_of_update_in_place:
  "map_of (map (\<lambda>(k', v'). if k' = k then (k', v) else (k', v')) d) k'
     = (if k' = k then (if map_of d k = None then None else Some v) else map_of d k')"
  by (induction d) auto

lemma dictGet_dictSet:
  "dictGet (dictSet d k v) k' = (if k' = k then Some v else dictGet d k')"
proof (cases "dictGet d k = None")
  case True
  then show ?thesis
    by (auto simp: dictSet_def dictGet_def map_of_dictInsertIndex map_add_def split: option.splits)
next
  case False
  then show ?thesis
    by (auto simp: dictSet_def dictGet_def map_of_update_in_place)
qed

lemma namedEntry_dictSet:
  "namedEntry (dictSet named b (dictSet names d e)) ident
     = (if fst ident = b then (if snd ident = d then Some e else dictGet names (snd ident))
        else namedEntry named ident)"
  by (simp add: namedEntry_def dictGet_dictSet)

lemma keepNamedAs_found:
  "namedEntry named (base po, path_join [root po, dir po]) = Some e
     \<Longrightarrow> keepNamedAs po pn resolved named = (Some e, named)"
  by (auto simp: keepNamedAs_def namedEntry_def Let_def split: option.splits)

lemma keepNamedAs_cases:
  "keepNamedAs po pn resolved named = (None, named)
   \<or> (\<exists>e. namedEntry named (base po, path_join [root po, dir po]) = Some e
          \<and> keepNamedAs po pn resolved named = (Some e, named))
   \<or> (\<exists>e names. namedEntry named (base po, path_join [root po, dir po]) = None
          \<and> names = (case dictGet named (base po) of None \<Rightarrow> [] | Some ns \<Rightarrow> ns)
          \<and> keepNamedAs po pn resolved named
              = (Some e, dictSet named (base po) (dictSet names (path_join [root po, dir po]) e)))"
  by (auto simp: keepNamedAs_def namedEntry_def dictGet_def Let_def split: option.splits)

lemma keepNamedAs_keeps:
  assumes "namedEntry named ident = Some e"
  shows "namedEntry (snd (keepNamedAs po pn resolved named)) ident = Some e"
proof -
  let ?id = "(base po, path_join [root po, dir po])"
  from keepNamedAs_cases [of po pn resolved named]
  consider "keepNamedAs po pn resolved named = (None, named)"
    | e' where "keepNamedAs po pn resolved named = (Some e', named)"
    | e' names where "namedEntry named ?id = None"
        "names = (case dictGet named (base po) of None \<Rightarrow> [] | Some ns \<Rightarrow> ns)"
        "keepNamedAs po pn resolved named
              = (Some e', dictSet named (base po) (dictSet names (path_join [root po, dir po]) e'))"
    by blast
  then show ?thesis
  proof cases
    case 1
    with assms show ?thesis by simp
  next
    case 2
    with assms show ?thesis by simp
  next
    case 3
    show ?thesis
    proof (cases "fst ident = base po")
      case False
      with 3 assms show ?thesis by (simp add: namedEntry_dictSet)
    next
      case True
      with assms obtain ns where ns: "dictGet named (base po) = Some ns" "dictGet ns (snd ident) = Some e"
        by (auto simp: namedEntry_def split: option.splits)
      with 3(1) have "snd ident \<noteq> path_join [root po, dir po]"
        by (auto simp: namedEntry_def)
      with 3 True ns show ?thesis by (simp add: namedEntry_dictSet)
    qed
  qed
qed

lemma keepNamedAs_result:
  assumes "keepNamedAs po pn resolved named = (r, named')"
  shows "namedEntry named' (base po, path_join [root po, dir po]) = r"
proof -
  have n: "keepNamedAs po pn resolved named = (None, named)
        \<Longrightarrow> namedEntry named (base po, path_join [root po, dir po]) = None"
    by (auto simp: keepNamedAs_def namedEntry_def dictGet_def Let_def split: option.splits if_splits)
  from keepNamedAs_cases [of po pn resolved named] assms n show ?thesis
    by (auto simp: namedEntry_dictSet)
qed

lemma renameFile_unfold:
  "takesTemplate options config file k \<Longrightarrow>
   \<exists>pn resolved.
     renameFile rt options config file hashStr k sharedPath named =
       (case keepNamedAs (path_parse (replace (path_normalize (fileName file)) sharedPath ''.''))
               pn resolved named of
          (Some recorded, named') \<Rightarrow> (fd recorded, named')
        | (None, named') \<Rightarrow> (BunFile resolved, named'))"
  by (auto simp: takesTemplate_def renameFile_def Let_def split: option.splits)

lemma renameFile_keeps:
  "namedEntry named ident = Some e
     \<Longrightarrow> namedEntry (snd (renameFile rt options config file hashStr k sharedPath named)) ident = Some e"
proof (cases "takesTemplate options config file k")
  case True
  assume e: "namedEntry named ident = Some e"
  from renameFile_unfold [OF True] obtain pn resolved where
    u: "renameFile rt options config file hashStr k sharedPath named =
       (case keepNamedAs (path_parse (replace (path_normalize (fileName file)) sharedPath ''.''))
               pn resolved named of
          (Some recorded, named') \<Rightarrow> (fd recorded, named')
        | (None, named') \<Rightarrow> (BunFile resolved, named'))" by blast
  have "snd (renameFile rt options config file hashStr k sharedPath named)
        = snd (keepNamedAs (path_parse (replace (path_normalize (fileName file)) sharedPath ''.''))
               pn resolved named)"
    unfolding u by (simp split: prod.splits option.splits)
  with keepNamedAs_keeps [OF e] show ?thesis by simp
next
  case False
  assume e: "namedEntry named ident = Some e"
  from False have "renameFile rt options config file hashStr k sharedPath named = (file, named)"
    by (auto simp: takesTemplate_def renameFile_def split: option.splits)
  with e show ?thesis by simp
qed

lemma renameCalls_keeps:
  "namedEntry named ident = Some e
     \<Longrightarrow> namedEntry (renameCalls rt options config sharedPath calls named) ident = Some e"
  by (induction calls arbitrary: named rule: rev_induct)
     (simp_all add: renameCalls_def renameFile_keeps)

lemma renameFile_found:
  assumes "takesTemplate options config file k"
    and "namedEntry named (sourceIdentity sharedPath file) = Some e"
  shows "renameFile rt options config file hashStr k sharedPath named = (fd e, named)"
proof -
  from renameFile_unfold [OF assms(1)] obtain pn resolved where
    u: "renameFile rt options config file hashStr k sharedPath named =
       (case keepNamedAs (path_parse (replace (path_normalize (fileName file)) sharedPath ''.''))
               pn resolved named of
          (Some recorded, named') \<Rightarrow> (fd recorded, named')
        | (None, named') \<Rightarrow> (BunFile resolved, named'))" by blast
  from assms(2) have "keepNamedAs (path_parse (replace (path_normalize (fileName file)) sharedPath ''.''))
               pn resolved named = (Some e, named)"
    by (intro keepNamedAs_found) (simp add: sourceIdentity_def Let_def)
  with u show ?thesis by simp
qed

lemma renameFile_recorded:
  assumes "takesTemplate options config file k"
    and "renameFile rt options config file hashStr k sharedPath named = (h, named')"
    and "namedEntry named' (sourceIdentity sharedPath file) = Some e"
  shows "h = fd e"
proof -
  from renameFile_unfold [OF assms(1)] obtain pn resolved where
    u: "renameFile rt options config file hashStr k sharedPath named =
       (case keepNamedAs (path_parse (replace (path_normalize (fileName file)) sharedPath ''.''))
               pn resolved named of
          (Some recorded, named') \<Rightarrow> (fd recorded, named')
        | (None, named') \<Rightarrow> (BunFile resolved, named'))" by blast
  obtain r n where k: "keepNamedAs (path_parse (replace (path_normalize (fileName file)) sharedPath ''.''))
               pn resolved named = (r, n)" by (cases "keepNamedAs (path_parse (replace (path_normalize (fileName file)) sharedPath ''.''))
               pn resolved named")
  from keepNamedAs_result [OF k] have "namedEntry n (sourceIdentity sharedPath file) = r"
    by (simp add: sourceIdentity_def Let_def)
  moreover from u k assms(2) have "n = named'" by (auto split: option.splits)
  ultimately have "r = Some e" using assms(3) by simp
  with u k assms(2) show ?thesis by simp
qed

text \<open>
  C1, as amended. Once \<open>NamedAs\<close> holds a mapping for a base name and a source directory
  (recorded by the first renaming whose new path differs from the original path), every
  later file with that base name and source directory that \<open>renameFile\<close> renames resolves
  to the recorded path and handle, whatever its hash and kind and whatever was renamed in
  between, and the mapping stays as it is.
\<close>

theorem recorded_identity_is_reused:
  assumes "takesTemplate options config file1 k1"
    and "renameFile rt options config file1 hash1 k1 sharedPath named = (h, named1)"
    and "namedEntry named1 (sourceIdentity sharedPath file1) = Some e"
    and "sourceIdentity sharedPath file2 = sourceIdentity sharedPath file1"
    and "takesTemplate options config file2 k2"
  shows "h = fd e
     \<and> renameFile rt options config file2 hash2 k2 sharedPath
           (renameCalls rt options config sharedPath between named1)
         = (h, renameCalls rt options config sharedPath between named1)"
proof -
  have h: "h = fd e"
    using assms(1,2,3) by (rule renameFile_recorded)
  have "namedEntry (renameCalls rt options config sharedPath between named1)
          (sourceIdentity sharedPath file2) = Some e"
    using assms(3,4) by (simp add: renameCalls_keeps)
  with assms(5) have "renameFile rt options config file2 hash2 k2 sharedPath
           (renameCalls rt options config sharedPath between named1)
         = (fd e, renameCalls rt options config sharedPath between named1)"
    by (rule renameFile_found)
  with h show ?thesis by simp
qed


theorem recorded_identity_is_reused_witness:
  "takesTemplate None hashConfig (BunFile ''/work/src/img/logo.png'') Asset
   \<and> renameFile plainRuntime None hashConfig (BunFile ''/work/src/img/logo.png'') ''99887766'' Asset
         ''/work/src'' []
       = (BunFile ''/work/src/img/logo-99887766.png'',
          [(''logo.png'', [(''img'', \<lparr> asPath = ''img/logo-99887766.png'',
                                       fd = BunFile ''/work/src/img/logo-99887766.png'' \<rparr>)])])
   \<and> sourceIdentity ''/work/src'' (BunFile ''/work/src/img/../img/logo.png'')
       = sourceIdentity ''/work/src'' (BunFile ''/work/src/img/logo.png'')
   \<and> fst (renameFile plainRuntime None hashConfig (BunFile ''/work/src/img/../img/logo.png'')
            ''0a1b2c3d'' Chunk ''/work/src''
            (renameCalls plainRuntime None hashConfig ''/work/src''
               [(BunFile ''/work/src/main.css'', ''44556677'', Chunk)]
               [(''logo.png'', [(''img'', \<lparr> asPath = ''img/logo-99887766.png'',
                                       fd = BunFile ''/work/src/img/logo-99887766.png'' \<rparr>)])]))
       = BunFile ''/work/src/img/logo-99887766.png''"
proof -
  let ?named1 = "[(''logo.png'', [(''img'', \<lparr> asPath = ''img/logo-99887766.png'',
                                       fd = BunFile ''/work/src/img/logo-99887766.png'' \<rparr>)])]"
  have h1: "takesTemplate None hashConfig (BunFile ''/work/src/img/logo.png'') Asset"
    by code_simp
  have h2: "renameFile plainRuntime None hashConfig (BunFile ''/work/src/img/logo.png'') ''99887766'' Asset
         ''/work/src'' [] = (BunFile ''/work/src/img/logo-99887766.png'', ?named1)"
    by code_simp
  have h3: "namedEntry ?named1 (sourceIdentity ''/work/src'' (BunFile ''/work/src/img/logo.png''))
       = Some \<lparr> asPath = ''img/logo-99887766.png'', fd = BunFile ''/work/src/img/logo-99887766.png'' \<rparr>"
    by code_simp
  have h4: "sourceIdentity ''/work/src'' (BunFile ''/work/src/img/../img/logo.png'')
       = sourceIdentity ''/work/src'' (BunFile ''/work/src/img/logo.png'')"
    by code_simp
  have h5: "takesTemplate None hashConfig (BunFile ''/work/src/img/../img/logo.png'') Chunk"
    by code_simp
  from recorded_identity_is_reused [OF h1 h2 h3 h4 h5,
      where between = "[(BunFile ''/work/src/main.css'', ''44556677'', Chunk)]"
        and ?hash2.0 = "''0a1b2c3d''"]
  show ?thesis using h1 h2 h4 by simp
qed

text \<open>
  C1 as stated fails: \<open>index.html\<close> is in the graph as the entry point and as an asset
  that a document refers to; the entry template leaves its path as it is, so nothing is
  recorded, and the asset template then maps the same base name and source directory to
  another path. The new files of \<open>setup\<close> for this graph are two outputs of the one file.
\<close>

theorem same_identity_two_outputs_counterexample:
  "renameFile plainRuntime None kindConfig (BunFile ''/work/src/index.html'') ''0a1b2c3d'' EntryPoint
       ''/work/src'' []
     = (BunFile ''/work/src/index.html'', [])
   \<and> renameFile plainRuntime None kindConfig (BunFile ''/work/src/index.html'') ''0a1b2c3d'' Asset
       ''/work/src'' []
     = (BunFile ''/work/src/index-0a1b2c3d.html'',
        [(''index.html'', [(''.'', \<lparr> asPath = ''index-0a1b2c3d.html'',
                                     fd = BunFile ''/work/src/index-0a1b2c3d.html'' \<rparr>)])])
   \<and> sourceIdentity ''/work/src'' (fst selfFrame) = sourceIdentity ''/work/src'' (fst pageEntry)
   \<and> map (\<lambda>f. fileName (fst f)) (newFilesOf plainRuntime None kindConfig [pageEntry, selfFrame] [])
       = [''/work/dist/index.html'', ''/work/dist/index-00000000.html'']"
  by code_simp

subsection \<open>The template of a file\<close>

lemma renameFile_new_path:
  assumes "takesTemplate options config file k"
    and "selectNaming options config k (ext (path_parse (fileName file))) = Some template"
    and "namedEntry named (sourceIdentity sharedPath file) = None"
  shows "fst (renameFile rt options config file hashStr k sharedPath named)
     = BunFile (path_resolve (cwd rt) [sharedPath,
         substituteTokens template
           (path_parse (replace (path_normalize (fileName file)) sharedPath ''.'')) hashStr])"
proof -
  let ?pp = "path_parse (replace (path_normalize (fileName file)) sharedPath ''.'')"
  let ?np = "substituteTokens template ?pp hashStr"
  let ?res = "path_resolve (cwd rt) [sharedPath, ?np]"
  have u: "renameFile rt options config file hashStr k sharedPath named =
       (case keepNamedAs ?pp (path_parse ?np) ?res named of
          (Some recorded, named') \<Rightarrow> (fd recorded, named')
        | (None, named') \<Rightarrow> (BunFile ?res, named'))"
    using assms(1,2) by (simp add: takesTemplate_def renameFile_def Let_def)
  from assms(3) have n: "namedEntry named (base ?pp, path_join [root ?pp, dir ?pp]) = None"
    by (simp add: sourceIdentity_def Let_def)
  from keepNamedAs_cases [of ?pp "path_parse ?np" ?res named] n
  have "keepNamedAs ?pp (path_parse ?np) ?res named = (None, named)
      \<or> (\<exists>e n'. keepNamedAs ?pp (path_parse ?np) ?res named = (Some e, n') \<and> fd e = BunFile ?res)"
    by (auto simp: keepNamedAs_def namedEntry_def dictGet_def Let_def split: option.splits)
  with u show ?thesis by auto
qed

lemma renameFile_skips:
  "k = Sourcemap \<or> k = Bytecode \<or> fileName f = []
     \<or> selectNaming options config k (ext (path_parse (fileName f))) = None
     \<or> selectNaming options config k (ext (path_parse (fileName f))) = Some []
   \<Longrightarrow> renameFile rt options config f hashStr k sharedPath named = (f, named)"
  by (auto simp: renameFile_def)

text \<open>
  C4, as amended. In \<open>renameFile\<close>, when no style override applies, a per-kind \<open>naming\<close>
  selects the entry template for an entry point, the chunk template for a chunk and the
  asset template for an asset, and a string \<open>naming\<close> is selected for every kind; for a
  style extension, \<open>naming.css\<close> (set and not empty) takes precedence for every kind. A
  source map, a bytecode file, a file without a name and a file for which no template or
  the empty one is selected keep their handle. Any other file gets the handle recorded
  for its base name and source directory if there is one, whatever its kind, and
  otherwise the path of the selected template with its tokens substituted. For the script
  files, \<open>forJsFiles\<close> hands the bundler the string for all three kinds, or the build's
  chunk template for both \<open>entry\<close> and \<open>chunk\<close> and its asset template for \<open>asset\<close>.
\<close>

theorem naming_template_selection:
  "(styleOverride options extension = None \<longrightarrow>
       selectNaming options (config\<lparr>naming := Some (NamingObject e c a)\<rparr>) EntryPoint extension = e
     \<and> selectNaming options (config\<lparr>naming := Some (NamingObject e c a)\<rparr>) Chunk extension = c
     \<and> selectNaming options (config\<lparr>naming := Some (NamingObject e c a)\<rparr>) Asset extension = a
     \<and> selectNaming options (config\<lparr>naming := Some (NamingString s)\<rparr>) k extension = Some s)
   \<and> (naming_css opts = Some css \<and> css \<noteq> [] \<and> isStyleExtension styleExtension
        \<longrightarrow> selectNaming (Some opts) config k styleExtension = Some css)
   \<and> forJsFilesNaming (config\<lparr>naming := Some (NamingString s)\<rparr>)
        = \<lparr> entry = Some s, chunk = Some s, asset = Some s \<rparr>
   \<and> forJsFilesNaming (config\<lparr>naming := Some (NamingObject e c a)\<rparr>)
        = \<lparr> entry = c, chunk = c, asset = a \<rparr>
   \<and> (k = Sourcemap \<or> k = Bytecode \<or> fileName f = []
        \<or> selectNaming options config k (ext (path_parse (fileName f))) = None
        \<or> selectNaming options config k (ext (path_parse (fileName f))) = Some []
        \<longrightarrow> renameFile rt options config f hashStr k sharedPath named = (f, named))
   \<and> (k \<noteq> Sourcemap \<and> k \<noteq> Bytecode \<and> fileName f \<noteq> []
        \<and> selectNaming options config k (ext (path_parse (fileName f))) = Some template
        \<and> template \<noteq> []
        \<longrightarrow> (case namedEntry named (sourceIdentity sharedPath f) of
               Some recorded \<Rightarrow>
                 renameFile rt options config f hashStr k sharedPath named = (fd recorded, named)
             | None \<Rightarrow>
                 fst (renameFile rt options config f hashStr k sharedPath named)
                   = BunFile (path_resolve (cwd rt) [sharedPath,
                       substituteTokens template
                         (path_parse (replace (path_normalize (fileName f)) sharedPath ''.''))
                         hashStr])))"
proof (intro conjI impI)
  show "forJsFilesNaming (config\<lparr>naming := Some (NamingString s)\<rparr>)
        = \<lparr> entry = Some s, chunk = Some s, asset = Some s \<rparr>"
    by (simp add: forJsFilesNaming_def)
  show "forJsFilesNaming (config\<lparr>naming := Some (NamingObject e c a)\<rparr>)
        = \<lparr> entry = c, chunk = c, asset = a \<rparr>"
    by (simp add: forJsFilesNaming_def)
next
  assume "naming_css opts = Some css \<and> css \<noteq> [] \<and> isStyleExtension styleExtension"
  then show "selectNaming (Some opts) config k styleExtension = Some css"
    by (simp add: selectNaming_def styleOverride_def)
next
  assume "k = Sourcemap \<or> k = Bytecode \<or> fileName f = []
        \<or> selectNaming options config k (ext (path_parse (fileName f))) = None
        \<or> selectNaming options config k (ext (path_parse (fileName f))) = Some []"
  then show "renameFile rt options config f hashStr k sharedPath named = (f, named)"
    by (rule renameFile_skips)
next
  assume h: "k \<noteq> Sourcemap \<and> k \<noteq> Bytecode \<and> fileName f \<noteq> []
        \<and> selectNaming options config k (ext (path_parse (fileName f))) = Some template
        \<and> template \<noteq> []"
  then have t: "takesTemplate options config f k"
    by (simp add: takesTemplate_def)
  show "case namedEntry named (sourceIdentity sharedPath f) of
               Some recorded \<Rightarrow>
                 renameFile rt options config f hashStr k sharedPath named = (fd recorded, named)
             | None \<Rightarrow>
                 fst (renameFile rt options config f hashStr k sharedPath named)
                   = BunFile (path_resolve (cwd rt) [sharedPath,
                       substituteTokens template
                         (path_parse (replace (path_normalize (fileName f)) sharedPath ''.''))
                         hashStr])"
  proof (cases "namedEntry named (sourceIdentity sharedPath f)")
    case None
    with renameFile_new_path [OF t _ None, of template rt hashStr] h show ?thesis by simp
  next
    case (Some recorded)
    with renameFile_found [OF t Some, of rt hashStr] show ?thesis by simp
  qed
next
  assume n: "styleOverride options extension = None"
  show "selectNaming options (config\<lparr>naming := Some (NamingObject e c a)\<rparr>) EntryPoint extension = e"
    by (simp add: selectNaming_def n)
  show "selectNaming options (config\<lparr>naming := Some (NamingObject e c a)\<rparr>) Chunk extension = c"
    by (simp add: selectNaming_def n)
  show "selectNaming options (config\<lparr>naming := Some (NamingObject e c a)\<rparr>) Asset extension = a"
    by (simp add: selectNaming_def n)
  show "selectNaming options (config\<lparr>naming := Some (NamingString s)\<rparr>) k extension = Some s"
    by (simp add: selectNaming_def n)
qed

theorem naming_template_selection_witness:
  "styleOverride None ''.png'' = None
   \<and> selectNaming None perKindConfig EntryPoint ''.png'' = Some ''pages/[name].[ext]''
   \<and> selectNaming None perKindConfig Chunk ''.png'' = Some ''chunks/[name]-[hash].[ext]''
   \<and> selectNaming None perKindConfig Asset ''.png'' = Some ''assets/[name]-[hash].[ext]''
   \<and> selectNaming (Some cssOptions) perKindConfig Asset ''.scss'' = Some ''css/[name].[ext]''
   \<and> renameFile plainRuntime None perKindConfig (BunFile ''/work/src/app.js.map'')
         ''99887766'' Sourcemap ''/work/src'' []
       = (BunFile ''/work/src/app.js.map'', [])
   \<and> namedEntry [] (sourceIdentity ''/work/src'' (BunFile ''/work/src/img/logo.png'')) = None
   \<and> fst (renameFile plainRuntime None perKindConfig (BunFile ''/work/src/img/logo.png'')
           ''99887766'' Asset ''/work/src'' [])
       = BunFile ''/work/src/assets/logo-99887766.png''"
proof -
  let ?e = "Some ''pages/[name].[ext]''"
  let ?c = "Some ''chunks/[name]-[hash].[ext]''"
  let ?a = "Some ''assets/[name]-[hash].[ext]''"
  let ?file = "BunFile ''/work/src/img/logo.png''"
  note t = naming_template_selection [where options = None and extension = "''.png''"
      and config = perKindConfig and e = ?e and c = ?c and a = ?a
      and opts = cssOptions and css = "''css/[name].[ext]''" and styleExtension = "''.scss''"
      and template = "''assets/[name]-[hash].[ext]''" and named = "[]"
      and sharedPath = "''/work/src''" and rt = plainRuntime and hashStr = "''99887766''"]
  note ta = t [where k = Asset and f = ?file]
  note tm = t [where k = Sourcemap and f = "BunFile ''/work/src/app.js.map''"]
  have cfg: "perKindConfig\<lparr>naming := Some (NamingObject ?e ?c ?a)\<rparr> = perKindConfig"
    by (simp add: perKindConfig_def)
  have h0: "styleOverride None ''.png'' = None"
    by (simp add: styleOverride_def)
  have h1: "naming_css cssOptions = Some ''css/[name].[ext]'' \<and> ''css/[name].[ext]'' \<noteq> []
      \<and> isStyleExtension ''.scss''"
    by code_simp
  have h2: "Asset \<noteq> Sourcemap \<and> Asset \<noteq> Bytecode \<and> fileName ?file \<noteq> []
        \<and> selectNaming None perKindConfig Asset (ext (path_parse (fileName ?file)))
            = Some ''assets/[name]-[hash].[ext]''
        \<and> ''assets/[name]-[hash].[ext]'' \<noteq> []"
    by code_simp
  have h3: "namedEntry [] (sourceIdentity ''/work/src'' ?file) = None"
    by code_simp
  have r: "BunFile (path_resolve (cwd plainRuntime) [''/work/src'',
                substituteTokens ''assets/[name]-[hash].[ext]''
                  (path_parse (replace (path_normalize (fileName ?file)) ''/work/src'' ''.''))
                  ''99887766''])
       = BunFile ''/work/src/assets/logo-99887766.png''"
    by code_simp
  from ta h0 have s: "selectNaming None perKindConfig EntryPoint ''.png'' = ?e"
      "selectNaming None perKindConfig Chunk ''.png'' = ?c"
      "selectNaming None perKindConfig Asset ''.png'' = ?a"
    unfolding cfg by blast+
  from ta h1 have o: "selectNaming (Some cssOptions) perKindConfig Asset ''.scss'' = Some ''css/[name].[ext]''"
    by blast
  from tm have m: "renameFile plainRuntime None perKindConfig (BunFile ''/work/src/app.js.map'')
         ''99887766'' Sourcemap ''/work/src'' []
       = (BunFile ''/work/src/app.js.map'', [])"
    by blast
  from ta h2 have "case namedEntry [] (sourceIdentity ''/work/src'' ?file) of
               Some recorded \<Rightarrow>
                 renameFile plainRuntime None perKindConfig ?file ''99887766'' Asset ''/work/src'' []
                   = (fd recorded, [])
             | None \<Rightarrow>
                 fst (renameFile plainRuntime None perKindConfig ?file ''99887766'' Asset ''/work/src'' [])
                   = BunFile (path_resolve (cwd plainRuntime) [''/work/src'',
                       substituteTokens ''assets/[name]-[hash].[ext]''
                         (path_parse (replace (path_normalize (fileName ?file)) ''/work/src'' ''.''))
                         ''99887766''])"
    by blast
  then have n: "fst (renameFile plainRuntime None perKindConfig ?file ''99887766'' Asset ''/work/src'' [])
       = BunFile ''/work/src/assets/logo-99887766.png''"
    unfolding h3 r by simp
  from h0 s o m h3 n show ?thesis by simp
qed

text \<open>
  C4 as stated fails. For the script files, \<open>forJsFiles\<close> hands the build's chunk template
  to the bundler as its entry template, so the bundler's entry-point artifacts are not
  named with the entry template. And in \<open>renameFile\<close> the entry point \<open>b.html\<close>, which an
  \<open>iframe\<close> of another entry point refers to, gets the path that was recorded when the
  reference was renamed as an asset, not the path of the entry template.
\<close>

theorem script_entry_named_by_chunk_template_counterexample:
  "entry (forJsFilesNaming perKindConfig) = Some ''chunks/[name]-[hash].[ext]''
   \<and> entry (forJsFilesNaming perKindConfig) \<noteq> Some ''pages/[name].[ext]''
   \<and> selectNaming None perKindConfig EntryPoint ''.html'' = Some ''pages/[name].[ext]''
   \<and> fst (renameFile plainRuntime None perKindConfig (BunFile ''/work/src/b.html'') ''0b0b0b0b''
            EntryPoint ''/work/src''
            (snd (renameFile plainRuntime None perKindConfig (BunFile ''/work/src/b.html'')
                    ''0c0c0c0c'' Asset ''/work/src'' [])))
       = BunFile ''/work/src/assets/b-0c0c0c0c.html''
   \<and> fst (renameFile plainRuntime None perKindConfig (BunFile ''/work/src/b.html'') ''0b0b0b0b''
            EntryPoint ''/work/src'' [])
       = BunFile ''/work/src/pages/b.html''"
  by code_simp
subsection \<open>\<open>keepOriginalPaths\<close> in the rewriting of path literals\<close>






text \<open>
  The description of the option in the source says that with an array only the specified
  file paths are excluded from replacement. The test is \<open>pathString.endsWith(s)\<close>, so a
  path that only ends with a listed string is excluded too: with
  \<open>keepOriginalPaths = ['logo.png']\<close> the literal \<open>img/biglogo.png\<close> is written as it is,
  while with \<open>['img/logo.png']\<close> it is rewritten. Here the code departs from its
  description.
\<close>

lemma keepOriginalPaths_suffix_departs_from_description:
  "''img/biglogo.png'' \<notin> set [''logo.png'']
   \<and> written (save plainRuntime (Some (noOptions\<lparr>keepOriginalPaths := Some (KeepPaths [''logo.png''])\<rparr>))
         ''dist/main.css'' (Text ''b{background:url(img/biglogo.png)}'') (Some ''dist'')
         (freshState\<lparr>namedAs := logoNamed\<rparr>))
       = [(''dist/main.css'', Text ''b{background:url(img/biglogo.png)}'')]
   \<and> written (save plainRuntime (Some (noOptions\<lparr>keepOriginalPaths := Some (KeepPaths [''img/logo.png''])\<rparr>))
         ''dist/main.css'' (Text ''b{background:url(img/biglogo.png)}'') (Some ''dist'')
         (freshState\<lparr>namedAs := logoNamed\<rparr>))
       = [(''dist/main.css'', Text ''b{background:url(img/biglogo-11223344.png)}'')]"
  by code_simp
subsection \<open>References to files that do not exist\<close>

lemma findAttribute_in:
  "findAttribute el names = Some (an, av) \<Longrightarrow> an \<in> set names \<and> getAttribute el an = Some av"
  by (induction names) (auto split: option.splits)

lemma elementHandler_missing:
  assumes "findAttribute el attributesToSearch = Some (an, av)"
    and "av \<noteq> []" and "\<not> isURL rt av"
    and "\<not> extensionExcluded options
            (ext (path_parse (path_resolve (cwd rt) [path_dirname filePath, av])))"
    and "path_resolve (cwd rt) [path_dirname filePath, av] \<notin> disk"
  shows "elementHandler rt options filePath fileText disk el ex
     = (if errorsSuppressed options then ex
        else ex\<lparr> console := console ex @ missingDiagnostic rt fileText filePath el an av \<rparr>)"
proof -
  from findAttribute_in [OF assms(1)] have "an \<noteq> []"
    by (auto simp: attributesToSearch_def)
  with assms show ?thesis
    by (simp add: elementHandler_def Let_def)
qed

lemma elementHandler_chunks_exist:
  assumes "\<forall>f\<in>set (files ex). kind (snd f) = Chunk \<longrightarrow> fileName (fst f) \<in> disk"
  shows "\<forall>f\<in>set (files (elementHandler rt options filePath fileText disk el ex)).
           kind (snd f) = Chunk \<longrightarrow> fileName (fst f) \<in> disk"
  using assms
  by (auto simp: elementHandler_def Let_def split: option.splits prod.splits)

lemma foldl_elementHandler_chunks_exist:
  assumes "\<forall>f\<in>set (files ex). kind (snd f) = Chunk \<longrightarrow> fileName (fst f) \<in> disk"
  shows "\<forall>f\<in>set (files (foldl (\<lambda>ex el. elementHandler rt options filePath fileText disk el ex) ex els)).
           kind (snd f) = Chunk \<longrightarrow> fileName (fst f) \<in> disk"
  using assms
proof (induction els arbitrary: ex)
  case Nil
  then show ?case by simp
next
  case (Cons el els)
  from elementHandler_chunks_exist [OF Cons.prems]
  have "\<forall>f\<in>set (files (elementHandler rt options filePath fileText disk el ex)).
           kind (snd f) = Chunk \<longrightarrow> fileName (fst f) \<in> disk" .
  from Cons.IH [OF this] show ?case by simp
qed

lemma findAttribute_first:
  "findAttribute el names = Some (an, av)
     \<Longrightarrow> an \<in> set names \<and> getAttribute el an = Some av
        \<and> (\<forall>b\<in>set (takeWhile (\<lambda>b. b \<noteq> an) names). getAttribute el b = None)"
  by (induction names) (auto split: option.splits)

lemma elementHandler_silent:
  "findAttribute el attributesToSearch = None
     \<or> (\<exists>an av. findAttribute el attributesToSearch = Some (an, av)
           \<and> (av = [] \<or> isURL rt av
               \<or> extensionExcluded options
                    (ext (path_parse (path_resolve (cwd rt) [path_dirname filePath, av])))))
   \<Longrightarrow> elementHandler rt options filePath fileText disk el ex = ex"
  by (auto simp: elementHandler_def Let_def)

lemma elementHandler_console:
  "console (elementHandler rt options filePath fileText disk el ex)
     = console ex @
       (case findAttribute el attributesToSearch of
          None \<Rightarrow> []
        | Some (an, av) \<Rightarrow>
            if av \<noteq> [] \<and> \<not> isURL rt av
               \<and> \<not> extensionExcluded options
                     (ext (path_parse (path_resolve (cwd rt) [path_dirname filePath, av])))
               \<and> path_resolve (cwd rt) [path_dirname filePath, av] \<notin> disk
               \<and> \<not> errorsSuppressed options
            then missingDiagnostic rt fileText filePath el an av else [])"
proof (cases "findAttribute el attributesToSearch")
  case None
  then show ?thesis by (simp add: elementHandler_def)
next
  case (Some r)
  obtain an av where r: "r = (an, av)" by (cases r)
  from findAttribute_in [of el attributesToSearch an av] Some r have "an \<noteq> []"
    by (auto simp: attributesToSearch_def)
  with Some r show ?thesis
    by (simp add: elementHandler_def Let_def)
qed

lemma foldl_elementHandler_console:
  "console (foldl (\<lambda>ex el. elementHandler rt options filePath fileText disk el ex) ex els)
     = console ex @ concat (map (\<lambda>el.
         case findAttribute el attributesToSearch of
          None \<Rightarrow> []
        | Some (an, av) \<Rightarrow>
            if av \<noteq> [] \<and> \<not> isURL rt av
               \<and> \<not> extensionExcluded options
                     (ext (path_parse (path_resolve (cwd rt) [path_dirname filePath, av])))
               \<and> path_resolve (cwd rt) [path_dirname filePath, av] \<notin> disk
               \<and> \<not> errorsSuppressed options
            then missingDiagnostic rt fileText filePath el an av else []) els)"
proof (induction els arbitrary: ex)
  case Nil
  then show ?case by simp
next
  case (Cons el els)
  show ?case
    by (simp only: foldl_Cons Cons.IH elementHandler_console list.map concat.simps append_assoc)
qed

lemma getAllFiles_console:
  "ext (path_parse filePath) = ''.html'' \<or> ext (path_parse filePath) = ''.htm''
   \<Longrightarrow> console (getAllFiles rt options filePath excl matches fileText disk elements)
     = concat (map (\<lambda>el.
         case findAttribute el attributesToSearch of
          None \<Rightarrow> []
        | Some (an, av) \<Rightarrow>
            if av \<noteq> [] \<and> \<not> isURL rt av
               \<and> \<not> extensionExcluded options
                     (ext (path_parse (path_resolve (cwd rt) [path_dirname filePath, av])))
               \<and> path_resolve (cwd rt) [path_dirname filePath, av] \<notin> disk
               \<and> \<not> errorsSuppressed options
            then missingDiagnostic rt fileText filePath el an av else [])
        (filter (scanned matches excl) elements))"
  unfolding getAllFiles_def
  by (auto simp only: foldl_elementHandler_console if_False if_True simp_thms
        Extraction.simps append_Nil)

lemma getAllFiles_scanned_only:
  "getAllFiles rt options filePath excl matches fileText disk elements
     = getAllFiles rt options filePath excl matches fileText disk (filter (scanned matches excl) elements)"
  by (simp add: getAllFiles_def)

lemma anchors_not_scanned: "matches ''a'' el \<Longrightarrow> \<not> scanned matches (excluded options) el"
  by (auto simp: scanned_def excluded_def selectorsToExclude_def list_all_iff split: option.splits)

text \<open>
  C7, as amended. The reference of an element is the first of the searched attributes
  \<open>src\<close>, \<open>href\<close>, \<open>data\<close>, \<open>action\<close>, \<open>data-src\<close>, \<open>lowsrc\<close> that the element has (an
  attribute behind it is not looked at). For every element that reaches the handler and
  whose reference has a value that is not empty, is no URL, has no excluded extension
  and resolves to a path that does not exist, the handler returns without adding a file,
  and it writes the diagnostic (the excerpt, the caret line, the message with the tag,
  the attribute name and its value, and the position after the path of the document)
  exactly when \<open>suppressErrors\<close> is not \<open>true\<close>. An element without a reference, or whose
  reference is empty, a URL or has an excluded extension, leaves everything as it is,
  without a diagnostic. Elements that match an excluded selector (an anchor always does)
  do not reach the handler: for an HTML document, what \<open>getAllFiles\<close> writes to the
  console is, for the scanned elements in their order, the diagnostic of each missing
  reference when errors are not suppressed, and nothing else. No chunk that
  \<open>getAllFiles\<close> returns is missing on disk. (The model is a total function: nothing is
  thrown, provided the helpers of \<open>./utils\<close> that compute line and column return.)
\<close>

theorem missing_reference_dropped:
  "(findAttribute el attributesToSearch = Some (an, av) \<and> av \<noteq> [] \<and> \<not> isURL rt av
      \<and> \<not> extensionExcluded options
             (ext (path_parse (path_resolve (cwd rt) [path_dirname filePath, av])))
      \<and> path_resolve (cwd rt) [path_dirname filePath, av] \<notin> disk
     \<longrightarrow> files (elementHandler rt options filePath fileText disk el ex) = files ex
       \<and> console (elementHandler rt options filePath fileText disk el ex)
           = console ex @ (if errorsSuppressed options then []
                           else missingDiagnostic rt fileText filePath el an av)
       \<and> (console (elementHandler rt options filePath fileText disk el ex) \<noteq> console ex)
           = (\<not> errorsSuppressed options))
   \<and> errorsSuppressed options = (\<exists>opts. options = Some opts \<and> suppressErrors opts = Some True)
   \<and> (\<exists>excerpt caret position.
          missingDiagnostic rt fileText filePath el an av =
            [ConsoleLog excerpt, ConsoleLog (caret @ ''^''),
             ConsoleError (''bun-plugin-html - HTMLParseError: Specified <'' @ tagName el @ ''> ''
                        @ an @ '' '' @ [CHR 0x27] @ av @ [CHR 0x27] @ '' does not exist!''),
             ConsoleLog ([CHR 0x09] @ ''  at '' @ filePath @ '':'' @ position)])
   \<and> (findAttribute el attributesToSearch = Some (an, av)
        \<longrightarrow> an \<in> set attributesToSearch \<and> getAttribute el an = Some av
          \<and> (\<forall>b\<in>set (takeWhile (\<lambda>b. b \<noteq> an) attributesToSearch). getAttribute el b = None))
   \<and> (findAttribute el attributesToSearch = None
        \<or> (\<exists>an av. findAttribute el attributesToSearch = Some (an, av)
              \<and> (av = [] \<or> isURL rt av
                  \<or> extensionExcluded options
                       (ext (path_parse (path_resolve (cwd rt) [path_dirname filePath, av])))))
        \<longrightarrow> elementHandler rt options filePath fileText disk el ex = ex)
   \<and> (matches ''a'' el \<longrightarrow> \<not> scanned matches (excluded options) el)
   \<and> getAllFiles rt options filePath excl matches fileText disk elements
       = getAllFiles rt options filePath excl matches fileText disk
           (filter (scanned matches excl) elements)
   \<and> (ext (path_parse filePath) = ''.html'' \<or> ext (path_parse filePath) = ''.htm''
        \<longrightarrow> console (getAllFiles rt options filePath excl matches fileText disk elements)
            = concat (map
                (\<lambda>el. case findAttribute el attributesToSearch of
                        None \<Rightarrow> []
                      | Some (an, av) \<Rightarrow>
                          if av \<noteq> [] \<and> \<not> isURL rt av
                             \<and> \<not> extensionExcluded options
                                   (ext (path_parse (path_resolve (cwd rt) [path_dirname filePath, av])))
                             \<and> path_resolve (cwd rt) [path_dirname filePath, av] \<notin> disk
                             \<and> \<not> errorsSuppressed options
                          then missingDiagnostic rt fileText filePath el an av else [])
                (filter (scanned matches excl) elements)))
   \<and> (\<forall>f\<in>set (files (getAllFiles rt options filePath excl matches fileText disk elements)).
          kind (snd f) = Chunk \<longrightarrow> fileName (fst f) \<in> disk)"
proof -
  have a: "findAttribute el attributesToSearch = Some (an, av) \<and> av \<noteq> [] \<and> \<not> isURL rt av
      \<and> \<not> extensionExcluded options
             (ext (path_parse (path_resolve (cwd rt) [path_dirname filePath, av])))
      \<and> path_resolve (cwd rt) [path_dirname filePath, av] \<notin> disk
     \<longrightarrow> files (elementHandler rt options filePath fileText disk el ex) = files ex
       \<and> console (elementHandler rt options filePath fileText disk el ex)
           = console ex @ (if errorsSuppressed options then []
                           else missingDiagnostic rt fileText filePath el an av)
       \<and> (console (elementHandler rt options filePath fileText disk el ex) \<noteq> console ex)
           = (\<not> errorsSuppressed options)"
  proof
    assume h: "findAttribute el attributesToSearch = Some (an, av) \<and> av \<noteq> [] \<and> \<not> isURL rt av
      \<and> \<not> extensionExcluded options
             (ext (path_parse (path_resolve (cwd rt) [path_dirname filePath, av])))
      \<and> path_resolve (cwd rt) [path_dirname filePath, av] \<notin> disk"
    then have m: "elementHandler rt options filePath fileText disk el ex
        = (if errorsSuppressed options then ex
           else ex\<lparr> console := console ex @ missingDiagnostic rt fileText filePath el an av \<rparr>)"
      by (intro elementHandler_missing) simp_all
    have d: "missingDiagnostic rt fileText filePath el an av \<noteq> []"
      by (simp add: missingDiagnostic_def Let_def)
    have b: "console (elementHandler rt options filePath fileText disk el ex)
        = console ex @ (if errorsSuppressed options then []
                        else missingDiagnostic rt fileText filePath el an av)"
      unfolding m by simp
    have "(console (elementHandler rt options filePath fileText disk el ex) \<noteq> console ex)
        = (\<not> errorsSuppressed options)"
      unfolding b using d by simp
    moreover have "files (elementHandler rt options filePath fileText disk el ex) = files ex"
      unfolding m by simp
    ultimately show "files (elementHandler rt options filePath fileText disk el ex) = files ex
       \<and> console (elementHandler rt options filePath fileText disk el ex)
           = console ex @ (if errorsSuppressed options then []
                           else missingDiagnostic rt fileText filePath el an av)
       \<and> (console (elementHandler rt options filePath fileText disk el ex) \<noteq> console ex)
           = (\<not> errorsSuppressed options)"
      using b by blast
  qed
  have e: "errorsSuppressed options = (\<exists>opts. options = Some opts \<and> suppressErrors opts = Some True)"
    by (simp add: errorsSuppressed_def split: option.splits)
  have f: "\<exists>excerpt caret position.
          missingDiagnostic rt fileText filePath el an av =
            [ConsoleLog excerpt, ConsoleLog (caret @ ''^''),
             ConsoleError (''bun-plugin-html - HTMLParseError: Specified <'' @ tagName el @ ''> ''
                        @ an @ '' '' @ [CHR 0x27] @ av @ [CHR 0x27] @ '' does not exist!''),
             ConsoleLog ([CHR 0x09] @ ''  at '' @ filePath @ '':'' @ position)]"
    by (simp add: missingDiagnostic_def Let_def caretLine_def)
  have g: "\<forall>f\<in>set (files (getAllFiles rt options filePath excl matches fileText disk elements)).
          kind (snd f) = Chunk \<longrightarrow> fileName (fst f) \<in> disk"
  proof (cases "ext (path_parse filePath) \<noteq> ''.htm'' \<and> ext (path_parse filePath) \<noteq> ''.html''")
    case True
    then show ?thesis by (simp add: getAllFiles_def)
  next
    case False
    then show ?thesis
      unfolding getAllFiles_def
      by (simp only: if_False) (rule foldl_elementHandler_chunks_exist, simp)
  qed
  have i: "findAttribute el attributesToSearch = Some (an, av)
        \<longrightarrow> an \<in> set attributesToSearch \<and> getAttribute el an = Some av
          \<and> (\<forall>b\<in>set (takeWhile (\<lambda>b. b \<noteq> an) attributesToSearch). getAttribute el b = None)"
    using findAttribute_first [of el attributesToSearch an av] by blast
  have j: "findAttribute el attributesToSearch = None
        \<or> (\<exists>an av. findAttribute el attributesToSearch = Some (an, av)
              \<and> (av = [] \<or> isURL rt av
                  \<or> extensionExcluded options
                       (ext (path_parse (path_resolve (cwd rt) [path_dirname filePath, av])))))
        \<longrightarrow> elementHandler rt options filePath fileText disk el ex = ex"
    using elementHandler_silent [of el rt options filePath fileText disk ex] by blast
  have k: "matches ''a'' el \<longrightarrow> \<not> scanned matches (excluded options) el"
    using anchors_not_scanned [of matches el options] by blast
  have l: "ext (path_parse filePath) = ''.html'' \<or> ext (path_parse filePath) = ''.htm''
        \<longrightarrow> console (getAllFiles rt options filePath excl matches fileText disk elements)
            = concat (map
                (\<lambda>el. case findAttribute el attributesToSearch of
                        None \<Rightarrow> []
                      | Some (an, av) \<Rightarrow>
                          if av \<noteq> [] \<and> \<not> isURL rt av
                             \<and> \<not> extensionExcluded options
                                   (ext (path_parse (path_resolve (cwd rt) [path_dirname filePath, av])))
                             \<and> path_resolve (cwd rt) [path_dirname filePath, av] \<notin> disk
                             \<and> \<not> errorsSuppressed options
                          then missingDiagnostic rt fileText filePath el an av else [])
                (filter (scanned matches excl) elements))"
    using getAllFiles_console [of filePath rt options excl matches fileText disk elements] by blast
  from a e f i j k getAllFiles_scanned_only [of rt options filePath excl matches fileText disk elements]
    l g
  show ?thesis by (intro conjI)
qed

theorem missing_reference_dropped_witness:
  "findAttribute brokenImage attributesToSearch = Some (''src'', ''missing.png'')
   \<and> \<not> isURL plainRuntime ''missing.png''
   \<and> \<not> extensionExcluded None
          (ext (path_parse (path_resolve (cwd plainRuntime) [path_dirname ''src/index.html'', ''missing.png''])))
   \<and> path_resolve (cwd plainRuntime) [path_dirname ''src/index.html'', ''missing.png''] = ''/work/src/missing.png''
   \<and> files (elementHandler plainRuntime None ''src/index.html'' brokenPage {} brokenImage noExtraction) = []
   \<and> console (elementHandler plainRuntime None ''src/index.html'' brokenPage {} brokenImage noExtraction)
       = missingDiagnostic plainRuntime brokenPage ''src/index.html'' brokenImage ''src'' ''missing.png''
   \<and> console (elementHandler plainRuntime (Some (noOptions\<lparr>suppressErrors := Some True\<rparr>))
         ''src/index.html'' brokenPage {} brokenImage noExtraction) = []
   \<and> extensionExcluded (Some pngExcluded)
          (ext (path_parse (path_resolve (cwd plainRuntime) [path_dirname ''src/index.html'', ''missing.png''])))
   \<and> elementHandler plainRuntime (Some pngExcluded) ''src/index.html'' brokenPage {} brokenImage
         noExtraction = noExtraction
   \<and> ext (path_parse ''src/index.html'') = ''.html''
   \<and> console (getAllFiles plainRuntime None ''src/index.html'' (excluded None) tagSelector brokenPage
         {''/work/src/logo.png''} [missingAnchor, twoSources, brokenImage])
       = missingDiagnostic plainRuntime brokenPage ''src/index.html'' brokenImage ''src'' ''missing.png''"
proof -
  have h1: "findAttribute brokenImage attributesToSearch = Some (''src'', ''missing.png'')"
    by code_simp
  have h2: "''missing.png'' \<noteq> []" by simp
  have h3: "\<not> isURL plainRuntime ''missing.png''" by code_simp
  have h4: "\<not> extensionExcluded options
          (ext (path_parse (path_resolve (cwd plainRuntime) [path_dirname ''src/index.html'', ''missing.png''])))"
    if "options = None \<or> options = Some (noOptions\<lparr>suppressErrors := Some True\<rparr>)" for options
    using that by (auto simp: extensionExcluded_def noOptions_def)
  have r: "path_resolve (cwd plainRuntime) [path_dirname ''src/index.html'', ''missing.png''] = ''/work/src/missing.png''"
    by code_simp
  have h5: "path_resolve (cwd plainRuntime) [path_dirname ''src/index.html'', ''missing.png''] \<notin> {}"
    by simp
  have h6: "extensionExcluded (Some pngExcluded)
          (ext (path_parse (path_resolve (cwd plainRuntime) [path_dirname ''src/index.html'', ''missing.png''])))"
    by code_simp
  have h7: "ext (path_parse ''src/index.html'') = ''.html''"
    by code_simp
  note t = missing_reference_dropped [where rt = plainRuntime and el = brokenImage
      and an = "''src''" and av = "''missing.png''" and filePath = "''src/index.html''"
      and fileText = brokenPage and ex = noExtraction]
  note t1 = t [where options = None and disk = "{}"]
  note t2 = t [where options = "Some (noOptions\<lparr>suppressErrors := Some True\<rparr>)" and disk = "{}"]
  note t3 = t [where options = "Some pngExcluded" and disk = "{}"]
  note t4 = t [where options = None and disk = "{''/work/src/logo.png''}" and excl = "excluded None"
      and matches = tagSelector and elements = "[missingAnchor, twoSources, brokenImage]"]
  have s1: "\<not> errorsSuppressed None" by (simp add: errorsSuppressed_def)
  have s2: "errorsSuppressed (Some (noOptions\<lparr>suppressErrors := Some True\<rparr>))"
    by (simp add: errorsSuppressed_def)
  from t1 h1 h2 h3 h4 [of None] h5
  have "files (elementHandler plainRuntime None ''src/index.html'' brokenPage {} brokenImage noExtraction)
         = files noExtraction
       \<and> console (elementHandler plainRuntime None ''src/index.html'' brokenPage {} brokenImage noExtraction)
           = console noExtraction @ (if errorsSuppressed None then []
               else missingDiagnostic plainRuntime brokenPage ''src/index.html'' brokenImage ''src'' ''missing.png'')"
    by blast
  with s1 have a: "files (elementHandler plainRuntime None ''src/index.html'' brokenPage {} brokenImage noExtraction) = []"
    "console (elementHandler plainRuntime None ''src/index.html'' brokenPage {} brokenImage noExtraction)
       = missingDiagnostic plainRuntime brokenPage ''src/index.html'' brokenImage ''src'' ''missing.png''"
    by (simp_all add: noExtraction_def)
  from t2 h1 h2 h3 h4 [of "Some (noOptions\<lparr>suppressErrors := Some True\<rparr>)"] h5
  have "console (elementHandler plainRuntime (Some (noOptions\<lparr>suppressErrors := Some True\<rparr>))
           ''src/index.html'' brokenPage {} brokenImage noExtraction)
           = console noExtraction @ (if errorsSuppressed (Some (noOptions\<lparr>suppressErrors := Some True\<rparr>)) then []
               else missingDiagnostic plainRuntime brokenPage ''src/index.html'' brokenImage ''src'' ''missing.png'')"
    by blast
  with s2 have b: "console (elementHandler plainRuntime (Some (noOptions\<lparr>suppressErrors := Some True\<rparr>))
         ''src/index.html'' brokenPage {} brokenImage noExtraction) = []"
    by (simp add: noExtraction_def)
  from t3 h1 h6 have c: "elementHandler plainRuntime (Some pngExcluded) ''src/index.html'' brokenPage {}
         brokenImage noExtraction = noExtraction"
    by blast
  have v: "concat (map
             (\<lambda>el. case findAttribute el attributesToSearch of
                   None \<Rightarrow> []
                 | Some (an, av) \<Rightarrow>
                     if av \<noteq> [] \<and> \<not> isURL plainRuntime av
                        \<and> \<not> extensionExcluded None
                              (ext (path_parse (path_resolve (cwd plainRuntime)
                                      [path_dirname ''src/index.html'', av])))
                        \<and> path_resolve (cwd plainRuntime) [path_dirname ''src/index.html'', av]
                            \<notin> {''/work/src/logo.png''}
                        \<and> \<not> errorsSuppressed None
                     then missingDiagnostic plainRuntime brokenPage ''src/index.html'' el an av else [])
             (filter (scanned tagSelector (excluded None)) [missingAnchor, twoSources, brokenImage]))
        = missingDiagnostic plainRuntime brokenPage ''src/index.html'' brokenImage ''src'' ''missing.png''"
    by code_simp
  from t4 h7 have d: "console (getAllFiles plainRuntime None ''src/index.html'' (excluded None) tagSelector
         brokenPage {''/work/src/logo.png''} [missingAnchor, twoSources, brokenImage])
       = missingDiagnostic plainRuntime brokenPage ''src/index.html'' brokenImage ''src'' ''missing.png''"
    unfolding v by blast
  from h1 h3 h4 [of None] r a b h6 c h7 d show ?thesis by simp
qed

text \<open>
  C7 as stated fails. For a reference with an excluded extension the handler returns
  before it looks for the file, so nothing is reported although the file does not exist
  and errors are not suppressed. An anchor with a reference to a file that does not exist
  never reaches the handler, and the attribute \<open>data-src\<close> of an element that also has
  \<open>src\<close> is not looked at: the document is extracted without a diagnostic.
\<close>

theorem excluded_missing_reference_silent_counterexample:
  "findAttribute brokenImage attributesToSearch = Some (''src'', ''missing.png'')
   \<and> path_resolve (cwd plainRuntime) [path_dirname ''src/index.html'', ''missing.png''] \<notin> {}
   \<and> \<not> errorsSuppressed (Some pngExcluded)
   \<and> elementHandler plainRuntime (Some pngExcluded) ''src/index.html'' brokenPage {} brokenImage noExtraction
       = noExtraction
   \<and> getAttribute missingAnchor ''href'' = Some ''nope.html''
   \<and> getAttribute twoSources ''data-src'' = Some ''missing.png''
   \<and> ''/work/src/nope.html'' \<notin> {''/work/src/logo.png''}
   \<and> ''/work/src/missing.png'' \<notin> {''/work/src/logo.png''}
   \<and> \<not> errorsSuppressed None
   \<and> getAllFiles plainRuntime None ''src/index.html'' (excluded None) tagSelector brokenPage
         {''/work/src/logo.png''} [missingAnchor, twoSources]
       = \<lparr> files = [(BunFile ''/work/src/index.html'',
                       \<lparr> kind = EntryPoint, attribute = None, hash = ''00000000'',
                         originalPath = Some ''/work/src/index.html'',
                         htmlImporter = ''/work/src/index.html'', content = None \<rparr>),
                     (BunFile ''/work/src/logo.png'',
                       \<lparr> kind = Chunk, attribute = Some (Attribute ''src'' ''logo.png''),
                         hash = ''00000000'', originalPath = Some ''/work/src/logo.png'',
                         htmlImporter = ''/work/src/index.html'', content = None \<rparr>)],
           console = [] \<rparr>"
proof -
  have "findAttribute brokenImage attributesToSearch = Some (''src'', ''missing.png'')"
    by code_simp
  moreover have "\<not> errorsSuppressed (Some pngExcluded)"
    by (simp add: errorsSuppressed_def pngExcluded_def noOptions_def)
  moreover have "extensionExcluded (Some pngExcluded)
     (ext (path_parse (path_resolve (cwd plainRuntime) [path_dirname ''src/index.html'', ''missing.png''])))"
    by code_simp
  ultimately have a: "findAttribute brokenImage attributesToSearch = Some (''src'', ''missing.png'')
   \<and> path_resolve (cwd plainRuntime) [path_dirname ''src/index.html'', ''missing.png''] \<notin> {}
   \<and> \<not> errorsSuppressed (Some pngExcluded)
   \<and> elementHandler plainRuntime (Some pngExcluded) ''src/index.html'' brokenPage {} brokenImage noExtraction
       = noExtraction"
    by (simp add: elementHandler_def Let_def)
  have b: "getAttribute missingAnchor ''href'' = Some ''nope.html''
   \<and> getAttribute twoSources ''data-src'' = Some ''missing.png''"
    by code_simp
  have c: "\<not> errorsSuppressed None"
    by (simp add: errorsSuppressed_def)
  have d: "getAllFiles plainRuntime None ''src/index.html'' (excluded None) tagSelector brokenPage
         {''/work/src/logo.png''} [missingAnchor, twoSources]
       = \<lparr> files = [(BunFile ''/work/src/index.html'',
                       \<lparr> kind = EntryPoint, attribute = None, hash = ''00000000'',
                         originalPath = Some ''/work/src/index.html'',
                         htmlImporter = ''/work/src/index.html'', content = None \<rparr>),
                     (BunFile ''/work/src/logo.png'',
                       \<lparr> kind = Chunk, attribute = Some (Attribute ''src'' ''logo.png''),
                         hash = ''00000000'', originalPath = Some ''/work/src/logo.png'',
                         htmlImporter = ''/work/src/index.html'', content = None \<rparr>)],
           console = [] \<rparr>"
    by code_simp
  from a b c d show ?thesis by simp
qed
subsection \<open>Escaping the end of a script\<close>

lemma getSubstitution_plain:
  "CHR ''$'' \<notin> set r \<Longrightarrow> getSubstitution m p a r = r"
  by (induction m p a r rule: getSubstitution.induct) auto

lemma replaceAllFrom_passed:
  "CHR ''$'' \<notin> set rep \<Longrightarrow>
     replaceAllFrom k passed pat rep s = replaceAllFrom k [] pat rep s"
proof (induction s arbitrary: k passed)
  case Nil
  then show ?case by simp
next
  case (Cons c cs)
  have ih: "replaceAllFrom j p pat rep cs = replaceAllFrom j [] pat rep cs" for j p
    using Cons.IH [OF Cons.prems] .
  show ?case
  proof (cases k)
    case 0
    show ?thesis
      unfolding 0
      by (simp add: getSubstitution_plain [OF Cons.prems])
         (metis ih)
  next
    case (Suc j)
    show ?thesis
      unfolding Suc by (simp, metis ih)
  qed
qed

lemma replaceAllFrom_skip:
  "k \<le> length s \<Longrightarrow>
   replaceAllFrom k passed pat rep s = replaceAllFrom 0 (rev (take k s) @ passed) pat rep (drop k s)"
proof (induction k arbitrary: s passed)
  case 0
  then show ?case by simp
next
  case (Suc k)
  then obtain c cs where s: "s = c # cs" by (cases s) auto
  with Suc.prems have "k \<le> length cs" by simp
  from Suc.IH [OF this] show ?case by (simp add: s)
qed

lemma replaceAll_match:
  assumes "CHR ''$'' \<notin> set rep" and "pat \<noteq> []" and "prefix pat s"
  shows "replaceAllFrom 0 [] pat rep s = rep @ replaceAllFrom 0 [] pat rep (drop (length pat) s)"
proof -
  from assms(2,3) obtain c cs where s: "s = c # cs" by (cases s) auto
  from assms(3) have "length pat \<le> length s" by (rule prefix_length_le)
  then have l: "length pat - 1 \<le> length cs" by (simp add: s)
  have d: "drop (length pat - 1) cs = drop (length pat) s"
    using assms(2) by (cases pat) (simp_all add: s)
  have "replaceAllFrom 0 [] pat rep (c # cs)
      = rep @ replaceAllFrom (length pat - 1) [c] pat rep cs"
    using assms by (simp add: s getSubstitution_plain)
  also have "replaceAllFrom (length pat - 1) [c] pat rep cs
      = replaceAllFrom 0 (rev (take (length pat - 1) cs) @ [c]) pat rep (drop (length pat - 1) cs)"
    using l by (rule replaceAllFrom_skip)
  also have "\<dots> = replaceAllFrom 0 [] pat rep (drop (length pat) s)"
    unfolding d by (rule replaceAllFrom_passed [OF assms(1)])
  finally show ?thesis by (simp add: s)
qed

lemma replaceAll_step:
  assumes "CHR ''$'' \<notin> set rep" and "\<not> prefix pat (c # cs)"
  shows "replaceAllFrom 0 [] pat rep (c # cs) = c # replaceAllFrom 0 [] pat rep cs"
  using assms replaceAllFrom_passed [OF assms(1), of 0 "[c]" pat cs] by simp

lemma replaceAll_keeps_prefix:
  assumes "CHR ''$'' \<notin> set rep" and "pat \<noteq> []" and "rep \<noteq> []"
    and "hd rep \<notin> set t"
  shows "prefix t (replaceAllFrom 0 [] pat rep s) \<Longrightarrow> prefix t s"
  using assms(4)
proof (induction t arbitrary: s)
  case Nil
  then show ?case by simp
next
  case (Cons a t)
  show ?case
  proof (cases s)
    case Nil
    with Cons.prems show ?thesis by simp
  next
    case (Cons c cs)
    show ?thesis
    proof (cases "prefix pat s")
      case True
      from replaceAll_match [OF assms(1,2) True] Cons.prems(1) assms(3)
      have "a = hd rep" by (cases rep) simp_all
      with Cons.prems(2) show ?thesis by simp
    next
      case False
      with Cons.prems(1) have "a = c" "prefix t (replaceAllFrom 0 [] pat rep cs)"
        unfolding Cons using replaceAll_step [OF assms(1), of pat c cs] by simp_all
      moreover from Cons.prems have "hd rep \<notin> set t" by simp
      ultimately show ?thesis
        using Cons.IH [of cs] by (simp add: Cons)
    qed
  qed
qed

lemma sublist_skip_prefix:
  "p \<noteq> [] \<Longrightarrow> hd p \<notin> set u \<Longrightarrow> sublist p (u @ x) \<Longrightarrow> sublist p x"
proof (induction u)
  case Nil
  then show ?case by simp
next
  case (Cons a u)
  from Cons.prems(1,2) have "\<not> prefix p (a # u @ x)"
    by (cases p) auto
  with Cons.prems(3) have "sublist p (u @ x)"
    by (simp add: sublist_Cons_right)
  with Cons show ?case by simp
qed

lemma replaceAll_no_pattern:
  assumes "CHR ''$'' \<notin> set rep" and "rep \<noteq> []"
    and "a \<notin> set rep" and "hd rep \<notin> set t"
  shows "\<not> sublist (a # t) (replaceAllFrom 0 [] (a # t) rep s)"
proof (induction "length s" arbitrary: s rule: less_induct)
  case less
  let ?R = "replaceAllFrom 0 [] (a # t) rep"
  show ?case
  proof (cases s)
    case Nil
    then show ?thesis by simp
  next
    case (Cons c cs)
    show ?thesis
    proof (cases "prefix (a # t) s")
      case True
      then have "length (a # t) \<le> length s" by (rule prefix_length_le)
      then have "length (drop (length (a # t)) s) < length s" by simp
      from less [OF this] have ih: "\<not> sublist (a # t) (?R (drop (length (a # t)) s))" .
      have m: "?R s = rep @ ?R (drop (length (a # t)) s)"
        by (rule replaceAll_match [OF assms(1) _ True]) simp
      from ih sublist_skip_prefix [of "a # t" rep] assms(3) show ?thesis
        unfolding m by auto
    next
      case False
      have ih: "\<not> sublist (a # t) (?R cs)"
        using less [of cs] Cons by simp
      have st: "?R s = c # ?R cs"
        unfolding Cons using False Cons by (intro replaceAll_step [OF assms(1)]) simp
      have "\<not> prefix (a # t) (c # ?R cs)"
      proof
        assume p: "prefix (a # t) (c # ?R cs)"
        then have c: "c = a" and r: "prefix t (?R cs)" by auto
        from replaceAll_keeps_prefix [OF assms(1) _ assms(2,4) r] have "prefix t cs" by simp
        with c have "prefix (a # t) (c # cs)" by simp
        with False Cons show False by simp
      qed
      with ih show ?thesis
        unfolding st by (simp add: sublist_Cons_right)
    qed
  qed
qed

lemma escapeScript_clean: "\<not> sublist ''</script>'' (escapeScript c)"
proof -
  have "\<not> sublist (CHR ''<'' # ''/script>'')
          (replaceAllFrom 0 [] (CHR ''<'' # ''/script>'') (CHR 0x5C # ''x3C/script>'') c)"
    by (rule replaceAll_no_pattern) simp_all
  then show ?thesis
    by (simp add: escapeScript_def replaceAll_def)
qed

subsection \<open>Inlining\<close>

lemma processEntry_inlined:
  "isInlined options buildExts f \<Longrightarrow>
     processEntry rt options buildExts f = (None, [inlineRule rt f])"
  by (auto simp: isInlined_def processEntry_def inlineRule_def Let_def split: if_splits)

lemma isInlined_update:
  "isInlined options buildExts (fst f, (snd f)\<lparr> hash := h, kind := k \<rparr>)
     = isInlined options buildExts f"
  by (simp add: isInlined_def)

lemma processEntry_kept:
  assumes "\<not> isInlined options buildExts f"
  shows "\<exists>g. processEntry rt options buildExts f = (Some g, []) \<and> \<not> isInlined options buildExts g"
proof -
  have "processEntry rt options buildExts f = (Some f, [])
      \<or> processEntry rt options buildExts f
          = (Some (fst f, (snd f)\<lparr> hash := hashOfFile rt (fst f), kind := Asset \<rparr>), [])"
    using assms
    by (auto simp: isInlined_def processEntry_def Let_def split: option.splits if_splits)
  then show ?thesis
  proof
    assume "processEntry rt options buildExts f = (Some f, [])"
    with assms show ?thesis by blast
  next
    assume "processEntry rt options buildExts f
          = (Some (fst f, (snd f)\<lparr> hash := hashOfFile rt (fst f), kind := Asset \<rparr>), [])"
    moreover have "\<not> isInlined options buildExts
        (fst f, (snd f)\<lparr> hash := hashOfFile rt (fst f), kind := Asset \<rparr>)"
      using assms by (simp add: isInlined_update)
    ultimately show ?thesis by blast
  qed
qed

lemma processPass_Cons:
  "processPass rt options buildExts (f # graph) =
     ((case fst (processEntry rt options buildExts f) of
         None \<Rightarrow> fst (processPass rt options buildExts graph)
       | Some g \<Rightarrow> g # fst (processPass rt options buildExts graph)),
      snd (processEntry rt options buildExts f) @ snd (processPass rt options buildExts graph))"
  by (auto split: prod.splits option.splits)

lemma processPass_result:
  "(\<forall>g\<in>set (fst (processPass rt options buildExts graph)). \<not> isInlined options buildExts g)
   \<and> snd (processPass rt options buildExts graph)
       = map (inlineRule rt) (filter (isInlined options buildExts) graph)"
proof (induction graph)
  case Nil
  then show ?case by simp
next
  case (Cons f graph)
  show ?case
  proof (cases "isInlined options buildExts f")
    case True
    from processEntry_inlined [OF True, of rt] Cons show ?thesis
      unfolding processPass_Cons by (simp add: True)
  next
    case False
    from processEntry_kept [OF False, of rt] obtain g where
      "processEntry rt options buildExts f = (Some g, [])" "\<not> isInlined options buildExts g"
      by blast
    with Cons show ?thesis
      unfolding processPass_Cons by (simp add: False)
  qed
qed

lemma processTimes_clean:
  assumes "\<forall>g\<in>set (fst acc). \<not> isInlined options buildExts g"
  shows "(\<forall>g\<in>set (fst (processTimes n rt options buildExts acc)). \<not> isInlined options buildExts g)
     \<and> snd (processTimes n rt options buildExts acc) = snd acc"
  using assms
proof (induction n arbitrary: acc)
  case 0
  then show ?case by simp
next
  case (Suc n)
  let ?p = "processPass rt options buildExts (fst acc)"
  let ?acc = "(fst ?p, snd acc @ snd ?p)"
  from Suc.prems have "filter (isInlined options buildExts) (fst acc) = []"
    by (simp add: filter_empty_conv)
  with processPass_result [of rt options buildExts "fst acc"]
  have c: "\<forall>g\<in>set (fst ?acc). \<not> isInlined options buildExts g" and r: "snd ?acc = snd acc"
    by simp_all
  from Suc.IH [OF c] r show ?case
    by (simp add: case_prod_beta)
qed

lemma processHtmlFiles_result:
  assumes "getExtensionFiles graph [''.html'', ''.htm''] \<noteq> []"
  shows "(\<forall>g\<in>set (fst (processHtmlFiles rt options buildExts graph)). \<not> isInlined options buildExts g)
     \<and> snd (processHtmlFiles rt options buildExts graph)
         = map (inlineRule rt) (filter (isInlined options buildExts) graph)"
proof -
  from assms obtain n where n: "length (getExtensionFiles graph [''.html'', ''.htm'']) = Suc n"
    by (cases "getExtensionFiles graph [''.html'', ''.htm'']") auto
  let ?p = "processPass rt options buildExts graph"
  have u: "processHtmlFiles rt options buildExts graph = processTimes n rt options buildExts ?p"
    by (simp add: processHtmlFiles_def n case_prod_beta)
  from processPass_result [of rt options buildExts graph]
  have c: "\<forall>g\<in>set (fst ?p). \<not> isInlined options buildExts g"
    and r: "snd ?p = map (inlineRule rt) (filter (isInlined options buildExts) graph)"
    by simp_all
  from processTimes_clean [OF c, of n rt] r show ?thesis
    unfolding u by simp
qed

lemma sameSource_refl: "sameSource g g"
  by (simp add: sameSource_def)

lemma sameSource_trans: "sameSource a b \<Longrightarrow> sameSource b c \<Longrightarrow> sameSource a c"
  by (simp add: sameSource_def)

lemma sameSource_isInlined:
  "sameSource g' g \<Longrightarrow> isInlined options buildExts g' = isInlined options buildExts g"
  by (simp add: sameSource_def isInlined_def)

lemma sameSource_contentOrFile: "sameSource g' g \<Longrightarrow> contentOrFile g' = contentOrFile g"
  by (auto simp: sameSource_def contentOrFile_def split: option.splits)

lemma processEntry_sameSource:
  "fst (processEntry rt options buildExts f) = Some g \<Longrightarrow> sameSource g f"
  by (auto simp: processEntry_def sameSource_def Let_def split: option.splits if_splits)

lemma processPass_sameSource:
  "\<forall>g'\<in>set (fst (processPass rt options buildExts graph)). \<exists>g\<in>set graph. sameSource g' g"
proof (induction graph)
  case Nil
  then show ?case by simp
next
  case (Cons f graph)
  show ?case
  proof (cases "fst (processEntry rt options buildExts f)")
    case None
    with Cons show ?thesis
      unfolding processPass_Cons by simp
  next
    case (Some g)
    from processEntry_sameSource [OF Some] Cons Some show ?thesis
      unfolding processPass_Cons by auto
  qed
qed

lemma processTimes_sameSource:
  "\<forall>g'\<in>set (fst (processTimes n rt options buildExts acc)). \<exists>g\<in>set (fst acc). sameSource g' g"
proof (induction n arbitrary: acc)
  case 0
  then show ?case by (auto intro: sameSource_refl)
next
  case (Suc n)
  let ?p = "processPass rt options buildExts (fst acc)"
  let ?acc = "(fst ?p, snd acc @ snd ?p)"
  show ?case
  proof
    fix g' assume "g' \<in> set (fst (processTimes (Suc n) rt options buildExts acc))"
    then have "g' \<in> set (fst (processTimes n rt options buildExts ?acc))"
      by (simp add: case_prod_beta)
    with Suc.IH [of ?acc] obtain m where m: "m \<in> set (fst ?p)" "sameSource g' m" by auto
    with processPass_sameSource [of rt options buildExts "fst acc"]
    obtain g where "g \<in> set (fst acc)" "sameSource m g" by blast
    with m show "\<exists>g\<in>set (fst acc). sameSource g' g"
      using sameSource_trans by blast
  qed
qed

lemma processHtmlFiles_sameSource:
  "\<forall>g'\<in>set (fst (processHtmlFiles rt options buildExts graph)). \<exists>g\<in>set graph. sameSource g' g"
  using processTimes_sameSource [of _ rt options buildExts "(graph, [])"]
  by (simp add: processHtmlFiles_def)

lemma newFileFor_details:
  "fst (newFileFor rt options config commonPath f named) = Some n
     \<Longrightarrow> snd n = (snd f)\<lparr> content := Some (contentOrFile f) \<rparr>"
  by (auto simp: newFileFor_def Let_def split: if_splits)

lemma buildNewFiles_details:
  "\<forall>n\<in>set (fst (buildNewFiles rt options config commonPath graph named)).
      \<exists>g\<in>set graph. snd n = (snd g)\<lparr> content := Some (contentOrFile g) \<rparr>"
proof (induction graph arbitrary: named)
  case Nil
  then show ?case by simp
next
  case (Cons f graph)
  let ?r = "newFileFor rt options config commonPath f named"
  show ?case
  proof (cases "fst ?r")
    case None
    with Cons [of "snd ?r"] show ?thesis by (simp add: Let_def)
  next
    case (Some n)
    from newFileFor_details [OF Some] Cons [of "snd ?r"] Some show ?thesis
      by (auto simp: Let_def)
  qed
qed

lemma newFilesOf_not_inlined:
  assumes "getExtensionFiles graph [''.html'', ''.htm''] \<noteq> []"
  shows "\<forall>n\<in>set (newFilesOf rt options config graph named).
           \<exists>g\<in>set graph. \<not> isInlined options (buildExtensions options) g
             \<and> attribute (snd n) = attribute (snd g)
             \<and> originalPath (snd n) = originalPath (snd g)
             \<and> content (snd n) = Some (contentOrFile g)"
proof
  fix n assume n: "n \<in> set (newFilesOf rt options config graph named)"
  let ?pg = "fst (processHtmlFiles rt options (buildExtensions options) graph)"
  from n buildNewFiles_details obtain g' where
    g': "g' \<in> set ?pg" "snd n = (snd g')\<lparr> content := Some (contentOrFile g') \<rparr>"
    unfolding newFilesOf_def Let_def by blast
  from processHtmlFiles_result [OF assms, of rt options "buildExtensions options"] g'(1)
  have ni: "\<not> isInlined options (buildExtensions options) g'" by blast
  from processHtmlFiles_sameSource g'(1) obtain g where g: "g \<in> set graph" "sameSource g' g"
    by blast
  from ni g(2) have "\<not> isInlined options (buildExtensions options) g"
    by (simp add: sameSource_isInlined)
  moreover from g'(2) g(2) have "attribute (snd n) = attribute (snd g)"
    "originalPath (snd n) = originalPath (snd g)"
    by (simp_all add: sameSource_def)
  moreover from g'(2) sameSource_contentOrFile [OF g(2)]
  have "content (snd n) = Some (contentOrFile g)"
    by simp
  ultimately show "\<exists>g\<in>set graph. \<not> isInlined options (buildExtensions options) g
             \<and> attribute (snd n) = attribute (snd g)
             \<and> originalPath (snd n) = originalPath (snd g)
             \<and> content (snd n) = Some (contentOrFile g)"
    using g(1) by blast
qed

text \<open>
  C6, as amended. When the graph holds an HTML file, \<open>processHtmlFiles\<close> removes from the
  graph every named file that an attribute refers to and whose extension is a style
  extension (styles inlined) or a build extension (scripts inlined), before any output
  is produced, and registers for each such file, in the order of the graph, its inlining
  rule. The rule of a style replaces the element by a \<open>style\<close> element around the
  text of the style. The rule of a script removes the attribute \<open>src\<close>, and sets the inner
  content of an element that is not void to the text of the script in which every
  \<open></script>\<close> is escaped, so that none is left; a void element keeps its content. Every
  new file that \<open>setup\<close> then builds, and so every file it writes, stems from an entry of
  the graph that is not inlined: it has the attribute, the original path and the content
  of that entry.
\<close>

theorem inlined_assets_leave_the_graph:
  assumes "getExtensionFiles graph [''.html'', ''.htm''] \<noteq> []"
  shows "(\<forall>g\<in>set (fst (processHtmlFiles rt options buildExts graph)). \<not> isInlined options buildExts g)
     \<and> snd (processHtmlFiles rt options buildExts graph)
         = map (inlineRule rt) (filter (isInlined options buildExts) graph)
     \<and> applyRule rt (InlineStyle selector file details extension) fileLocation el
         = Replaced (''<style>'' @ styleText rt file details extension @ ''</style>'')
     \<and> applyRule rt (InlineScript selector file details) fileLocation el
         = Kept (if voidElement rt (tagName el) then removeAttribute ''src'' el
                 else (removeAttribute ''src'' el)
                        \<lparr> innerContent := escapeScript (scriptText rt file details) \<rparr>)
     \<and> (\<forall>el'. applyRule rt (InlineScript selector file details) fileLocation el = Kept el'
          \<longrightarrow> getAttribute el' ''src'' = None
            \<and> innerContent el' = (if voidElement rt (tagName el) then innerContent el
                                   else escapeScript (scriptText rt file details)))
     \<and> \<not> sublist ''</script>'' (escapeScript (scriptText rt file details))
     \<and> (\<forall>n\<in>set (newFilesOf rt options config graph named).
           \<exists>g\<in>set graph. \<not> isInlined options (buildExtensions options) g
             \<and> attribute (snd n) = attribute (snd g)
             \<and> originalPath (snd n) = originalPath (snd g)
             \<and> content (snd n) = Some (contentOrFile g))"
proof -
  have m: "map_of (filter (\<lambda>kv. fst kv \<noteq> a) xs) a = None"
    for a :: string and xs :: "(string \<times> string) list"
    by (induction xs) auto
  have k: "applyRule rt (InlineScript selector file details) fileLocation el
         = Kept (if voidElement rt (tagName el) then removeAttribute ''src'' el
                 else (removeAttribute ''src'' el)
                        \<lparr> innerContent := escapeScript (scriptText rt file details) \<rparr>)"
    by (simp add: applyRule_def setInnerContent_def removeAttribute_def)
  have "\<forall>el'. applyRule rt (InlineScript selector file details) fileLocation el = Kept el'
          \<longrightarrow> getAttribute el' ''src'' = None
            \<and> innerContent el' = (if voidElement rt (tagName el) then innerContent el
                                   else escapeScript (scriptText rt file details))"
    unfolding k by (auto simp: getAttribute_def removeAttribute_def m)
  moreover note k processHtmlFiles_result [OF assms, of rt options buildExts]
    newFilesOf_not_inlined [OF assms, of rt options config named]
  moreover have "applyRule rt (InlineStyle selector file details extension) fileLocation el
         = Replaced (''<style>'' @ styleText rt file details extension @ ''</style>'')"
    by (simp add: applyRule_def)
  ultimately show ?thesis
    using escapeScript_clean by blast
qed

theorem inlined_assets_leave_the_graph_witness:
  "getExtensionFiles [pageEntry, appScript, styleSheet, logoImage] [''.html'', ''.htm''] \<noteq> []
   \<and> snd (processHtmlFiles plainRuntime (Some inlineAll) extensionsToBuild
            [pageEntry, appScript, styleSheet, logoImage])
       = [InlineScript (attributeToSelectorSpec (Attribute ''src'' ''./app.js''))
            (fst appScript) (snd appScript),
          InlineStyle (attributeToSelectorSpec (Attribute ''href'' ''./main.css''))
            (fst styleSheet) (snd styleSheet) ''.css'']
   \<and> applyRule plainRuntime (InlineStyle [] (fst styleSheet) (snd styleSheet) ''.css'')
         ''/work/dist/index.html'' scriptElement
       = Replaced ''<style>a{color:red}</style>''
   \<and> applyRule plainRuntime (InlineScript [] (fst appScript) (snd appScript))
         ''/work/dist/index.html'' scriptElement
       = Kept \<lparr> tagName = ''script'', attributes = [(''type'', ''module'')],
                 innerContent = ''document.write(`<script>go()'' @ [CHR 0x5C]
                                  @ ''x3C/script>`)'' \<rparr>
   \<and> applyRule plainRuntime (InlineScript [] (fst appScript) (snd appScript))
         ''/work/dist/index.html'' embedElement
       = Kept \<lparr> tagName = ''embed'', attributes = [(''type'', ''text/javascript'')],
                 innerContent = [] \<rparr>
   \<and> map fst (written (finishSetup plainRuntime (Some inlineAll) demoConfig
                       [pageEntry, appScript, styleSheet, logoImage] freshState))
       = [''/work/dist/logo.png'', ''/work/dist/index.html'']"
proof -
  have w: "map fst (written (finishSetup plainRuntime (Some inlineAll) demoConfig
                       [pageEntry, appScript, styleSheet, logoImage] freshState))
       = [''/work/dist/logo.png'', ''/work/dist/index.html'']"
    by code_simp
  have h: "getExtensionFiles [pageEntry, appScript, styleSheet, logoImage] [''.html'', ''.htm''] \<noteq> []"
    by code_simp
  note t = inlined_assets_leave_the_graph [OF h, of plainRuntime "Some inlineAll" extensionsToBuild]
  have r: "map (inlineRule plainRuntime)
             (filter (isInlined (Some inlineAll) extensionsToBuild)
                [pageEntry, appScript, styleSheet, logoImage])
       = [InlineScript (attributeToSelectorSpec (Attribute ''src'' ''./app.js''))
            (fst appScript) (snd appScript),
          InlineStyle (attributeToSelectorSpec (Attribute ''href'' ''./main.css''))
            (fst styleSheet) (snd styleSheet) ''.css'']"
    by code_simp
  have s: "''<style>'' @ styleText plainRuntime (fst styleSheet) (snd styleSheet) ''.css'' @ ''</style>''
       = ''<style>a{color:red}</style>''"
    by code_simp
  have k: "(if voidElement plainRuntime (tagName scriptElement) then removeAttribute ''src'' scriptElement
            else (removeAttribute ''src'' scriptElement)
                   \<lparr> innerContent := escapeScript (scriptText plainRuntime (fst appScript) (snd appScript)) \<rparr>)
       = \<lparr> tagName = ''script'', attributes = [(''type'', ''module'')],
                 innerContent = ''document.write(`<script>go()'' @ [CHR 0x5C]
                                  @ ''x3C/script>`)'' \<rparr>"
    by code_simp
  have v: "(if voidElement plainRuntime (tagName embedElement) then removeAttribute ''src'' embedElement
            else (removeAttribute ''src'' embedElement)
                   \<lparr> innerContent := escapeScript (scriptText plainRuntime (fst appScript) (snd appScript)) \<rparr>)
       = \<lparr> tagName = ''embed'', attributes = [(''type'', ''text/javascript'')],
                 innerContent = [] \<rparr>"
    by code_simp
  note ts = t [where selector = "[]" and ?file = "fst styleSheet" and details = "snd styleSheet"
      and extension = "''.css''" and fileLocation = "''/work/dist/index.html''"
      and el = scriptElement]
  note tj = t [where selector = "[]" and ?file = "fst appScript" and details = "snd appScript"
      and fileLocation = "''/work/dist/index.html''" and el = scriptElement]
  note tv = t [where selector = "[]" and ?file = "fst appScript" and details = "snd appScript"
      and fileLocation = "''/work/dist/index.html''" and el = embedElement]
  from ts have a: "snd (processHtmlFiles plainRuntime (Some inlineAll) extensionsToBuild
            [pageEntry, appScript, styleSheet, logoImage])
         = map (inlineRule plainRuntime)
             (filter (isInlined (Some inlineAll) extensionsToBuild)
                [pageEntry, appScript, styleSheet, logoImage])"
    and b: "applyRule plainRuntime (InlineStyle [] (fst styleSheet) (snd styleSheet) ''.css'')
         ''/work/dist/index.html'' scriptElement
       = Replaced (''<style>'' @ styleText plainRuntime (fst styleSheet) (snd styleSheet) ''.css''
                    @ ''</style>'')"
    by blast+
  from tj have c: "applyRule plainRuntime (InlineScript [] (fst appScript) (snd appScript))
         ''/work/dist/index.html'' scriptElement
       = Kept (if voidElement plainRuntime (tagName scriptElement) then removeAttribute ''src'' scriptElement
            else (removeAttribute ''src'' scriptElement)
                   \<lparr> innerContent := escapeScript (scriptText plainRuntime (fst appScript) (snd appScript)) \<rparr>)"
    by blast
  from tv have d: "applyRule plainRuntime (InlineScript [] (fst appScript) (snd appScript))
         ''/work/dist/index.html'' embedElement
       = Kept (if voidElement plainRuntime (tagName embedElement) then removeAttribute ''src'' embedElement
            else (removeAttribute ''src'' embedElement)
                   \<lparr> innerContent := escapeScript (scriptText plainRuntime (fst appScript) (snd appScript)) \<rparr>)"
    by blast
  from h w a b c d show ?thesis
    unfolding r s k v by simp
qed

text \<open>
  C6 as stated fails. With \<open>inline: true\<close>, a chunk that the bundler split off has a build
  extension but no attribute that refers to it: it stays in the graph and \<open>setup\<close> writes
  it as a file. And a script that a \<open>link\<close> element refers to is removed from the graph
  and not written, while its rule leaves the element as it is: a \<open>link\<close> is void, so its
  content is not set, and it has no \<open>src\<close>, so its reference \<open>href\<close> stays.
\<close>

theorem inlining_leaves_chunk_and_href_counterexample:
  "inlineJs (Some inlineAll)
   \<and> arrayIncludes extensionsToBuild (ext (path_parse (fileName (fst splitChunk))))
   \<and> fst (processHtmlFiles plainRuntime (Some inlineAll) extensionsToBuild
            [pageEntry, mainScript, splitChunk])
       = [pageEntry, splitChunk]
   \<and> snd (processHtmlFiles plainRuntime (Some inlineAll) extensionsToBuild
            [pageEntry, mainScript, splitChunk])
       = [inlineRule plainRuntime mainScript]
   \<and> applyRule plainRuntime (inlineRule plainRuntime mainScript) ''/work/dist/index.html'' preloadLink
       = Kept preloadLink
   \<and> getAttribute preloadLink ''href'' = Some ''./main.js''
   \<and> innerContent preloadLink = []
   \<and> map fst (written (finishSetup plainRuntime (Some inlineAll) demoConfig
                       [pageEntry, mainScript, splitChunk] freshState))
       = [''/work/dist/chunk-1a2b3c4d.js'', ''/work/dist/index.html'']"
  by code_simp
end
